(* ===== verification/Go_Prelude.thy ===== *)
theory Go_Prelude
  imports Main "HOL-Library.Word"
begin

text \<open>
  Shared vocabulary of the development: Go errors as values, contexts, times and durations, and
  the world that operations thread.

  A Go function that reaches code outside the repository (a model, a tool, the database, a clock)
  is a function that takes the world and returns a result with the next world.  The world has two
  parts: the state of everything outside the repository, of an arbitrary type, which only the
  outside functions read and write; and the trace of the calls the repository made across that
  boundary, oldest first.  The trace is what the properties of ordering and of counting speak of.
\<close>

named_theorems trace_simps \<open>what one boundary call adds to the trace\<close>
named_theorems error_simps \<open>texts and chains of errors\<close>

section \<open>Lists\<close>

text \<open>Go's \<open>strings.Join\<close> on byte strings.\<close>

fun join :: "'a list \<Rightarrow> 'a list list \<Rightarrow> 'a list" where
  "join sep [] = []"
| "join sep [x] = x"
| "join sep (x # y # ys) = x @ sep @ join sep (y # ys)"

lemma join_Cons: "xs \<noteq> [] \<Longrightarrow> join sep (x # xs) = x @ sep @ join sep xs"
  by (cases xs) simp_all

fun first_some :: "'a option list \<Rightarrow> 'a option" where
  "first_some [] = None"
| "first_some (Some x # xs) = Some x"
| "first_some (None # xs) = first_some xs"

lemma first_some_None [simp]: "first_some xs = None \<longleftrightarrow> (\<forall>x \<in> set xs. x = None)"
  by (induction xs rule: first_some.induct) auto

lemma first_some_Some: "first_some xs = Some y \<Longrightarrow> Some y \<in> set xs"
  by (induction xs rule: first_some.induct) auto

lemma map_sum_Inr: "map_sum f g x = Inr y \<longleftrightarrow> (\<exists>z. x = Inr z \<and> y = g z)"
  by (cases x) auto

section \<open>Errors\<close>

text \<open>
  The package-level error variables that code compares by identity (\<open>errors.Is\<close>).
\<close>

datatype sentinel =
    EOF | ErrClosedPipe | ContextCanceled | DeadlineExceeded
  | ErrNotExist | ErrExist | ErrShortWrite | ErrHTTPServerClosed
  | ErrMaxIterations | ErrNotImplemented | ErrServerStarted | ErrServerIsClosed

fun sentinel_text :: "sentinel \<Rightarrow> string" where
  "sentinel_text EOF = ''EOF''"
| "sentinel_text ErrClosedPipe = ''io: read/write on closed pipe''"
| "sentinel_text ContextCanceled = ''context canceled''"
| "sentinel_text DeadlineExceeded = ''context deadline exceeded''"
| "sentinel_text ErrNotExist = ''file does not exist''"
| "sentinel_text ErrExist = ''file already exists''"
| "sentinel_text ErrShortWrite = ''short write''"
| "sentinel_text ErrHTTPServerClosed = ''http: Server closed''"
| "sentinel_text ErrMaxIterations = ''react loop reached maximum iterations''"
| "sentinel_text ErrNotImplemented = ''not implemented''"
| "sentinel_text ErrServerStarted = ''web server already started''"
| "sentinel_text ErrServerIsClosed = ''web server is closed''"

text \<open>
  A non-nil Go error.  \<open>Errorf\<close> is \<open>errors.New\<close> or \<open>fmt.Errorf\<close> without
  \<open>%w\<close>; \<open>Wrapf p e\<close> is \<open>fmt.Errorf\<close> with \<open>%w\<close> at the end of the
  format, \<open>p\<close> being the text before it; \<open>Joined\<close> is \<open>errors.Join\<close> of non-nil
  errors; \<open>SanitizedWrapped\<close> and \<open>AuditPersistence\<close> are the error types of
  internal/provider.  \<open>Foreign\<close> is an error made outside the repository: its text, the result
  of its \<open>Retryable\<close> and \<open>ModelResponseAvailable\<close> methods when it has them, and
  what it unwraps to.  A nil error is \<open>None\<close> of \<open>gerror option\<close>.
\<close>

datatype gerror =
    Errorf string
  | Sentinel sentinel
  | Wrapf string gerror
  | Joined "gerror list"
  | SanitizedWrapped string string "gerror option"
  | AuditPersistence gerror
  | Foreign string "bool option" "bool option" "gerror list"

fun error_text :: "gerror \<Rightarrow> string" where
  "error_text (Errorf t) = t"
| "error_text (Sentinel s) = sentinel_text s"
| "error_text (Wrapf p e) = p @ error_text e"
| "error_text (Joined es) = join [CHR 0x0A] (map error_text es)"
| "error_text (SanitizedWrapped p m c) = p @ '': '' @ m"
| "error_text (AuditPersistence e) = error_text e"
| "error_text (Foreign t r a es) = t"

text \<open>\<open>errors.Is\<close> against a package-level variable: the error or anything it wraps.\<close>

fun errors_is :: "sentinel \<Rightarrow> gerror \<Rightarrow> bool" where
  "errors_is s (Errorf t) = False"
| "errors_is s (Sentinel s') = (s = s')"
| "errors_is s (Wrapf p e) = errors_is s e"
| "errors_is s (Joined es) = (\<exists>e \<in> set es. errors_is s e)"
| "errors_is s (SanitizedWrapped p m c) = (case c of None \<Rightarrow> False | Some e \<Rightarrow> errors_is s e)"
| "errors_is s (AuditPersistence e) = errors_is s e"
| "errors_is s (Foreign t r a es) = (\<exists>e \<in> set es. errors_is s e)"

text \<open>
  \<open>errors.As\<close> against an interface with one boolean method: the first error of the chain, in
  depth-first order, that has the method, and the method's result.
\<close>

fun as_retryable :: "gerror \<Rightarrow> bool option" where
  "as_retryable (Errorf t) = None"
| "as_retryable (Sentinel s) = None"
| "as_retryable (Wrapf p e) = as_retryable e"
| "as_retryable (Joined es) = first_some (map as_retryable es)"
| "as_retryable (SanitizedWrapped p m c) = (case c of None \<Rightarrow> None | Some e \<Rightarrow> as_retryable e)"
| "as_retryable (AuditPersistence e) = as_retryable e"
| "as_retryable (Foreign t r a es) =
     (case r of Some b \<Rightarrow> Some b | None \<Rightarrow> first_some (map as_retryable es))"

fun as_response_available :: "gerror \<Rightarrow> bool option" where
  "as_response_available (Errorf t) = None"
| "as_response_available (Sentinel s) = None"
| "as_response_available (Wrapf p e) = as_response_available e"
| "as_response_available (Joined es) = first_some (map as_response_available es)"
| "as_response_available (SanitizedWrapped p m c) =
     (case c of None \<Rightarrow> None | Some e \<Rightarrow> as_response_available e)"
| "as_response_available (AuditPersistence e) = Some True"
| "as_response_available (Foreign t r a es) =
     (case a of Some b \<Rightarrow> Some b | None \<Rightarrow> first_some (map as_response_available es))"

lemmas error_text_simps [error_simps] = error_text.simps sentinel_text.simps

text \<open>\<open>errors.Join\<close>: nil when every error is nil.\<close>

definition Join_errors :: "gerror list \<Rightarrow> gerror option" where
  "Join_errors es = (if es = [] then None else Some (Joined es))"

definition join_nils :: "gerror option list \<Rightarrow> gerror option" where
  "join_nils es = Join_errors (map the (filter (\<lambda>e. e \<noteq> None) es))"

lemma join_nils_None [simp]: "join_nils es = None \<longleftrightarrow> (\<forall>e \<in> set es. e = None)"
  by (auto simp: join_nils_def Join_errors_def filter_empty_conv)

section \<open>Times and durations\<close>

text \<open>
  A \<open>time.Duration\<close> is a number of nanoseconds.  A \<open>time.Time\<close> is the number of
  nanoseconds since its zero value together with the zone's offset in seconds, so \<open>IsZero\<close>
  is a test of the first part.
\<close>

type_synonym duration = int

record gotime =
  t_ns :: int
  t_zone :: int

definition millisecond :: duration where
  "millisecond = 1000000"

definition max_duration :: duration where
  "max_duration = 9223372036854775807"

definition min_duration :: duration where
  "min_duration = -9223372036854775808"

text \<open>\<open>Time.Sub\<close> saturates; \<open>Duration.Milliseconds\<close> truncates towards zero.\<close>

definition time_sub :: "gotime \<Rightarrow> gotime \<Rightarrow> duration" where
  "time_sub a b = max min_duration (min max_duration (t_ns a - t_ns b))"

definition milliseconds :: "duration \<Rightarrow> int" where
  "milliseconds d = sgn d * (\<bar>d\<bar> div millisecond)"

definition to_utc :: "gotime \<Rightarrow> gotime" where
  "to_utc t = t\<lparr>t_zone := 0\<rparr>"

definition is_zero :: "gotime \<Rightarrow> bool" where
  "is_zero t \<longleftrightarrow> t_ns t = 0"

text \<open>
  The elapsed time that audit rows carry: milliseconds, and 0 when the clock went backwards.
\<close>

definition elapsed_ms :: "gotime \<Rightarrow> gotime \<Rightarrow> int" where
  "elapsed_ms start finish = (let d = milliseconds (time_sub finish start) in if d < 0 then 0 else d)"

lemma elapsed_ms_nonneg [simp]: "0 \<le> elapsed_ms a b"
  by (simp add: elapsed_ms_def Let_def)

lemma elapsed_ms_not_negative [simp]: "\<not> elapsed_ms a b < 0"
  by (simp add: not_less)

lemma to_utc_is_zero [simp]: "is_zero (to_utc t) = is_zero t"
  by (simp add: to_utc_def is_zero_def)

section \<open>Contexts\<close>

record correlation =
  co_request :: string
  co_session :: string
  co_profile :: string
  co_channel :: string
  co_schedule :: string

definition no_correlation :: correlation where
  "no_correlation = \<lparr>co_request = [], co_session = [], co_profile = [], co_channel = [], co_schedule = []\<rparr>"

text \<open>
  A non-nil context: which caller's cancellation it follows, whether \<open>context.WithoutCancel\<close>
  detached it, the timeouts put on it, and the correlation value stored in it.  A nil context is
  \<open>None\<close> of \<open>goctx option\<close>.
\<close>

record goctx =
  cx_root :: nat
  cx_detached :: bool
  cx_timeouts :: "duration list"
  cx_correlation :: correlation

definition without_cancel :: "goctx \<Rightarrow> goctx" where
  "without_cancel cx = cx\<lparr>cx_detached := True, cx_timeouts := []\<rparr>"

definition with_timeout :: "duration \<Rightarrow> goctx \<Rightarrow> goctx" where
  "with_timeout d cx = cx\<lparr>cx_timeouts := d # cx_timeouts cx\<rparr>"

definition with_correlation :: "correlation \<Rightarrow> goctx \<Rightarrow> goctx" where
  "with_correlation c cx = cx\<lparr>cx_correlation := c\<rparr>"

text \<open>\<open>context.Background\<close>, which nothing cancels and which carries no value.\<close>

definition background :: goctx where
  "background = \<lparr>cx_root = 0, cx_detached = True, cx_timeouts = [], cx_correlation = no_correlation\<rparr>"

lemma without_cancel_detached [simp]: "cx_detached (without_cancel cx)"
  by (simp add: without_cancel_def)

section \<open>The world and the boundary\<close>

record ('x, 'e) world =
  w_ext :: 'x
  w_trace :: "'e list"

text \<open>
  \<open>silent\<close> runs an outside function that leaves no event (reading a clock, asking a context for
  its error); \<open>outside\<close> runs one and records the event; \<open>emit\<close> records an event that has no
  result (a log record).
\<close>

definition silent :: "('x \<Rightarrow> 'a \<times> 'x) \<Rightarrow> ('x, 'e) world \<Rightarrow> 'a \<times> ('x, 'e) world" where
  "silent f w = (let (r, x) = f (w_ext w) in (r, w\<lparr>w_ext := x\<rparr>))"

definition outside :: "('x \<Rightarrow> 'a \<times> 'x) \<Rightarrow> ('a \<Rightarrow> 'e) \<Rightarrow> ('x, 'e) world \<Rightarrow> 'a \<times> ('x, 'e) world" where
  "outside f ev w = (let (r, x) = f (w_ext w) in (r, w\<lparr>w_ext := x, w_trace := w_trace w @ [ev r]\<rparr>))"

definition emit :: "'e \<Rightarrow> ('x, 'e) world \<Rightarrow> ('x, 'e) world" where
  "emit ev w = w\<lparr>w_trace := w_trace w @ [ev]\<rparr>"

text \<open>\<open>emitted w es w'\<close>: between \<open>w\<close> and \<open>w'\<close> exactly the events \<open>es\<close> happened.\<close>

definition emitted :: "('x, 'e) world \<Rightarrow> 'e list \<Rightarrow> ('x, 'e) world \<Rightarrow> bool" where
  "emitted w es w' \<longleftrightarrow> w_trace w' = w_trace w @ es"

lemma emitted_refl [simp, intro]: "emitted w [] w"
  by (simp add: emitted_def)

lemma emitted_trans: "emitted w es w' \<Longrightarrow> emitted w' es' w'' \<Longrightarrow> emitted w (es @ es') w''"
  by (simp add: emitted_def)

lemma emitted_unique: "emitted w es w' \<Longrightarrow> emitted w es' w' \<Longrightarrow> es = es'"
  by (simp add: emitted_def)

lemma trace_silent [trace_simps]: "silent f w = (r, w') \<Longrightarrow> w_trace w' = w_trace w"
  by (auto simp: silent_def Let_def split: prod.splits)

lemma trace_outside [trace_simps]: "outside f ev w = (r, w') \<Longrightarrow> w_trace w' = w_trace w @ [ev r]"
  by (auto simp: outside_def Let_def split: prod.splits)

lemma trace_emit [simp, trace_simps]: "w_trace (emit ev w) = w_trace w @ [ev]"
  by (simp add: emit_def)

lemma ext_emit [simp]: "w_ext (emit ev w) = w_ext w"
  by (simp add: emit_def)

lemma emitted_silent: "silent f w = (r, w') \<Longrightarrow> emitted w [] w'"
  by (simp add: emitted_def trace_silent)

lemma emitted_outside: "outside f ev w = (r, w') \<Longrightarrow> emitted w [ev r] w'"
  by (simp add: emitted_def trace_outside)

lemma emitted_emit: "emitted w [ev] (emit ev w)"
  by (simp add: emitted_def)

lemma ext_silent: "silent f w = (r, w') \<Longrightarrow> f (w_ext w) = (r, w_ext w')"
  by (auto simp: silent_def Let_def split: prod.splits)

lemma ext_outside: "outside f ev w = (r, w') \<Longrightarrow> f (w_ext w) = (r, w_ext w')"
  by (auto simp: outside_def Let_def split: prod.splits)

end
