(* ===== verification/Go_Strings.thy ===== *)
theory Go_Strings
  imports Go_Prelude
begin

text \<open>
  The parts of Go's \<open>unicode/utf8\<close>, \<open>strings\<close>, \<open>strconv\<close>, \<open>fmt\<close> and
  \<open>time\<close> that the sources use.  A Go string is a sequence of bytes, here a list of
  \<open>char\<close>; a rune is a natural number.
\<close>

type_synonym rune = nat

abbreviation byte :: "char \<Rightarrow> nat" where
  "byte c \<equiv> of_char c"

abbreviation chr :: "nat \<Rightarrow> char" where
  "chr n \<equiv> char_of n"

lemma byte_chr: "n < 256 \<Longrightarrow> byte (chr n) = n"
  by simp

lemma byte_less [simp]: "byte c < 256"
  using of_char_mod_256 [of c, where 'a = nat] by (metis mod_less_divisor zero_less_numeral)

section \<open>UTF-8\<close>

definition rune_error :: rune where
  "rune_error = 0xFFFD"

definition valid_rune :: "rune \<Rightarrow> bool" where
  "valid_rune r \<longleftrightarrow> r < 0xD800 \<or> (0xE000 \<le> r \<and> r \<le> 0x10FFFF)"

definition continuation :: "char \<Rightarrow> bool" where
  "continuation c \<longleftrightarrow> 0x80 \<le> byte c \<and> byte c \<le> 0xBF"

text \<open>
  The bounds that \<open>utf8.DecodeRune\<close> puts on the second byte: they exclude overlong forms,
  surrogates and code points above \<open>10FFFF\<close>.
\<close>

definition second_ok :: "nat \<Rightarrow> nat \<Rightarrow> bool" where
  "second_ok b s \<longleftrightarrow>
     (if b = 0xE0 then 0xA0 else if b = 0xF0 then 0x90 else 0x80) \<le> s \<and>
     s \<le> (if b = 0xED then 0x9F else if b = 0xF4 then 0x8F else 0xBF)"

definition low6 :: "char \<Rightarrow> nat" where
  "low6 c = byte c - 0x80"

text \<open>\<open>utf8.DecodeRune\<close>: the first rune and its width; an invalid byte is the error rune, width 1.\<close>

definition decode_rune :: "string \<Rightarrow> rune \<times> nat" where
  "decode_rune s = (case s of [] \<Rightarrow> (rune_error, 0) | c # cs \<Rightarrow>
     (let b = byte c in
      if b < 0x80 then (b, 1)
      else if 0xC2 \<le> b \<and> b \<le> 0xDF then
        (case cs of
           c1 # _ \<Rightarrow> if continuation c1 then ((b - 0xC0) * 64 + low6 c1, 2) else (rune_error, 1)
         | [] \<Rightarrow> (rune_error, 1))
      else if 0xE0 \<le> b \<and> b \<le> 0xEF then
        (case cs of
           c1 # c2 # _ \<Rightarrow>
             if second_ok b (byte c1) \<and> continuation c2
             then ((b - 0xE0) * 4096 + low6 c1 * 64 + low6 c2, 3)
             else (rune_error, 1)
         | _ \<Rightarrow> (rune_error, 1))
      else if 0xF0 \<le> b \<and> b \<le> 0xF4 then
        (case cs of
           c1 # c2 # c3 # _ \<Rightarrow>
             if second_ok b (byte c1) \<and> continuation c2 \<and> continuation c3
             then ((b - 0xF0) * 262144 + low6 c1 * 4096 + low6 c2 * 64
                     + low6 c3, 4)
             else (rune_error, 1)
         | _ \<Rightarrow> (rune_error, 1))
      else (rune_error, 1)))"

text \<open>\<open>utf8.AppendRune\<close>: a value that is not a Unicode scalar value is written as the error rune.\<close>

definition encode_rune :: "rune \<Rightarrow> string" where
  "encode_rune r0 = (let r = (if valid_rune r0 then r0 else rune_error) in
     if r < 0x80 then [chr r]
     else if r < 0x800 then [chr (0xC0 + r div 64), chr (0x80 + r mod 64)]
     else if r < 0x10000 then
       [chr (0xE0 + r div 4096), chr (0x80 + r div 64 mod 64), chr (0x80 + r mod 64)]
     else
       [chr (0xF0 + r div 262144), chr (0x80 + r div 4096 mod 64), chr (0x80 + r div 64 mod 64),
        chr (0x80 + r mod 64)])"

lemma decode_rune_width: "s \<noteq> [] \<Longrightarrow> 0 < snd (decode_rune s)"
  by (auto simp: decode_rune_def Let_def split: list.splits)

function decode_runes :: "string \<Rightarrow> rune list" where
  "decode_runes s =
     (if s = [] then [] else fst (decode_rune s) # decode_runes (drop (snd (decode_rune s)) s))"
  by pat_completeness auto
termination
  by (relation "measure length") (auto simp: diff_less [OF decode_rune_width])

declare decode_runes.simps [simp del]

lemma decode_runes_Nil [simp]: "decode_runes [] = []"
  by (simp add: decode_runes.simps)

definition encode_runes :: "rune list \<Rightarrow> string" where
  "encode_runes rs = concat (map encode_rune rs)"

text \<open>\<open>utf8.RuneCountInString\<close>.\<close>

definition rune_count :: "string \<Rightarrow> nat" where
  "rune_count s = length (decode_runes s)"

lemma valid_rune_error [simp]: "valid_rune rune_error"
  by (simp add: valid_rune_def rune_error_def)

lemma low6_continuation: "continuation c \<Longrightarrow> low6 c \<le> 63"
  by (auto simp: continuation_def low6_def)

lemma low6_second_ok: "second_ok b (byte c) \<Longrightarrow> low6 c \<le> 63"
  by (auto simp: second_ok_def low6_def split: if_splits)

lemma valid_3:
  assumes "b \<le> 0xEF" "second_ok b (byte s)" "continuation c"
  shows "valid_rune ((b - 0xE0) * 4096 + low6 s * 64 + low6 c)"
proof -
  have c: "low6 c \<le> 63" using assms(3) by (simp add: low6_continuation)
  have s: "low6 s \<le> 63" using assms(2) by (rule low6_second_ok)
  consider "b < 0xED" | "b = 0xED" | "0xED < b" by linarith
  then show ?thesis
  proof cases
    case 1
    then have "b - 0xE0 \<le> 12" by simp
    then show ?thesis using c s by (simp add: valid_rune_def)
  next
    case 2
    then have "low6 s \<le> 31" using assms(2) by (auto simp: second_ok_def low6_def)
    then show ?thesis using 2 c by (simp add: valid_rune_def)
  next
    case 3
    then have "14 \<le> b - 0xE0" "b - 0xE0 \<le> 15" using assms(1) by simp_all
    then show ?thesis using c s by (simp add: valid_rune_def)
  qed
qed

lemma valid_4:
  assumes "0xF0 \<le> b" "b \<le> 0xF4" "second_ok b (byte s)" "continuation c" "continuation d"
  shows "valid_rune ((b - 0xF0) * 262144 + low6 s * 4096 + low6 c * 64 + low6 d)"
proof -
  have cd: "low6 c \<le> 63" "low6 d \<le> 63" using assms(4,5) by (simp_all add: low6_continuation)
  have s: "low6 s \<le> 63" using assms(3) by (rule low6_second_ok)
  consider "b = 0xF0" | "0xF0 < b" "b < 0xF4" | "b = 0xF4" using assms by linarith
  then show ?thesis
  proof cases
    case 1
    then have "16 \<le> low6 s" using assms(3) by (auto simp: second_ok_def low6_def)
    then show ?thesis using 1 cd s by (simp add: valid_rune_def)
  next
    case 2
    then have "1 \<le> b - 0xF0" "b - 0xF0 \<le> 3" by simp_all
    then show ?thesis using cd s by (simp add: valid_rune_def)
  next
    case 3
    then have "low6 s \<le> 15" using assms(3) by (auto simp: second_ok_def low6_def)
    then show ?thesis using 3 cd by (simp add: valid_rune_def)
  qed
qed

lemma valid_decode_rune: "valid_rune (fst (decode_rune s))"
proof (cases s)
  case Nil
  then show ?thesis by (simp add: decode_rune_def)
next
  case (Cons c cs)
  have two: "valid_rune ((b - 0xC0) * 64 + low6 s)" if "b \<le> 0xDF" "continuation s" for b s
  proof -
    have "b - 0xC0 \<le> 31" "low6 s \<le> 63" using that by (simp_all add: low6_continuation)
    then show ?thesis by (simp add: valid_rune_def)
  qed
  have one: "b < 0x80 \<Longrightarrow> valid_rune b" for b by (simp add: valid_rune_def)
  show ?thesis
    by (simp add: Cons decode_rune_def Let_def one two valid_3 valid_4 split: list.splits)
qed

lemma valid_decode_runes: "r \<in> set (decode_runes s) \<Longrightarrow> valid_rune r"
proof (induction s rule: decode_runes.induct)
  case (1 s)
  show ?case
  proof (cases "s = []")
    case True
    with 1 show ?thesis by simp
  next
    case False
    with "1.prems" have "r = fst (decode_rune s) \<or> r \<in> set (decode_runes (drop (snd (decode_rune s)) s))"
      by (simp add: decode_runes.simps [of s])
    then show ?thesis using "1.IH" [OF False] by (auto simp: valid_decode_rune)
  qed
qed

lemma encode_rune_nonempty [simp]: "encode_rune r \<noteq> []"
  by (simp add: encode_rune_def Let_def)

lemma decode_rune_2:
  assumes "2 \<le> a" "a < 32" "b < 64"
  shows "decode_rune (chr (0xC0 + a) # chr (0x80 + b) # s) = (a * 64 + b, 2)"
proof -
  have "byte (chr (0xC0 + a)) = 0xC0 + a" "byte (chr (0x80 + b)) = 0x80 + b"
    using assms by (simp_all add: byte_chr del: of_char_of)
  then show ?thesis using assms
    by (simp add: decode_rune_def continuation_def low6_def Let_def del: of_char_of)
qed

lemma decode_rune_3:
  assumes "a < 16" "b < 64" "c < 64" "a = 0 \<Longrightarrow> 32 \<le> b" "a = 13 \<Longrightarrow> b < 32"
  shows "decode_rune (chr (0xE0 + a) # chr (0x80 + b) # chr (0x80 + c) # s) = (a * 4096 + b * 64 + c, 3)"
proof -
  have "byte (chr (0xE0 + a)) = 0xE0 + a" "byte (chr (0x80 + b)) = 0x80 + b" "byte (chr (0x80 + c)) = 0x80 + c"
    using assms by (simp_all add: byte_chr del: of_char_of)
  moreover have "second_ok (0xE0 + a) (0x80 + b)"
    using assms by (auto simp: second_ok_def)
  ultimately show ?thesis using assms
    by (simp add: decode_rune_def continuation_def low6_def Let_def del: of_char_of)
qed

lemma decode_rune_4:
  assumes "a < 5" "b < 64" "c < 64" "d < 64" "a = 0 \<Longrightarrow> 16 \<le> b" "a = 4 \<Longrightarrow> b < 16"
  shows "decode_rune (chr (0xF0 + a) # chr (0x80 + b) # chr (0x80 + c) # chr (0x80 + d) # s)
    = (a * 262144 + b * 4096 + c * 64 + d, 4)"
proof -
  have "byte (chr (0xF0 + a)) = 0xF0 + a" "byte (chr (0x80 + b)) = 0x80 + b"
    "byte (chr (0x80 + c)) = 0x80 + c" "byte (chr (0x80 + d)) = 0x80 + d"
    using assms by (simp_all add: byte_chr del: of_char_of)
  moreover have "second_ok (0xF0 + a) (0x80 + b)"
    using assms by (auto simp: second_ok_def)
  ultimately show ?thesis using assms
    by (simp add: decode_rune_def continuation_def low6_def Let_def del: of_char_of)
qed

lemma split_3: "(r::nat) div 4096 * 4096 + r div 64 mod 64 * 64 + r mod 64 = r"
proof -
  have "r div 4096 = r div 64 div 64" by (simp add: div_mult2_eq)
  then show ?thesis using div_mult_mod_eq [of "r div 64" 64] div_mult_mod_eq [of r 64] by linarith
qed

lemma split_4: "(r::nat) div 262144 * 262144 + r div 4096 mod 64 * 4096 + r div 64 mod 64 * 64 + r mod 64 = r"
proof -
  have "r div 262144 = r div 4096 div 64" by (simp flip: div_mult2_eq)
  then have "r div 262144 * 64 + r div 4096 mod 64 = r div 4096"
    using div_mult_mod_eq [of "r div 4096" 64] by simp
  then have "r div 262144 * 262144 + r div 4096 mod 64 * 4096 = r div 4096 * 4096" by simp
  then show ?thesis using split_3 [of r] by simp
qed

lemma middle_3_low: "(0x800::nat) \<le> r \<Longrightarrow> r div 4096 = 0 \<Longrightarrow> 32 \<le> r div 64 mod 64"
proof -
  assume a: "0x800 \<le> r" "r div 4096 = 0"
  then have "r < 4096" by (simp add: div_eq_0_iff)
  then have "r div 64 < 64" by auto
  then show ?thesis using a by simp
qed

lemma middle_3_high: "(r::nat) div 4096 = 13 \<Longrightarrow> r < 0xD800 \<or> 0xE000 \<le> r \<Longrightarrow> r div 64 mod 64 < 32"
  using split_3 [of r] by auto

lemma middle_4_low: "(0x10000::nat) \<le> r \<Longrightarrow> r div 262144 = 0 \<Longrightarrow> 16 \<le> r div 4096 mod 64"
  using split_4 [of r] mod_less_divisor [of 64 r] mod_less_divisor [of 64 "r div 64"] by linarith

lemma middle_4_high: "(r::nat) \<le> 0x10FFFF  \<Longrightarrow> r div 262144 = 4 \<Longrightarrow> r div 4096 mod 64 < 16"
  using split_4 [of r] by linarith

lemma decode_encode_rune:
  assumes "valid_rune r"
  shows "decode_rune (encode_rune r @ s) = (r, length (encode_rune r))"
proof -
  consider "r < 0x80" | "0x80 \<le> r" "r < 0x800" | "0x800 \<le> r" "r < 0x10000"
    | "0x10000 \<le> r" "r \<le> 0x10FFFF"
    using assms by (fastforce simp: valid_rune_def)
  then show ?thesis
  proof cases
    case 1
    then show ?thesis using assms by (simp add: encode_rune_def decode_rune_def)
  next
    case 2
    then have enc: "encode_rune r = [chr (0xC0 + r div 64), chr (0x80 + r mod 64)]"
      using assms by (simp add: encode_rune_def)
    have "2 \<le> r div 64" "r div 64 < 32" using 2 by auto
    then show ?thesis using decode_rune_2 [of "r div 64" "r mod 64" s] by (simp add: enc)
  next
    case 3
    then have enc: "encode_rune r
        = [chr (0xE0 + r div 4096), chr (0x80 + r div 64 mod 64), chr (0x80 + r mod 64)]"
      using assms by (simp add: encode_rune_def)
    have "r div 4096 < 16" using 3 by auto
    moreover have "r div 4096 = 0 \<Longrightarrow> 32 \<le> r div 64 mod 64" by (rule middle_3_low [OF 3(1)])
    moreover have "r div 4096 = 13 \<Longrightarrow> r div 64 mod 64 < 32"
      using middle_3_high [of r] 3 assms by (auto simp: valid_rune_def)
    ultimately show ?thesis
      using decode_rune_3 [of "r div 4096" "r div 64 mod 64" "r mod 64" s] by (simp add: enc split_3)
  next
    case 4
    then have enc: "encode_rune r = [chr (0xF0 + r div 262144), chr (0x80 + r div 4096 mod 64),
        chr (0x80 + r div 64 mod 64), chr (0x80 + r mod 64)]"
      using assms by (simp add: encode_rune_def)
    have "r div 262144 < 5" using 4 by auto
    moreover have "r div 262144 = 0 \<Longrightarrow> 16 \<le> r div 4096 mod 64" by (rule middle_4_low [OF 4(1)])
    moreover have "r div 262144 = 4 \<Longrightarrow> r div 4096 mod 64 < 16" by (rule middle_4_high [OF 4(2)])
    ultimately show ?thesis
      using decode_rune_4 [of "r div 262144" "r div 4096 mod 64" "r div 64 mod 64" "r mod 64" s]
      by (simp add: enc split_4)
  qed
qed

lemma decode_runes_encode_rune:
  "valid_rune r \<Longrightarrow> decode_runes (encode_rune r @ s) = r # decode_runes s"
  by (subst decode_runes.simps) (simp add: decode_encode_rune)

lemma decode_encode_runes:
  "(\<And>r. r \<in> set rs \<Longrightarrow> valid_rune r) \<Longrightarrow> decode_runes (encode_runes rs) = rs"
  by (induction rs) (simp_all add: encode_runes_def decode_runes_encode_rune)

text \<open>A byte below \<open>80\<close> hexadecimal is a rune of its own, and no other rune starts with it.\<close>

lemma decode_rune_ascii: "byte c < 0x80 \<Longrightarrow> decode_rune (c # s) = (byte c, 1)"
  by (simp add: decode_rune_def)

lemma decode_runes_ascii: "byte c < 0x80 \<Longrightarrow> decode_runes (c # s) = byte c # decode_runes s"
  by (subst decode_runes.simps) (simp add: decode_rune_ascii)

lemma encode_rune_ascii: "r < 0x80 \<Longrightarrow> encode_rune r = [chr r]"
  by (simp add: encode_rune_def valid_rune_def)

lemma continuation_chr: "continuation c \<Longrightarrow> chr (0x80 + low6 c) = c \<and> low6 c < 64"
  by (auto simp: continuation_def low6_def)

lemma second_ok_chr: "second_ok b (byte c) \<Longrightarrow> chr (0x80 + low6 c) = c \<and> low6 c < 64"
  by (auto simp: second_ok_def low6_def split: if_splits)

lemma digits_64: "d < 64 \<Longrightarrow> ((x::nat) * 64 + d) div 64 = x" "d < 64 \<Longrightarrow> ((x::nat) * 64 + d) mod 64 = d"
  by auto

lemma encode_rune_2:
  assumes "2 \<le> a" "a < 32" "b < 64"
  shows "encode_rune (a * 64 + b) = [chr (0xC0 + a), chr (0x80 + b)]"
proof -
  have "(a * 64 + b) div 64 = a" "(a * 64 + b) mod 64 = b" using assms(3) by auto
  moreover have "0x80 \<le> a * 64 + b" "a * 64 + b < 0x800" using assms by auto
  ultimately show ?thesis by (simp add: encode_rune_def valid_rune_def)
qed

lemma encode_rune_3:
  assumes "a < 16" "b < 64" "c < 64" "a = 0 \<Longrightarrow> 32 \<le> b" "valid_rune (a * 4096 + b * 64 + c)"
  shows "encode_rune (a * 4096 + b * 64 + c) = [chr (0xE0 + a), chr (0x80 + b), chr (0x80 + c)]"
proof -
  let ?r = "a * 4096 + b * 64 + c"
  have r: "?r = (a * 64 + b) * 64 + c" by simp
  have "?r div 64 = a * 64 + b" "?r mod 64 = c"
    unfolding r by (rule digits_64 [OF assms(3)])+
  moreover have "?r div 4096 = ?r div 64 div 64" by (simp flip: div_mult2_eq)
  moreover have "(a * 64 + b) div 64 = a" "(a * 64 + b) mod 64 = b" using assms(2) by auto
  ultimately have "?r div 4096 = a" "?r div 64 mod 64 = b" "?r mod 64 = c" by simp_all
  moreover have "0x800 \<le> ?r" using assms(4) by (cases "a = 0") auto
  moreover have "?r < 0x10000" using assms(1,2,3) by auto
  ultimately show ?thesis using assms(5) by (simp add: encode_rune_def)
qed

lemma encode_rune_4:
  assumes "a < 5" "b < 64" "c < 64" "d < 64" "a = 0 \<Longrightarrow> 16 \<le> b"
    "valid_rune (a * 262144 + b * 4096 + c * 64 + d)"
  shows "encode_rune (a * 262144 + b * 4096 + c * 64 + d)
    = [chr (0xF0 + a), chr (0x80 + b), chr (0x80 + c), chr (0x80 + d)]"
proof -
  let ?r = "a * 262144 + b * 4096 + c * 64 + d"
  have r: "?r = ((a * 64 + b) * 64 + c) * 64 + d" by simp
  have d: "?r div 64 = (a * 64 + b) * 64 + c" "?r mod 64 = d"
    unfolding r by (rule digits_64 [OF assms(4)])+
  have c: "((a * 64 + b) * 64 + c) div 64 = a * 64 + b" "((a * 64 + b) * 64 + c) mod 64 = c"
    by (rule digits_64 [OF assms(3)])+
  have b: "(a * 64 + b) div 64 = a" "(a * 64 + b) mod 64 = b" using assms(2) by auto
  have "?r div 4096 = ?r div 64 div 64" "?r div 262144 = ?r div 64 div 64 div 64"
    by (simp_all flip: div_mult2_eq)
  then have "?r div 262144 = a" "?r div 4096 mod 64 = b" "?r div 64 mod 64 = c" "?r mod 64 = d"
    using b c d by simp_all
  moreover have "0x10000 \<le> ?r" using assms(5) by (cases "a = 0") auto
  ultimately show ?thesis using assms(6) by (simp add: encode_rune_def)
qed

text \<open>A rune that decodes without error has been written in its one canonical form.\<close>

lemma encode_decode_rune:
  assumes "s \<noteq> []" "decode_rune s \<noteq> (rune_error, 1)"
  shows "encode_rune (fst (decode_rune s)) = take (snd (decode_rune s)) s"
proof -
  obtain c cs where s: "s = c # cs" using assms(1) by (cases s) auto
  let ?b = "byte c"
  consider "?b < 0x80"
    | c1 t where "0xC2 \<le> ?b" "?b \<le> 0xDF" "cs = c1 # t" "continuation c1"
    | c1 c2 t where "0xE0 \<le> ?b" "?b \<le> 0xEF" "cs = c1 # c2 # t" "second_ok ?b (byte c1)" "continuation c2"
    | c1 c2 c3 t where "0xF0 \<le> ?b" "?b \<le> 0xF4" "cs = c1 # c2 # c3 # t" "second_ok ?b (byte c1)"
        "continuation c2" "continuation c3"
    using assms(2) unfolding s by (auto simp: decode_rune_def Let_def split: list.splits if_splits)
  then show ?thesis
  proof cases
    case 1
    then show ?thesis by (simp add: s decode_rune_ascii encode_rune_ascii)
  next
    case (2 c1 t)
    have d: "decode_rune s = ((?b - 0xC0) * 64 + low6 c1, 2)" using 2 by (simp add: s decode_rune_def Let_def)
    have "2 \<le> ?b - 0xC0" "?b - 0xC0 < 32" "chr (0xC0 + (?b - 0xC0)) = c" using 2 by auto
    then show ?thesis using 2 continuation_chr [of c1] by (simp add: d encode_rune_2) (simp add: s)
  next
    case (3 c1 c2 t)
    have d: "decode_rune s = ((?b - 0xE0) * 4096 + low6 c1 * 64 + low6 c2, 3)"
      using 3 by (simp add: s decode_rune_def Let_def)
    have v: "valid_rune ((?b - 0xE0) * 4096 + low6 c1 * 64 + low6 c2)"
      using valid_decode_rune [of s] by (simp add: d)
    have z: "?b - 0xE0 = 0 \<Longrightarrow> 32 \<le> low6 c1" using 3 by (auto simp: second_ok_def low6_def)
    have "?b - 0xE0 < 16" "chr (0xE0 + (?b - 0xE0)) = c" using 3 by auto
    then show ?thesis using 3 v z continuation_chr [of c2] second_ok_chr [of ?b c1]
      by (simp add: d encode_rune_3) (simp add: s)
  next
    case (4 c1 c2 c3 t)
    have d: "decode_rune s = ((?b - 0xF0) * 262144 + low6 c1 * 4096 + low6 c2 * 64 + low6 c3, 4)"
      using 4 by (simp add: s decode_rune_def Let_def)
    have v: "valid_rune ((?b - 0xF0) * 262144 + low6 c1 * 4096 + low6 c2 * 64 + low6 c3)"
      using valid_decode_rune [of s] by (simp add: d)
    have z: "?b - 0xF0 = 0 \<Longrightarrow> 16 \<le> low6 c1" using 4 by (auto simp: second_ok_def low6_def)
    have "?b - 0xF0 < 5" "chr (0xF0 + (?b - 0xF0)) = c" using 4 by auto
    then show ?thesis using 4 v z continuation_chr [of c2] continuation_chr [of c3] second_ok_chr [of ?b c1]
      by (simp add: d encode_rune_4) (simp add: s)
  qed
qed

lemma encode_runes_Nil [simp]: "encode_runes [] = []"
  by (simp add: encode_runes_def)

lemma encode_runes_Cons [simp]: "encode_runes (r # rs) = encode_rune r @ encode_runes rs"
  by (simp add: encode_runes_def)

lemma rune_count_encode_runes:
  "(\<And>r. r \<in> set rs \<Longrightarrow> valid_rune r) \<Longrightarrow> rune_count (encode_runes rs) = length rs"
  by (simp add: rune_count_def decode_encode_runes)

section \<open>Searching\<close>

definition has_prefix :: "string \<Rightarrow> string \<Rightarrow> bool" where
  "has_prefix s p \<longleftrightarrow> take (length p) s = p"

definition has_suffix :: "string \<Rightarrow> string \<Rightarrow> bool" where
  "has_suffix s p \<longleftrightarrow> has_prefix (rev s) (rev p)"

text \<open>\<open>strings.Index\<close>, with \<open>None\<close> for -1.\<close>

fun index_of :: "string \<Rightarrow> string \<Rightarrow> nat option" where
  "index_of [] p = (if p = [] then Some 0 else None)"
| "index_of (c # s) p =
     (if has_prefix (c # s) p then Some 0 else map_option Suc (index_of s p))"

definition contains :: "string \<Rightarrow> string \<Rightarrow> bool" where
  "contains s p \<longleftrightarrow> index_of s p \<noteq> None"

lemma has_prefix_append: "has_prefix s p \<longleftrightarrow> (\<exists>t. s = p @ t)"
proof
  assume "has_prefix s p"
  then show "\<exists>t. s = p @ t" unfolding has_prefix_def by (metis append_take_drop_id)
qed (auto simp: has_prefix_def)

lemma contains_append: "contains s p \<longleftrightarrow> (\<exists>a b. s = a @ p @ b)"
proof (induction s)
  case Nil
  then show ?case by (auto simp: contains_def)
next
  case (Cons c s)
  have "(\<exists>a b. c # s = a @ p @ b) \<longleftrightarrow> (\<exists>b. c # s = p @ b) \<or> (\<exists>a b. s = a @ p @ b)"
    by (metis append_Cons append_Nil list.inject neq_Nil_conv)
  then show ?case using Cons by (auto simp: contains_def has_prefix_append)
qed

section \<open>TrimSpace\<close>

text \<open>
  The UTF-8 encodings of the runes for which \<open>unicode.IsSpace\<close> holds.  Trimming removes them
  from the front and from the back of the string.
\<close>

definition space_runes :: "rune list" where
  "space_runes = [0x20, 0x09, 0x0A, 0x0B, 0x0C, 0x0D, 0x85, 0xA0, 0x1680, 0x2000, 0x2001, 0x2002,
     0x2003, 0x2004, 0x2005, 0x2006, 0x2007, 0x2008, 0x2009, 0x200A, 0x2028, 0x2029, 0x202F,
     0x205F, 0x3000]"

definition spaces :: "string list" where
  "spaces = map encode_rune space_runes"

function strip :: "string list \<Rightarrow> string \<Rightarrow> string" where
  "strip ps s =
     (case find (\<lambda>p. p \<noteq> [] \<and> s \<noteq> [] \<and> has_prefix s p) ps of
        None \<Rightarrow> s
      | Some p \<Rightarrow> strip ps (drop (length p) s))"
  by pat_completeness auto
termination
  by (relation "measure (\<lambda>(ps, s). length s)") (auto simp: find_Some_iff)

declare strip.simps [simp del]

definition trim_left :: "string \<Rightarrow> string" where
  "trim_left s = strip spaces s"

definition trim_right :: "string \<Rightarrow> string" where
  "trim_right s = rev (strip (map rev spaces) (rev s))"

definition trim_space :: "string \<Rightarrow> string" where
  "trim_space s = trim_right (trim_left s)"

definition blank :: "string \<Rightarrow> bool" where
  "blank s \<longleftrightarrow> trim_space s = []"

lemma strip_None:
  "find (\<lambda>p. p \<noteq> [] \<and> s \<noteq> [] \<and> has_prefix s p) ps = None \<Longrightarrow> strip ps s = s"
  by (simp add: strip.simps [of ps s])

lemma strip_Some:
  "find (\<lambda>p. p \<noteq> [] \<and> s \<noteq> [] \<and> has_prefix s p) ps = Some p \<Longrightarrow>
   strip ps s = strip ps (drop (length p) s)"
  by (simp add: strip.simps [of ps s])

text \<open>What \<open>strip\<close> removes is a concatenation of the given strings.\<close>

lemma strip_concat: "\<exists>qs. set qs \<subseteq> set ps - {[]} \<and> s = concat qs @ strip ps s"
proof (induction ps s rule: strip.induct)
  case (1 ps s)
  show ?case
  proof (cases "find (\<lambda>p. p \<noteq> [] \<and> s \<noteq> [] \<and> has_prefix s p) ps")
    case None
    then show ?thesis by (intro exI [of _ "[]"]) (simp add: strip_None)
  next
    case (Some p)
    with "1.IH" obtain qs where qs: "set qs \<subseteq> set ps - {[]}"
      "drop (length p) s = concat qs @ strip ps (drop (length p) s)" by blast
    have p: "p \<in> set ps" "p \<noteq> []" "has_prefix s p" using Some by (auto simp: find_Some_iff)
    then have "s = p @ drop (length p) s" by (auto simp: has_prefix_append)
    with qs(2) have "s = concat (p # qs) @ strip ps s" by (simp add: strip_Some [OF Some])
    moreover have "set (p # qs) \<subseteq> set ps - {[]}" using p qs(1) by simp
    ultimately show ?thesis by blast
  qed
qed

lemma strip_suffix: "\<exists>t. s = t @ strip ps s"
  using strip_concat by blast

definition stripped :: "string list \<Rightarrow> string \<Rightarrow> bool" where
  "stripped ps s \<longleftrightarrow> (\<forall>p \<in> set ps. p \<noteq> [] \<and> s \<noteq> [] \<longrightarrow> \<not> has_prefix s p)"

lemma stripped_strip: "stripped ps (strip ps s)"
proof (induction ps s rule: strip.induct)
  case (1 ps s)
  show ?case
  proof (cases "find (\<lambda>p. p \<noteq> [] \<and> s \<noteq> [] \<and> has_prefix s p) ps")
    case None
    then have "stripped ps s" by (auto simp: find_None_iff stripped_def)
    then show ?thesis by (simp add: strip_None [OF None])
  next
    case (Some p)
    then show ?thesis using "1.IH" by (simp add: strip_Some)
  qed
qed

lemma strip_stripped: "stripped ps s \<Longrightarrow> strip ps s = s"
proof -
  assume "stripped ps s"
  then have "find (\<lambda>p. p \<noteq> [] \<and> s \<noteq> [] \<and> has_prefix s p) ps = None"
    by (auto simp: find_None_iff stripped_def)
  then show ?thesis by (simp add: strip.simps [of ps s])
qed

lemma stripped_prefix: "stripped ps (s @ t) \<Longrightarrow> stripped ps s"
  by (auto simp: stripped_def has_prefix_append)

theorem trim_space_idem [simp]: "trim_space (trim_space s) = trim_space s"
proof -
  let ?l = "trim_left s"
  obtain t where "rev ?l = t @ strip (map rev spaces) (rev ?l)" using strip_suffix by blast
  then have "?l = trim_right ?l @ rev t" by (metis rev_append rev_rev_ident trim_right_def)
  moreover have "stripped spaces ?l" by (simp add: trim_left_def stripped_strip)
  ultimately have "stripped spaces (trim_right ?l)" by (metis stripped_prefix)
  then have "trim_left (trim_right ?l) = trim_right ?l" by (simp add: trim_left_def strip_stripped)
  moreover have "trim_right (trim_right ?l) = trim_right ?l"
    by (simp add: trim_right_def strip_stripped [OF stripped_strip])
  ultimately show ?thesis by (simp add: trim_space_def)
qed

lemma blank_trim [simp]: "blank (trim_space s) = blank s"
  by (simp add: blank_def)

lemma blank_Nil [simp]: "blank []"
  by (simp add: blank_def trim_space_def trim_left_def trim_right_def strip_stripped stripped_def)

text \<open>A string that starts with a printable ASCII character is not blank.\<close>

lemma spaces_hd: "p \<in> set spaces \<Longrightarrow> byte (hd p) \<in> {0x20, 0x09, 0x0A, 0x0B, 0x0C, 0x0D, 0xC2, 0xE1, 0xE2, 0xE3}"
  by (auto simp: spaces_def space_runes_def encode_rune_def valid_rune_def)

lemma hd_concat: "concat qs = c # s \<Longrightarrow> \<exists>q \<in> set qs. q \<noteq> [] \<and> hd q = c"
  by (induction qs) (auto simp: append_eq_Cons_conv)

lemma printable_stripped:
  assumes "0x21 \<le> byte c" "byte c < 0x80"
  shows "stripped spaces (c # s)" "stripped (map rev spaces) (c # s)"
proof -
  have heads: "hd p \<noteq> c" if "p \<in> set spaces" for p using spaces_hd [OF that] assms by auto
  have lasts: "last p \<noteq> c" if "p \<in> set spaces" for p
  proof -
    have "byte (last p) \<in> {0x20, 0x09, 0x0A, 0x0B, 0x0C, 0x0D} \<or> 0x80 \<le> byte (last p)"
      using that by (auto simp: spaces_def space_runes_def encode_rune_def valid_rune_def)
    then show ?thesis using assms by auto
  qed
  show "stripped spaces (c # s)"
    by (auto simp: stripped_def has_prefix_append Cons_eq_append_conv dest!: heads)
  show "stripped (map rev spaces) (c # s)"
    using lasts by (auto simp: stripped_def has_prefix_append Cons_eq_append_conv)
       (metis last_snoc rev_eq_Cons_iff rev.simps(2) rev_rev_ident)
qed

text \<open>A text that starts and ends with a printable ASCII character other than the space stays as it is.\<close>

lemma trim_space_plain:
  assumes "0x21 \<le> byte c" "byte c < 0x80" "0x21 \<le> byte d" "byte d < 0x80" "c # s = t @ [d]"
  shows "trim_space (c # s) = c # s"
proof -
  have l: "trim_left (c # s) = c # s"
    using printable_stripped(1) [OF assms(1,2)] by (simp add: trim_left_def strip_stripped)
  have "rev (c # s) = d # rev t" unfolding assms(5) by simp
  then have "strip (map rev spaces) (rev (c # s)) = rev (c # s)"
    using printable_stripped(2) [OF assms(3,4)] by (simp add: strip_stripped)
  then have "trim_right (c # s) = c # s" by (simp add: trim_right_def)
  with l show ?thesis by (simp add: trim_space_def)
qed

lemma not_blank_Cons:
  assumes "0x21 \<le> byte c" "byte c < 0x80"
  shows "\<not> blank (c # s)"
proof
  assume "blank (c # s)"
  have no: "hd p \<noteq> c" if "p \<in> set spaces" for p using spaces_hd [OF that] assms by auto
  have "stripped spaces (c # s)" using no
    by (auto simp: stripped_def has_prefix_append Cons_eq_append_conv dest!: no)
  then have "trim_left (c # s) = c # s" by (simp add: trim_left_def strip_stripped)
  then have "strip (map rev spaces) (rev (c # s)) = []"
    using \<open>blank (c # s)\<close> by (simp add: blank_def trim_space_def trim_right_def)
  then obtain qs where qs: "set qs \<subseteq> set (map rev spaces) - {[]}" "rev (c # s) = concat qs"
    using strip_concat [of "map rev spaces" "rev (c # s)"] by auto
  have "c # s = rev (concat qs)" using arg_cong [OF qs(2), of rev] by simp
  then have "concat (map rev (rev qs)) = c # s" by (simp only: rev_concat)
  then obtain q where q: "q \<in> set (map rev (rev qs))" "hd q = c" using hd_concat [of "map rev (rev qs)" c s] by auto
  then have "rev q \<in> set qs" by (auto simp: image_iff)
  with qs(1) have "q \<in> set spaces" by auto
  with q(2) no show False by blast
qed

section \<open>Changing case\<close>

text \<open>
  \<open>strings.ToLower\<close> and \<open>strings.ToUpper\<close>, on the runes whose lower or upper case is
  an ASCII letter; other runes stay as they are.  Every use in the sources compares the result with
  ASCII text or searches ASCII text in it, which sees no difference.
\<close>

definition lower_rune :: "rune \<Rightarrow> rune" where
  "lower_rune r = (if 65 \<le> r \<and> r \<le> 90 then r + 32
     else if r = 0x212A then 107 else if r = 0x130 then 105 else r)"

definition upper_rune :: "rune \<Rightarrow> rune" where
  "upper_rune r = (if 97 \<le> r \<and> r \<le> 122 then r - 32
     else if r = 0x17F then 83 else if r = 0x131 then 73 else r)"

definition to_lower :: "string \<Rightarrow> string" where
  "to_lower s = encode_runes (map lower_rune (decode_runes s))"

definition to_upper :: "string \<Rightarrow> string" where
  "to_upper s = encode_runes (map upper_rune (decode_runes s))"

section \<open>Printing\<close>

definition digit :: "nat \<Rightarrow> char" where
  "digit n = chr (48 + n)"

function itoa_nat :: "nat \<Rightarrow> string" where
  "itoa_nat n = (if n < 10 then [digit n] else itoa_nat (n div 10) @ [digit (n mod 10)])"
  by pat_completeness auto
termination
  by (relation "measure id") auto

declare itoa_nat.simps [simp del]

text \<open>The verb \<open>%d\<close>.\<close>

definition itoa :: "int \<Rightarrow> string" where
  "itoa i = (if i < 0 then CHR ''-'' # itoa_nat (nat (- i)) else itoa_nat (nat i))"

definition hex_digit :: "nat \<Rightarrow> char" where
  "hex_digit n = (if n < 10 then chr (48 + n) else chr (87 + n))"

fun hex :: "nat \<Rightarrow> nat \<Rightarrow> string" where
  "hex 0 n = []"
| "hex (Suc w) n = hex w (n div 16) @ [hex_digit (n mod 16)]"

text \<open>
  The verb \<open>%q\<close> (\<open>strconv.Quote\<close>).  Which runes above ASCII are printable is a
  table of the Unicode version; here every one from \<open>A1\<close> on is, but the soft hyphen.
\<close>

definition is_print :: "rune \<Rightarrow> bool" where
  "is_print r \<longleftrightarrow> (0x20 \<le> r \<and> r \<le> 0x7E) \<or> (0xA1 \<le> r \<and> r \<noteq> 0xAD)"

definition quote_rune :: "rune \<Rightarrow> string" where
  "quote_rune r =
     (if r = 0x22 \<or> r = 0x5C then [CHR 0x5C, chr r]
      else if is_print r then encode_rune r
      else if r = 0x07 then [CHR 0x5C, CHR ''a'']
      else if r = 0x08 then [CHR 0x5C, CHR ''b'']
      else if r = 0x0C then [CHR 0x5C, CHR ''f'']
      else if r = 0x0A then [CHR 0x5C, CHR ''n'']
      else if r = 0x0D then [CHR 0x5C, CHR ''r'']
      else if r = 0x09 then [CHR 0x5C, CHR ''t'']
      else if r = 0x0B then [CHR 0x5C, CHR ''v'']
      else if r < 0x20 \<or> r = 0x7F then [CHR 0x5C, CHR ''x''] @ hex 2 r
      else if r < 0x10000 then [CHR 0x5C, CHR ''u''] @ hex 4 r
      else [CHR 0x5C, CHR ''U''] @ hex 8 r)"

function quote_body :: "string \<Rightarrow> string" where
  "quote_body s =
     (if s = [] then []
      else if decode_rune s = (rune_error, 1)
        then [CHR 0x5C, CHR ''x''] @ hex 2 (byte (hd s)) @ quote_body (drop 1 s)
      else quote_rune (fst (decode_rune s)) @ quote_body (drop (snd (decode_rune s)) s))"
  by pat_completeness auto
termination
  by (relation "measure length") (auto simp: diff_less [OF decode_rune_width])

declare quote_body.simps [simp del]

definition quote :: "string \<Rightarrow> string" where
  "quote s = [CHR 0x22] @ quote_body s @ [CHR 0x22]"

lemma itoa_nat_nonempty [simp]: "itoa_nat n \<noteq> []"
  by (subst itoa_nat.simps) simp

subsection \<open>RFC 3339 timestamps\<close>

text \<open>Days since 1 January of year 1 to year, month and day of the proleptic Gregorian calendar.\<close>

definition civil_date :: "int \<Rightarrow> int \<times> int \<times> int" where
  "civil_date days =
     (let z = days + 306;
          era = z div 146097;
          doe = z mod 146097;
          yoe = (doe - doe div 1460 + doe div 36524 - doe div 146096) div 365;
          doy = doe - (365 * yoe + yoe div 4 - yoe div 100);
          mp = (5 * doy + 2) div 153;
          d = doy - (153 * mp + 2) div 5 + 1;
          m = (if mp < 10 then mp + 3 else mp - 9);
          y = yoe + era * 400 + (if m \<le> 2 then 1 else 0)
      in (y, m, d))"

definition pad :: "nat \<Rightarrow> int \<Rightarrow> string" where
  "pad width i = (let s = itoa_nat (nat \<bar>i\<bar>)
     in (if i < 0 then ''-'' else []) @ replicate (width - length s) (CHR ''0'') @ s)"

text \<open>\<open>Time.Format(time.RFC3339)\<close>.\<close>

definition format_rfc3339 :: "gotime \<Rightarrow> string" where
  "format_rfc3339 t =
     (let secs = t_ns t div 1000000000 + t_zone t;
          (y, m, d) = civil_date (secs div 86400);
          s = secs mod 86400;
          zone = t_zone t
      in pad 4 y @ ''-'' @ pad 2 m @ ''-'' @ pad 2 d @ ''T'' @
         pad 2 (s div 3600) @ '':'' @ pad 2 (s div 60 mod 60) @ '':'' @ pad 2 (s mod 60) @
         (if zone = 0 then ''Z''
          else (if zone < 0 then ''-'' else ''+'') @
            pad 2 (\<bar>zone\<bar> div 60 div 60) @ '':'' @ pad 2 (\<bar>zone\<bar> div 60 mod 60)))"

end
