(* ===== verification/Go_Json.thy ===== *)
theory Go_Json
  imports Go_Strings "HOL-Library.Char_ord" "HOL-Library.List_Lexorder"
begin

text \<open>
  What the sources use of \<open>encoding/json\<close>: the dynamic values that cross the boundaries
  (\<open>any\<close>), the decoder in its \<open>UseNumber\<close> mode, validity of a document, and the
  encoder.  The decoder is a lexer and a stack machine over its tokens, as the package's scanner is
  a state machine with a stack of the open arrays and objects.
\<close>

section \<open>Dynamic values\<close>

text \<open>
  A Go \<open>any\<close> as the sources make it: nil, a boolean, a \<open>json.Number\<close> (or another number,
  by the literal it is encoded as), a string, a \<open>[]any\<close>, a \<open>map[string]any\<close>.  The entries
  of a map are listed in the order in which a \<open>range\<close> visits them, which Go leaves open.
\<close>

datatype any =
    ANull
  | ABool bool
  | ANumber string
  | AString string
  | AList "any list"
  | AObject "(string \<times> any) list"

text \<open>\<open>m[k] = v\<close> on an entry list.\<close>

fun put :: "'k \<Rightarrow> 'v \<Rightarrow> ('k \<times> 'v) list \<Rightarrow> ('k \<times> 'v) list" where
  "put k v [] = [(k, v)]"
| "put k v ((k', v') # m) = (if k = k' then (k, v) # m else (k', v') # put k v m)"

lemma map_of_put [simp]: "map_of (put k v m) = (map_of m)(k \<mapsto> v)"
  by (induction k v m rule: put.induct) auto

lemma keys_put: "fst ` set (put k v m) = insert k (fst ` set m)"
  by (induction k v m rule: put.induct) auto

lemma distinct_put: "distinct (map fst m) \<Longrightarrow> distinct (map fst (put k v m))"
proof (induction k v m rule: put.induct)
  case (2 k v k' v' m)
  then show ?case using keys_put [of k v m] by (auto simp flip: set_map)
qed simp

text \<open>\<open>reflect.DeepEqual\<close> on dynamic values: maps are compared as maps.\<close>

lemma size_entry: "(k, x) \<in> set xs \<Longrightarrow> size x < Suc (size_list (size_prod (\<lambda>x. 0) size) xs)"
  by (induction xs) auto

lemma size_element: "x \<in> set xs \<Longrightarrow> size x < Suc (size_list size xs)"
  by (induction xs) auto

function (sequential) deep_equal :: "any \<Rightarrow> any \<Rightarrow> bool" where
  "deep_equal ANull ANull = True"
| "deep_equal (ABool a) (ABool b) = (a = b)"
| "deep_equal (ANumber a) (ANumber b) = (a = b)"
| "deep_equal (AString a) (AString b) = (a = b)"
| "deep_equal (AList xs) (AList ys) =
     (length xs = length ys \<and> (\<forall>(x, y) \<in> set (zip xs ys). deep_equal x y))"
| "deep_equal (AObject xs) (AObject ys) =
     (length xs = length ys \<and>
      (\<forall>(k, x) \<in> set xs. case map_of ys k of None \<Rightarrow> False | Some y \<Rightarrow> deep_equal x y))"
| "deep_equal _ _ = False"
  by pat_completeness auto
termination
  by (relation "measure (\<lambda>(x, y). size x)")
     (auto dest!: set_zip_leftD simp: size_element size_entry)

section \<open>Lexer\<close>

datatype token =
    TLBrace | TRBrace | TLBracket | TRBracket | TColon | TComma
  | TNull | TTrue | TFalse | TNumber string | TString string

definition is_digit :: "char \<Rightarrow> bool" where
  "is_digit c \<longleftrightarrow> 48 \<le> byte c \<and> byte c \<le> 57"

definition unhex :: "char \<Rightarrow> nat option" where
  "unhex c = (let b = byte c in
     if 48 \<le> b \<and> b \<le> 57 then Some (b - 48)
     else if 97 \<le> b \<and> b \<le> 102 then Some (b - 87)
     else if 65 \<le> b \<and> b \<le> 70 then Some (b - 55)
     else None)"

fun unhex4 :: "string \<Rightarrow> nat option" where
  "unhex4 (a # b # c # d # s) =
     (case (unhex a, unhex b, unhex c, unhex d) of
        (Some w, Some x, Some y, Some z) \<Rightarrow> Some (w * 4096 + x * 256 + y * 16 + z)
      | _ \<Rightarrow> None)"
| "unhex4 _ = None"

text \<open>\<open>getu4\<close>: the code unit of an escape \<open>\uXXXX\<close> at the start of the string.\<close>

fun getu4 :: "string \<Rightarrow> nat option" where
  "getu4 (a # b # s) = (if a = CHR 0x5C \<and> b = CHR ''u'' then unhex4 s else None)"
| "getu4 _ = None"

definition high_surrogate :: "nat \<Rightarrow> bool" where
  "high_surrogate u \<longleftrightarrow> 0xD800 \<le> u \<and> u < 0xDC00"

definition low_surrogate :: "nat \<Rightarrow> bool" where
  "low_surrogate u \<longleftrightarrow> 0xDC00 \<le> u \<and> u < 0xE000"

fun simple_escape :: "char \<Rightarrow> char option" where
  "simple_escape e =
     (if e = CHR 0x22 \<or> e = CHR 0x5C \<or> e = CHR ''/'' then Some e
      else if e = CHR ''b'' then Some (CHR 0x08)
      else if e = CHR ''f'' then Some (CHR 0x0C)
      else if e = CHR ''n'' then Some (CHR 0x0A)
      else if e = CHR ''r'' then Some (CHR 0x0D)
      else if e = CHR ''t'' then Some (CHR 0x09)
      else None)"

text \<open>One piece of a string literal: the bytes it stands for and its width, or an error.\<close>

definition string_piece :: "string \<Rightarrow> (string \<times> nat) option" where
  "string_piece s = (case s of [] \<Rightarrow> None | c # cs \<Rightarrow>
     (if c = CHR 0x5C then
        (case cs of [] \<Rightarrow> None | e # t \<Rightarrow>
           (case simple_escape e of
              Some x \<Rightarrow> Some ([x], 2)
            | None \<Rightarrow>
                (case getu4 s of
                   None \<Rightarrow> None
                 | Some u \<Rightarrow>
                     if high_surrogate u then
                       (case getu4 (drop 6 s) of
                          Some l \<Rightarrow>
                            if low_surrogate l
                            then Some (encode_rune (0x10000 + (u - 0xD800) * 1024 + (l - 0xDC00)), 12)
                            else Some (encode_rune rune_error, 6)
                        | None \<Rightarrow> Some (encode_rune rune_error, 6))
                     else Some (encode_rune u, 6))))
      else if byte c < 0x20 then None
      else (let (r, n) = decode_rune s in Some (encode_rune r, n))))"

lemma string_piece_width: "string_piece s = Some (p, n) \<Longrightarrow> 0 < n"
  using decode_rune_width [of s]
  by (auto simp: string_piece_def split: list.splits option.splits if_splits prod.splits)

lemma string_piece_Nil [simp]: "string_piece [] = None"
  by (simp add: string_piece_def)

text \<open>The rest of a string literal, after its opening quote: the decoded string and what follows.\<close>

function lex_string :: "string \<Rightarrow> (string \<times> string) option" where
  "lex_string s =
     (if s \<noteq> [] \<and> hd s = CHR 0x22 then Some ([], tl s)
      else case string_piece s of
        None \<Rightarrow> None
      | Some (p, n) \<Rightarrow>
          (case lex_string (drop n s) of
             None \<Rightarrow> None
           | Some (str, rest) \<Rightarrow> Some (p @ str, rest)))"
  by pat_completeness auto
termination
proof (relation "measure length")
  fix s p and x :: "string \<times> nat" and n
  assume "string_piece s = Some x" "(p, n) = x"
  then have "0 < n" "s \<noteq> []" using string_piece_width by fastforce+
  then show "(drop n s, s) \<in> measure length" by simp
qed simp

declare lex_string.simps [simp del]

lemma lex_string_length: "lex_string s = Some (str, rest) \<Longrightarrow> length rest < length s"
proof (induction s arbitrary: str rest rule: lex_string.induct)
  case (1 s)
  show ?case
  proof (cases "s \<noteq> [] \<and> hd s = CHR 0x22")
    case True
    with "1.prems" show ?thesis by (auto simp: lex_string.simps [of s])
  next
    case False
    with "1.prems" obtain p n str' where pn: "string_piece s = Some (p, n)"
      "lex_string (drop n s) = Some (str', rest)"
      by (subst (asm) lex_string.simps) (auto split: option.splits if_splits)
    then have "length rest < length (drop n s)" using "1.IH" [OF False, of "(p, n)" p n] by simp
    then show ?thesis by simp
  qed
qed

text \<open>A number literal: its text and what follows.\<close>

definition lex_frac :: "string \<Rightarrow> (string \<times> string) option" where
  "lex_frac s = (case s of
     c # t \<Rightarrow>
       if c = CHR ''.'' then
         (if takeWhile is_digit t = [] then None
          else Some (c # takeWhile is_digit t, dropWhile is_digit t))
       else Some ([], s)
   | [] \<Rightarrow> Some ([], []))"

definition lex_exp :: "string \<Rightarrow> (string \<times> string) option" where
  "lex_exp s = (case s of
     c # t \<Rightarrow>
       if c = CHR ''e'' \<or> c = CHR ''E'' then
         (let (sg, u) = (case t of d # v \<Rightarrow> if d = CHR ''+'' \<or> d = CHR ''-'' then ([d], v) else ([], t)
                         | [] \<Rightarrow> ([], []))
          in if takeWhile is_digit u = [] then None
             else Some (c # sg @ takeWhile is_digit u, dropWhile is_digit u))
       else Some ([], s)
   | [] \<Rightarrow> Some ([], []))"

definition lex_int :: "string \<Rightarrow> (string \<times> string) option" where
  "lex_int s = (case s of
     [] \<Rightarrow> None
   | c # t \<Rightarrow>
       if c = CHR ''0'' then Some ([c], t)
       else if is_digit c then Some (takeWhile is_digit s, dropWhile is_digit s)
       else None)"

definition lex_number :: "string \<Rightarrow> (string \<times> string) option" where
  "lex_number s =
     (let (sg, t) = (case s of c # u \<Rightarrow> if c = CHR ''-'' then ([c], u) else ([], s) | [] \<Rightarrow> ([], []))
      in case lex_int t of
           None \<Rightarrow> None
         | Some (i, t1) \<Rightarrow>
             (case lex_frac t1 of
                None \<Rightarrow> None
              | Some (f, t2) \<Rightarrow>
                  (case lex_exp t2 of
                     None \<Rightarrow> None
                   | Some (e, t3) \<Rightarrow> Some (sg @ i @ f @ e, t3))))"

lemma length_dropWhile_less: "s \<noteq> [] \<Longrightarrow> P (hd s) \<Longrightarrow> length (dropWhile P s) < length s"
  by (cases s) (auto simp: less_Suc_eq_le length_dropWhile_le)

lemma lex_int_length: "lex_int s = Some (x, t) \<Longrightarrow> length t < length s"
  by (auto simp: lex_int_def less_Suc_eq_le length_dropWhile_le split: list.splits if_splits)

lemma lex_frac_length: "lex_frac s = Some (x, t) \<Longrightarrow> length t \<le> length s"
  by (auto simp: lex_frac_def le_Suc_eq length_dropWhile_le split: list.splits if_splits)

lemma lex_exp_length: "lex_exp s = Some (x, t) \<Longrightarrow> length t \<le> length s"
  by (auto simp: lex_exp_def Let_def split: list.splits if_splits)
     (meson le_SucI length_dropWhile_le)+

lemma lex_number_length: "lex_number s = Some (x, t) \<Longrightarrow> length t < length s"
  by (auto simp: lex_number_def Let_def split: list.splits if_splits option.splits
           dest!: lex_int_length lex_frac_length lex_exp_length)

definition json_space :: "char \<Rightarrow> bool" where
  "json_space c \<longleftrightarrow> byte c \<in> {0x20, 0x09, 0x0D, 0x0A}"

text \<open>The token at the start of a text that does not start with a space, and what follows it.\<close>

definition next_token :: "string \<Rightarrow> (token \<times> string) option" where
  "next_token s = (case s of
     [] \<Rightarrow> None
   | c # cs \<Rightarrow>
       if c = CHR ''{'' then Some (TLBrace, cs)
       else if c = CHR ''}'' then Some (TRBrace, cs)
       else if c = CHR ''['' then Some (TLBracket, cs)
       else if c = CHR '']'' then Some (TRBracket, cs)
       else if c = CHR '':'' then Some (TColon, cs)
       else if c = CHR '','' then Some (TComma, cs)
       else if c = CHR 0x22 then
         (case lex_string cs of None \<Rightarrow> None | Some (str, rest) \<Rightarrow> Some (TString str, rest))
       else if has_prefix s ''null'' then Some (TNull, drop 4 s)
       else if has_prefix s ''true'' then Some (TTrue, drop 4 s)
       else if has_prefix s ''false'' then Some (TFalse, drop 5 s)
       else (case lex_number s of None \<Rightarrow> None | Some (n, rest) \<Rightarrow> Some (TNumber n, rest)))"

lemma next_token_length: "next_token s = Some (t, rest) \<Longrightarrow> length rest < length s"
  by (auto simp: next_token_def less_Suc_eq_le split: list.splits if_splits option.splits
           dest!: lex_string_length lex_number_length)

text \<open>The tokens up to the end of the text or the first bad lexeme, and whether all of it was read.\<close>

function scan_tokens :: "string \<Rightarrow> token list \<times> bool" where
  "scan_tokens s = (case s of
     [] \<Rightarrow> ([], True)
   | c # cs \<Rightarrow>
       if json_space c then scan_tokens cs
       else (case next_token s of
               None \<Rightarrow> ([], False)
             | Some (t, rest) \<Rightarrow> (let (ts, clean) = scan_tokens rest in (t # ts, clean))))"
  by pat_completeness auto
termination
  by (relation "measure length") (auto dest!: next_token_length)

declare scan_tokens.simps [simp del]

definition lex :: "string \<Rightarrow> token list option" where
  "lex s = (let (ts, clean) = scan_tokens s in if clean then Some ts else None)"

section \<open>Parser\<close>

text \<open>
  The open containers, innermost first, and what the scanner expects next.
\<close>

datatype frame =
    FArray "any list"
  | FObject "(string \<times> any) list" string

datatype mode =
    MValue | MValueOrEnd | MKey "(string \<times> any) list" | MKeyOrEnd
  | MColon "(string \<times> any) list" string | MAfter | MTop any

text \<open>A value is complete: store it in the innermost container, or it is the document.\<close>

fun finish_value :: "any \<Rightarrow> frame list \<Rightarrow> frame list \<times> mode" where
  "finish_value v [] = ([], MTop v)"
| "finish_value v (FArray xs # st) = (FArray (xs @ [v]) # st, MAfter)"
| "finish_value v (FObject ps k # st) = (FObject (put k v ps) k # st, MAfter)"

definition max_depth :: nat where
  "max_depth = 10000"

fun start_value :: "token \<Rightarrow> frame list \<Rightarrow> (frame list \<times> mode) option" where
  "start_value TNull st = Some (finish_value ANull st)"
| "start_value TTrue st = Some (finish_value (ABool True) st)"
| "start_value TFalse st = Some (finish_value (ABool False) st)"
| "start_value (TNumber n) st = Some (finish_value (ANumber n) st)"
| "start_value (TString s) st = Some (finish_value (AString s) st)"
| "start_value TLBracket st =
     (if max_depth \<le> length st then None else Some (FArray [] # st, MValueOrEnd))"
| "start_value TLBrace st =
     (if max_depth \<le> length st then None else Some (FObject [] [] # st, MKeyOrEnd))"
| "start_value _ st = None"

text \<open>One token of the scanner's state machine.\<close>

fun parse_step :: "token \<Rightarrow> frame list \<times> mode \<Rightarrow> (frame list \<times> mode) option" where
  "parse_step t (st, MValue) = start_value t st"
| "parse_step t (st, MValueOrEnd) =
     (case st of
        FArray xs # st' \<Rightarrow> if t = TRBracket then Some (finish_value (AList xs) st') else start_value t st
      | _ \<Rightarrow> None)"
| "parse_step t (st, MKeyOrEnd) =
     (case (t, st) of
        (TString k, FObject ps k' # st') \<Rightarrow> Some (st', MColon ps k)
      | (TRBrace, FObject ps k' # st') \<Rightarrow> Some (finish_value (AObject ps) st')
      | _ \<Rightarrow> None)"
| "parse_step t (st, MKey ps) = (case t of TString k \<Rightarrow> Some (st, MColon ps k) | _ \<Rightarrow> None)"
| "parse_step t (st, MColon ps k) = (if t = TColon then Some (FObject ps k # st, MValue) else None)"
| "parse_step t (st, MAfter) =
     (case (t, st) of
        (TComma, FArray xs # st') \<Rightarrow> Some (FArray xs # st', MValue)
      | (TRBracket, FArray xs # st') \<Rightarrow> Some (finish_value (AList xs) st')
      | (TComma, FObject ps k # st') \<Rightarrow> Some (st', MKey ps)
      | (TRBrace, FObject ps k # st') \<Rightarrow> Some (finish_value (AObject ps) st')
      | _ \<Rightarrow> None)"
| "parse_step t (st, MTop v) = None"

fun parse_tokens :: "token list \<Rightarrow> frame list \<times> mode \<Rightarrow> any option" where
  "parse_tokens [] (st, m) = (case m of MTop v \<Rightarrow> Some v | _ \<Rightarrow> None)"
| "parse_tokens (t # ts) c = (case parse_step t c of None \<Rightarrow> None | Some c' \<Rightarrow> parse_tokens ts c')"

definition parse_json :: "string \<Rightarrow> any option" where
  "parse_json s = (case lex s of None \<Rightarrow> None | Some ts \<Rightarrow> parse_tokens ts ([], MValue))"

text \<open>
  One \<open>Decode\<close> of a \<open>json.Decoder\<close>: the first value of the tokens, and the tokens after it.
\<close>

fun top_value :: "frame list \<times> mode \<Rightarrow> any option" where
  "top_value (st, MTop v) = Some v"
| "top_value _ = None"

primrec parse_prefix :: "token list \<Rightarrow> frame list \<times> mode \<Rightarrow> (any \<times> token list) option" where
  "parse_prefix [] c = map_option (\<lambda>v. (v, [])) (top_value c)"
| "parse_prefix (t # ts) c =
     (case top_value c of
        Some v \<Rightarrow> Some (v, t # ts)
      | None \<Rightarrow> (case parse_step t c of None \<Rightarrow> None | Some c' \<Rightarrow> parse_prefix ts c'))"

definition decode_next :: "token list \<Rightarrow> (any \<times> token list) option" where
  "decode_next ts = parse_prefix ts ([], MValue)"

lemma top_value_Some: "top_value c = Some v \<longleftrightarrow> (\<exists>st. c = (st, MTop v))"
  by (cases c rule: top_value.cases) auto

lemma parse_tokens_prefix: "parse_tokens ts c = Some v \<longleftrightarrow> parse_prefix ts c = Some (v, [])"
proof (induction ts arbitrary: c)
  case Nil
  then show ?case by (cases c rule: top_value.cases) auto
next
  case (Cons t ts)
  then show ?case by (auto split: option.splits simp: top_value_Some)
qed

lemma parse_json_decode:
  "parse_json s = Some v \<longleftrightarrow> snd (scan_tokens s) \<and> decode_next (fst (scan_tokens s)) = Some (v, [])"
  by (simp add: parse_json_def lex_def decode_next_def Let_def parse_tokens_prefix split_beta)

text \<open>\<open>json.Valid\<close>.\<close>

definition json_valid :: "string \<Rightarrow> bool" where
  "json_valid s \<longleftrightarrow> parse_json s \<noteq> None"

text \<open>A decoded map has one entry for each key, at every depth.\<close>

function distinct_keys :: "any \<Rightarrow> bool" where
  "distinct_keys (AList xs) = (\<forall>x \<in> set xs. distinct_keys x)"
| "distinct_keys (AObject m) = (distinct (map fst m) \<and> (\<forall>e \<in> set m. distinct_keys (snd e)))"
| "distinct_keys ANull = True"
| "distinct_keys (ABool b) = True"
| "distinct_keys (ANumber n) = True"
| "distinct_keys (AString s) = True"
  by pat_completeness auto
termination
  by (relation "measure size") (auto simp: size_element size_entry)

fun keys_frame :: "frame \<Rightarrow> bool" where
  "keys_frame (FArray xs) = distinct_keys (AList xs)"
| "keys_frame (FObject ps k) = distinct_keys (AObject ps)"

fun keys_mode :: "mode \<Rightarrow> bool" where
  "keys_mode (MKey ps) = distinct_keys (AObject ps)"
| "keys_mode (MColon ps k) = distinct_keys (AObject ps)"
| "keys_mode (MTop v) = distinct_keys v"
| "keys_mode _ = True"

definition keys_config :: "frame list \<times> mode \<Rightarrow> bool" where
  "keys_config c \<longleftrightarrow> list_all keys_frame (fst c) \<and> keys_mode (snd c)"

lemma keys_config_Pair [simp]: "keys_config (st, m) \<longleftrightarrow> list_all keys_frame st \<and> keys_mode m"
  by (simp add: keys_config_def)

lemma distinct_keys_put:
  "distinct_keys (AObject m) \<Longrightarrow> distinct_keys v \<Longrightarrow> distinct_keys (AObject (put k v m))"
proof (induction k v m rule: put.induct)
  case (2 k v k' v' m)
  then show ?case using keys_put [of k v m] by (auto simp flip: set_map)
qed simp

lemma keys_finish [simp]:
  "list_all keys_frame st \<Longrightarrow> distinct_keys v \<Longrightarrow> keys_config (finish_value v st)"
  using distinct_keys_put by (cases "(v, st)" rule: finish_value.cases) auto

lemma keys_start: "list_all keys_frame st \<Longrightarrow> start_value t st = Some c \<Longrightarrow> keys_config c"
  by (cases "(t, st)" rule: start_value.cases) (auto split: if_splits)

lemma keys_step: "keys_config c \<Longrightarrow> parse_step t c = Some c' \<Longrightarrow> keys_config c'"
  by (cases "(t, c)" rule: parse_step.cases)
     (auto split: list.splits frame.splits token.splits if_splits dest: keys_start [rotated])

lemma keys_prefix: "keys_config c \<Longrightarrow> parse_prefix ts c = Some (v, rest) \<Longrightarrow> distinct_keys v"
  by (induction ts arbitrary: c)
     (auto simp: top_value_Some split: option.splits dest: keys_step)

lemma decode_next_keys: "decode_next ts = Some (v, rest) \<Longrightarrow> distinct_keys v"
  unfolding decode_next_def by (erule keys_prefix [rotated]) (simp add: keys_config_def)

section \<open>Evaluation\<close>

text \<open>Rules that evaluate the decoder on documents of plain ASCII text.\<close>

lemma string_piece_plain:
  assumes "0x20 \<le> byte c" "byte c < 0x80" "byte c \<noteq> 0x22" "byte c \<noteq> 0x5C"
  shows "string_piece (c # cs) = Some ([c], 1)"
  using assms by (auto simp: string_piece_def decode_rune_ascii encode_rune_ascii)

lemma lex_string_plain:
  assumes "0x20 \<le> byte c" "byte c < 0x80" "byte c \<noteq> 0x22" "byte c \<noteq> 0x5C"
  shows "lex_string (c # cs) = map_option (apfst ((#) c)) (lex_string cs)"
  using assms by (subst lex_string.simps) (auto simp: string_piece_plain split: option.splits)

lemma lex_string_quote: "lex_string (CHR 0x22 # cs) = Some ([], cs)"
  by (subst lex_string.simps) simp

lemmas json_eval = lex_string_plain lex_string_quote scan_tokens.simps json_space_def next_token_def
  max_depth_def

section \<open>Encoder\<close>

text \<open>
  \<open>json.Marshal\<close> of a string: the bytes of the HTML-safe ASCII set as they are, the other ASCII
  bytes escaped, an invalid byte as the escape of the error rune, the two line separators escaped.
\<close>

definition html_safe :: "nat \<Rightarrow> bool" where
  "html_safe b \<longleftrightarrow> 0x20 \<le> b \<and> b < 0x80 \<and> b \<notin> {0x22, 0x5C, 0x3C, 0x3E, 0x26}"

definition escape_piece :: "string \<Rightarrow> string \<times> nat" where
  "escape_piece s =
     (let c = hd s; b = byte c in
      if b < 0x80 then
        ((if html_safe b then [c]
          else if b = 0x5C \<or> b = 0x22 then [CHR 0x5C, c]
          else if b = 0x08 then [CHR 0x5C, CHR ''b'']
          else if b = 0x0C then [CHR 0x5C, CHR ''f'']
          else if b = 0x0A then [CHR 0x5C, CHR ''n'']
          else if b = 0x0D then [CHR 0x5C, CHR ''r'']
          else if b = 0x09 then [CHR 0x5C, CHR ''t'']
          else [CHR 0x5C, CHR ''u''] @ hex 4 b), 1)
      else if decode_rune s = (rune_error, 1) then ([CHR 0x5C, CHR ''u''] @ ''fffd'', 1)
      else if fst (decode_rune s) = 0x2028 \<or> fst (decode_rune s) = 0x2029 then
        ([CHR 0x5C, CHR ''u''] @ hex 4 (fst (decode_rune s)), snd (decode_rune s))
      else (take (snd (decode_rune s)) s, snd (decode_rune s)))"

lemma escape_piece_width: "s \<noteq> [] \<Longrightarrow> 0 < snd (escape_piece s)"
  using decode_rune_width [of s] by (auto simp: escape_piece_def Let_def)

function escape_body :: "string \<Rightarrow> string" where
  "escape_body s =
     (if s = [] then []
      else fst (escape_piece s) @ escape_body (drop (snd (escape_piece s)) s))"
  by pat_completeness auto
termination
  by (relation "measure length") (auto simp: diff_less [OF escape_piece_width])

declare escape_body.simps [simp del]

definition marshal_string :: "string \<Rightarrow> string" where
  "marshal_string s = [CHR 0x22] @ escape_body s @ [CHR 0x22]"

text \<open>
  What decoding gives back: the string with every invalid byte replaced by the error rune, which is
  the string itself when it is valid UTF-8.
\<close>

definition to_valid_utf8 :: "string \<Rightarrow> string" where
  "to_valid_utf8 s = encode_runes (decode_runes s)"

definition valid_utf8 :: "string \<Rightarrow> bool" where
  "valid_utf8 s \<longleftrightarrow> to_valid_utf8 s = s"

lemma decode_runes_step:
  "s \<noteq> [] \<Longrightarrow> decode_runes s = fst (decode_rune s) # decode_runes (drop (snd (decode_rune s)) s)"
  by (simp add: decode_runes.simps [of s])

lemma unhex_hex_digit [simp]: "n < 16 \<Longrightarrow> unhex (hex_digit n) = Some n"
  by (auto simp: unhex_def hex_digit_def Let_def)

lemma length_hex [simp]: "length (hex w n) = w"
  by (induction w arbitrary: n) simp_all

lemma hex_4:
  "hex 4 u = [hex_digit (u div 16 div 16 div 16 mod 16), hex_digit (u div 16 div 16 mod 16),
     hex_digit (u div 16 mod 16), hex_digit (u mod 16)]"
proof -
  have "hex (Suc (Suc (Suc (Suc 0)))) u = [hex_digit (u div 16 div 16 div 16 mod 16),
      hex_digit (u div 16 div 16 mod 16), hex_digit (u div 16 mod 16), hex_digit (u mod 16)]"
    by (simp only: hex.simps append.simps)
  moreover have "Suc (Suc (Suc (Suc 0))) = (4::nat)" by simp
  ultimately show ?thesis by (simp only:)
qed

lemma hex_digits_join:
  assumes "(a::nat) * 16 + x = u" "b * 16 + y = a" "c * 16 + z = b"
  shows "c * 4096 + z * 256 + y * 16 + x = u"
  using assms by simp

lemma hex_value:
  assumes "(u::nat) < 0x10000"
  shows "u div 16 div 16 div 16 mod 16 * 4096 + u div 16 div 16 mod 16 * 256 + u div 16 mod 16 * 16
    + u mod 16 = u"
proof -
  have "u div 16 div 16 div 16 < 16" using assms by (simp flip: div_mult2_eq)
  then have "u div 16 div 16 div 16 mod 16 = u div 16 div 16 div 16" by (rule mod_less)
  then show ?thesis
    using hex_digits_join [where u = u and a = "u div 16" and b = "u div 16 div 16"
        and c = "u div 16 div 16 div 16", OF div_mult_mod_eq div_mult_mod_eq div_mult_mod_eq]
    by (simp only:)
qed

lemma getu4_hex: "u < 0x10000 \<Longrightarrow> getu4 (CHR 0x5C # CHR ''u'' # hex 4 u @ t) = Some u"
  using hex_value [of u] by (simp add: hex_4)

lemma string_piece_u:
  assumes "u < 0x10000" "valid_rune u"
  shows "string_piece (CHR 0x5C # CHR ''u'' # hex 4 u @ t) = Some (encode_rune u, 6)"
proof -
  have "\<not> high_surrogate u" using assms(2) by (auto simp: high_surrogate_def valid_rune_def)
  then show ?thesis using getu4_hex [OF assms(1), of t] by (simp add: string_piece_def)
qed

lemma string_piece_raw:
  assumes "valid_rune r" "0x80 \<le> r"
  shows "string_piece (encode_rune r @ t) = Some (encode_rune r, length (encode_rune r))"
proof -
  obtain c cs where e: "encode_rune r = c # cs" using encode_rune_nonempty [of r] by (cases "encode_rune r") auto
  have "\<not> byte c < 0x80"
  proof
    assume "byte c < 0x80"
    then have "r = byte c" using decode_encode_rune [OF assms(1), of t] by (simp add: e decode_rune_ascii)
    with assms(2) \<open>byte c < 0x80\<close> show False by simp
  qed
  then show ?thesis using decode_encode_rune [OF assms(1), of t] by (auto simp: string_piece_def e)
qed

lemma decode_rune_high: "0x80 \<le> byte c \<Longrightarrow> 0x80 \<le> fst (decode_rune (c # s))"
  by (auto simp: decode_rune_def Let_def rune_error_def second_ok_def low6_def split: list.splits if_splits)

text \<open>The decoder undoes one piece of the encoder.\<close>

lemma string_piece_escape:
  assumes "s \<noteq> []"
  shows "string_piece (fst (escape_piece s) @ t)
       = Some (encode_rune (fst (decode_rune s)), length (fst (escape_piece s))) \<and>
     snd (escape_piece s) = snd (decode_rune s) \<and>
     fst (escape_piece s) \<noteq> [] \<and> hd (fst (escape_piece s)) \<noteq> CHR 0x22"
proof -
  obtain c cs where s: "s = c # cs" using assms by (cases s) auto
  consider (safe) "html_safe (byte c)" | (esc) "byte c < 0x80" "\<not> html_safe (byte c)"
    | (bad) "0x80 \<le> byte c" "decode_rune s = (rune_error, 1)"
    | (sep) "0x80 \<le> byte c" "decode_rune s \<noteq> (rune_error, 1)" "fst (decode_rune s) \<in> {0x2028, 0x2029}"
    | (raw) "0x80 \<le> byte c" "decode_rune s \<noteq> (rune_error, 1)" "fst (decode_rune s) \<notin> {0x2028, 0x2029}"
    by (metis insertE not_le)
  then show ?thesis
  proof cases
    case safe
    then have "byte c < 0x80" "0x20 \<le> byte c" "c \<noteq> CHR 0x5C" "c \<noteq> CHR 0x22" by (auto simp: html_safe_def)
    with safe show ?thesis
      by (simp add: s escape_piece_def string_piece_def decode_rune_ascii encode_rune_ascii)
  next
    case esc
    let ?simple = "byte c \<in> {0x5C, 0x22, 0x08, 0x0C, 0x0A, 0x0D, 0x09}"
    have c: "chr (byte c) = c" by simp
    show ?thesis
    proof (cases ?simple)
      case True
      then have "chr (byte c) \<in> chr ` {0x5C, 0x22, 0x08, 0x0C, 0x0A, 0x0D, 0x09}" by (rule imageI)
      then have "c = CHR 0x5C \<or> c = CHR 0x22 \<or> c = CHR 0x08 \<or> c = CHR 0x0C \<or> c = CHR 0x0A \<or>
          c = CHR 0x0D \<or> c = CHR 0x09"
        unfolding c by (simp add: char_of_def bit_Suc_0_iff)
      then show ?thesis
        by (elim disjE; hypsubst; simp add: s escape_piece_def string_piece_def decode_rune_ascii
            encode_rune_ascii html_safe_def Let_def char_of_def bit_Suc_0_iff)
    next
      case False
      then have "fst (escape_piece s) = CHR 0x5C # CHR ''u'' # hex 4 (byte c)"
        using esc by (simp add: s escape_piece_def)
      moreover have "valid_rune (byte c)" using esc(1) by (simp add: valid_rune_def)
      ultimately show ?thesis using esc string_piece_u [of "byte c" t]
        by (simp add: s escape_piece_def decode_rune_ascii Let_def)
    qed
  next
    case bad
    have "hex 4 0xFFFD = ''fffd''" by (simp add: hex_4 hex_digit_def char_of_def bit_Suc_0_iff)
    then show ?thesis using bad string_piece_u [of "0xFFFD" t]
      by (simp add: s escape_piece_def rune_error_def valid_rune_def)
  next
    case sep
    then show ?thesis using string_piece_u [of "fst (decode_rune s)" t]
      by (auto simp: s escape_piece_def valid_rune_def)
  next
    case raw
    then have p: "fst (escape_piece s) = encode_rune (fst (decode_rune s))"
      "snd (escape_piece s) = snd (decode_rune s)"
      using encode_decode_rune [of s] by (simp_all add: s escape_piece_def)
    have "hd (encode_rune (fst (decode_rune s))) = c"
      using encode_decode_rune [of s] raw decode_rune_width [of s] by (auto simp: s take_Cons')
    then have "hd (encode_rune (fst (decode_rune s))) \<noteq> CHR 0x22" using raw(1) by auto
    then show ?thesis using p string_piece_raw [OF valid_decode_rune, of s t] decode_rune_high [OF raw(1), of cs]
      by (simp add: s)
  qed
qed

lemma lex_string_escape_body:
  "lex_string (escape_body s @ CHR 0x22 # t) = Some (to_valid_utf8 s, t)"
proof (induction s rule: escape_body.induct)
  case (1 s)
  show ?case
  proof (cases "s = []")
    case True
    then show ?thesis by (simp add: escape_body.simps lex_string.simps [of "CHR 0x22 # t"] to_valid_utf8_def)
  next
    case False
    let ?p = "fst (escape_piece s)" and ?rest = "drop (snd (decode_rune s)) s"
    note sp = string_piece_escape [OF False, THEN conjunct1]
      string_piece_escape [OF False, THEN conjunct2, THEN conjunct1]
      string_piece_escape [OF False, THEN conjunct2, THEN conjunct2]
    have body: "escape_body s @ CHR 0x22 # t = ?p @ escape_body ?rest @ CHR 0x22 # t"
      using False by (simp add: escape_body.simps [of s] sp(2))
    have "lex_string (escape_body ?rest @ CHR 0x22 # t) = Some (to_valid_utf8 ?rest, t)"
      using "1.IH" [OF False] by (simp add: sp(2))
    then have "lex_string (?p @ escape_body ?rest @ CHR 0x22 # t)
        = Some (encode_rune (fst (decode_rune s)) @ to_valid_utf8 ?rest, t)"
      using sp(3) by (subst lex_string.simps) (simp add: sp(1))
    then show ?thesis using False by (simp add: body to_valid_utf8_def decode_runes_step)
  qed
qed

theorem parse_marshal_string: "parse_json (marshal_string s) = Some (AString (to_valid_utf8 s))"
proof -
  have "lex (marshal_string s) = Some [TString (to_valid_utf8 s)]"
    by (simp add: marshal_string_def lex_def scan_tokens.simps [of "CHR 0x22 # x" for x] json_space_def
         next_token_def lex_string_escape_body scan_tokens.simps [of "[]"])
  then show ?thesis by (simp add: parse_json_def)
qed

lemma json_valid_marshal_string [simp]: "json_valid (marshal_string s)"
  by (simp add: json_valid_def parse_marshal_string)

section \<open>Encoding dynamic values\<close>

text \<open>
  \<open>json.Marshal\<close> of a dynamic value: no spaces, the keys of a map in byte order.  A
  \<open>json.Number\<close> that is not a number literal is an error; the empty one is 0.
\<close>

fun all_some :: "'a option list \<Rightarrow> 'a list option" where
  "all_some [] = Some []"
| "all_some (None # xs) = None"
| "all_some (Some x # xs) = map_option ((#) x) (all_some xs)"

definition number_literal :: "string \<Rightarrow> bool" where
  "number_literal n \<longleftrightarrow> (case lex_number n of Some (x, rest) \<Rightarrow> rest = [] | None \<Rightarrow> False)"

definition marshal_entry :: "string \<times> string \<Rightarrow> string" where
  "marshal_entry e = marshal_string (fst e) @ '':'' @ snd e"

function marshal :: "any \<Rightarrow> string option" where
  "marshal ANull = Some ''null''"
| "marshal (ABool b) = Some (if b then ''true'' else ''false'')"
| "marshal (ANumber n) = (if n = [] then Some ''0'' else if number_literal n then Some n else None)"
| "marshal (AString s) = Some (marshal_string s)"
| "marshal (AList xs) =
     map_option (\<lambda>ys. ''['' @ join '','' ys @ '']'') (all_some (map marshal xs))"
| "marshal (AObject m) =
     map_option (\<lambda>es. ''{'' @ join '','' (map marshal_entry (sort_key fst es)) @ ''}'')
       (all_some (map (\<lambda>e. map_option (Pair (fst e)) (marshal (snd e))) m))"
  by pat_completeness auto
termination
  by (relation "measure size") (auto simp: size_element size_entry)

end
