(* ===== verification/Redact.thy ===== *)
theory Redact
  imports Go_Strings
begin

text \<open>
  internal/config/redact.go: which keys and which error texts are sensitive.  The regular expressions
  of the source are values of a small expression type with the matching order of Go's
  \<open>regexp\<close> package; \<open>url.Parse\<close> is a parameter, given by the parts of its result that
  the source reads.
\<close>

section \<open>Regular expressions over runes\<close>

text \<open>A text is matched rune by rune; each rune keeps the bytes it was read from.\<close>

type_synonym chunk = "rune \<times> string"

function chunks :: "string \<Rightarrow> chunk list" where
  "chunks s =
     (if s = [] then []
      else (fst (decode_rune s), take (snd (decode_rune s)) s) # chunks (drop (snd (decode_rune s)) s))"
  by pat_completeness auto
termination
  by (relation "measure length") (auto simp: diff_less [OF decode_rune_width])

declare chunks.simps [simp del]

definition chunk_text :: "chunk list \<Rightarrow> string" where
  "chunk_text cs = concat (map snd cs)"

text \<open>
  The expressions: a rune class, a greedy repetition of a class, an optional expression (greedy),
  sequence, ordered alternatives, and the ASCII word boundary.
\<close>

datatype re =
    Cls "rune \<Rightarrow> bool"
  | Many "rune \<Rightarrow> bool"
  | Opt re
  | Seq "re list"
  | Alt "re list"
  | WordB

text \<open>A position: the rune before it, if any, and the text after it.\<close>

type_synonym pos = "rune option \<times> chunk list"

fun many_ends :: "(rune \<Rightarrow> bool) \<Rightarrow> rune option \<Rightarrow> chunk list \<Rightarrow> pos list" where
  "many_ends p pr [] = [(pr, [])]"
| "many_ends p pr (c # cs) = (if p (fst c) then many_ends p (Some (fst c)) cs else []) @ [(pr, c # cs)]"

definition word_rune :: "rune \<Rightarrow> bool" where
  "word_rune r \<longleftrightarrow> (48 \<le> r \<and> r \<le> 57) \<or> (65 \<le> r \<and> r \<le> 90) \<or> (97 \<le> r \<and> r \<le> 122) \<or> r = 95"

definition at_word_boundary :: "pos \<Rightarrow> bool" where
  "at_word_boundary q \<longleftrightarrow>
     (case fst q of None \<Rightarrow> False | Some r \<Rightarrow> word_rune r) \<noteq>
     (case snd q of [] \<Rightarrow> False | c # _ \<Rightarrow> word_rune (fst c))"

text \<open>The positions where a match can end, the preferred one first.\<close>

fun ends :: "re \<Rightarrow> pos \<Rightarrow> pos list" and ends_seq :: "re list \<Rightarrow> pos \<Rightarrow> pos list" and
  ends_alt :: "re list \<Rightarrow> pos \<Rightarrow> pos list" where
  "ends (Cls p) q = (case snd q of [] \<Rightarrow> [] | c # cs \<Rightarrow> if p (fst c) then [(Some (fst c), cs)] else [])"
| "ends (Many p) q = many_ends p (fst q) (snd q)"
| "ends (Opt r) q = ends r q @ [q]"
| "ends (Seq rs) q = ends_seq rs q"
| "ends (Alt rs) q = ends_alt rs q"
| "ends WordB q = (if at_word_boundary q then [q] else [])"
| "ends_seq [] q = [q]"
| "ends_seq (r # rs) q = concat (map (ends_seq rs) (ends r q))"
| "ends_alt [] q = []"
| "ends_alt (r # rs) q = ends r q @ ends_alt rs q"

text \<open>\<open>MatchString\<close>: a match starts somewhere.\<close>

fun search :: "re \<Rightarrow> rune option \<Rightarrow> chunk list \<Rightarrow> bool" where
  "search r pr [] = (ends r (pr, []) \<noteq> [])"
| "search r pr (c # cs) = (ends r (pr, c # cs) \<noteq> [] \<or> search r (Some (fst c)) cs)"

definition match_string :: "re \<Rightarrow> string \<Rightarrow> bool" where
  "match_string r s = search r None (chunks s)"

text \<open>\<open>FindAllString\<close>: the leftmost matches that do not overlap (none of them empty here).\<close>

function find_all :: "re \<Rightarrow> rune option \<Rightarrow> chunk list \<Rightarrow> string list" where
  "find_all r pr [] = []"
| "find_all r pr (c # cs) =
     (case ends r (pr, c # cs) of
        q # _ \<Rightarrow>
          if length (snd q) < length (c # cs)
          then chunk_text (take (length (c # cs) - length (snd q)) (c # cs)) # find_all r (fst q) (snd q)
          else find_all r (Some (fst c)) cs
      | [] \<Rightarrow> find_all r (Some (fst c)) cs)"
  by pat_completeness auto
termination
  by (relation "measure (\<lambda>(r, pr, cs). length cs)") auto

section \<open>The patterns\<close>

text \<open>Classes under \<open>(?i)\<close>: the letters fold, and so do the two runes outside ASCII that fold to one.\<close>

definition fold_eq :: "char \<Rightarrow> rune \<Rightarrow> bool" where
  "fold_eq c r \<longleftrightarrow> lower_rune r = byte c \<and> r \<noteq> 0x130 \<or> (c = CHR ''s'' \<and> r = 0x17F)"

definition letter :: "rune \<Rightarrow> bool" where
  "letter r \<longleftrightarrow> (97 \<le> r \<and> r \<le> 122) \<or> (65 \<le> r \<and> r \<le> 90) \<or> r = 0x17F \<or> r = 0x212A"

definition digit_rune :: "rune \<Rightarrow> bool" where
  "digit_rune r \<longleftrightarrow> 48 \<le> r \<and> r \<le> 57"

definition one_of :: "string \<Rightarrow> rune \<Rightarrow> bool" where
  "one_of cs r \<longleftrightarrow> r \<in> byte ` set cs"

definition white :: "rune \<Rightarrow> bool" where
  "white r \<longleftrightarrow> r \<in> {0x09, 0x0A, 0x0C, 0x0D, 0x20}"

definition quote_chars :: string where
  "quote_chars = [CHR 0x22, CHR 0x27]"

definition lit :: "string \<Rightarrow> re" where
  "lit s = Seq (map (\<lambda>c. Cls (fold_eq c)) s)"

definition many1 :: "(rune \<Rightarrow> bool) \<Rightarrow> re" where
  "many1 p = Seq [Cls p, Many p]"

definition key_rune :: "rune \<Rightarrow> bool" where
  "key_rune r \<longleftrightarrow> letter r \<or> digit_rune r \<or> one_of ''_-'' r"

definition value_rune :: "rune \<Rightarrow> bool" where
  "value_rune r \<longleftrightarrow> \<not> white r \<and> \<not> one_of '',;'' r"

definition separator :: re where
  "separator = Opt (Cls (one_of ''_-''))"

definition key_markers :: re where
  "key_markers = Alt
     [Seq [lit ''api'', separator, lit ''key''],
      lit ''authorization'',
      Seq [lit ''mcp'', separator, Alt [lit ''auth'', lit ''token'']],
      lit ''password'', lit ''secret'', lit ''token'',
      Seq [lit ''webhook'', separator, lit ''url''],
      lit ''apikey'', lit ''credential'', lit ''mcp_auth'', lit ''webhook'']"

definition sensitiveKeyValuePattern :: re where
  "sensitiveKeyValuePattern = Seq
     [Opt (Cls (one_of quote_chars)), Many key_rune, key_markers, Many key_rune,
      Opt (Cls (one_of quote_chars)), Many white, Cls (one_of ''=:''), Many white, many1 value_rune]"

definition scheme_rune :: "rune \<Rightarrow> bool" where
  "scheme_rune r \<longleftrightarrow> letter r \<or> digit_rune r \<or> one_of ''+.-'' r"

definition credentialURLPattern :: re where
  "credentialURLPattern = Seq
     [Cls letter, Many scheme_rune, lit ''://'', many1 (\<lambda>r. \<not> white r \<and> \<not> one_of ''/:@'' r), lit '':'',
      many1 (\<lambda>r. \<not> white r \<and> \<not> one_of ''/@'' r), lit ''@'']"

definition authorizationPattern :: re where
  "authorizationPattern = Seq
     [WordB, Alt [lit ''bearer'', lit ''basic''], many1 white,
      many1 (\<lambda>r. letter r \<or> digit_rune r \<or> one_of ''._~+/=-'' r)]"

definition providerKeyPhrasePattern :: re where
  "providerKeyPhrasePattern = Seq
     [WordB, lit ''api'', Opt (Cls (\<lambda>r. white r \<or> one_of ''_-'' r)), lit ''key'', WordB, many1 white,
      many1 value_rune]"

definition urlPattern :: re where
  "urlPattern = Seq
     [WordB, Cls letter, Many scheme_rune, lit ''://'',
      many1 (\<lambda>r. \<not> white r \<and> \<not> one_of (''<>'' @ quote_chars) r)]"

section \<open>URLs\<close>

text \<open>What \<open>containsCredentialURL\<close> reads of a parsed URL; \<open>None\<close> is a parse error.\<close>

record url_parts =
  url_has_user :: bool
  url_raw_query :: string
  url_hostname :: string
  url_path :: string
  url_escaped_path :: string
  url_fragment :: string

type_synonym url_parser = "string \<Rightarrow> url_parts option"

fun split_on :: "char \<Rightarrow> string \<Rightarrow> string list" where
  "split_on c [] = [[]]"
| "split_on c (x # xs) =
     (if x = c then [] # split_on c xs
      else case split_on c xs of y # ys \<Rightarrow> (x # y) # ys | [] \<Rightarrow> [[x]])"

text \<open>\<open>strings.ReplaceAll\<close> of a non-empty substring.\<close>

function replace_all :: "string \<Rightarrow> string \<Rightarrow> string \<Rightarrow> string" where
  "replace_all old new s =
     (if s = [] then []
      else if old \<noteq> [] \<and> has_prefix s old then new @ replace_all old new (drop (length old) s)
      else hd s # replace_all old new (tl s))"
  by pat_completeness auto
termination
  by (relation "measure (\<lambda>(old, new, s). length s)") auto

declare replace_all.simps [simp del]

definition trim_right_set :: "string \<Rightarrow> string \<Rightarrow> string" where
  "trim_right_set cutset s = rev (dropWhile (\<lambda>c. c \<in> set cutset) (rev s))"

definition isSensitiveURLPart :: "string \<Rightarrow> bool" where
  "isSensitiveURLPart value =
     (let normalized = to_lower (replace_all ''%5f'' ''_'' (replace_all ''-'' ''_'' value))
      in \<exists>marker \<in> set [''api_key'', ''apikey'', ''authorization'', ''callback'', ''credential'', ''hook'',
            ''mcp_auth'', ''password'', ''secret'', ''token'', ''webhook''].
           contains normalized marker)"

definition ascii_letter :: "rune \<Rightarrow> bool" where
  "ascii_letter r \<longleftrightarrow> (97 \<le> r \<and> r \<le> 122) \<or> (65 \<le> r \<and> r \<le> 90)"

definition looksLikeOpaqueCredential :: "string \<Rightarrow> bool" where
  "looksLikeOpaqueCredential value =
     (if length value < 16 then False
      else let rs = decode_runes value in
        list_all (\<lambda>r. ascii_letter r \<or> digit_rune r \<or> one_of ''-_.~+='' r) rs \<and>
        list_ex ascii_letter rs \<and> list_ex digit_rune rs)"

definition url_is_sensitive :: "url_parser \<Rightarrow> string \<Rightarrow> bool" where
  "url_is_sensitive U raw0 =
     (let raw = trim_right_set ''.,;:!?)]}'' raw0 in
      case U raw of
        None \<Rightarrow> True
      | Some parsed \<Rightarrow>
          url_has_user parsed \<or>
          url_raw_query parsed \<noteq> [] \<or>
          (contains (to_lower (url_hostname parsed)) ''hook'' \<and>
             url_escaped_path parsed \<noteq> [] \<and> url_escaped_path parsed \<noteq> ''/'') \<or>
          (\<exists>part \<in> set (split_on (CHR ''/'') (url_path parsed)).
             isSensitiveURLPart part \<or> looksLikeOpaqueCredential part) \<or>
          url_fragment parsed \<noteq> [])"

definition containsCredentialURL :: "url_parser \<Rightarrow> string \<Rightarrow> bool" where
  "containsCredentialURL U text =
     (\<exists>raw \<in> set (find_all urlPattern None (chunks text)). url_is_sensitive U raw)"

section \<open>The exported operations\<close>

definition redactedValue :: string where
  "redactedValue = ''[REDACTED]''"

definition sensitive_text :: "url_parser \<Rightarrow> string \<Rightarrow> bool" where
  "sensitive_text U text \<longleftrightarrow>
     match_string sensitiveKeyValuePattern text \<or> match_string credentialURLPattern text \<or>
     match_string authorizationPattern text \<or> match_string providerKeyPhrasePattern text \<or>
     containsCredentialURL U text"

definition SanitizeErrorString :: "url_parser \<Rightarrow> string \<Rightarrow> string" where
  "SanitizeErrorString U text = (if sensitive_text U text then redactedValue else text)"

definition sensitive_name :: "string \<Rightarrow> bool" where
  "sensitive_name candidate =
     (let name = to_lower candidate in
      name \<in> set [''api_key'', ''authorization'', ''mcp_auth'', ''mcp_token'', ''password'', ''secret'',
        ''token'', ''webhook_url''] \<or>
      contains name ''apikey'' \<or> contains name ''credential'' \<or> contains name ''mcp_auth'' \<or>
      contains name ''webhook'')"

definition IsSensitiveKey :: "string list \<Rightarrow> string \<Rightarrow> bool" where
  "IsSensitiveKey path key = list_ex sensitive_name (path @ [key])"

text \<open>\<open>RedactValue\<close>; \<open>inject\<close> makes an \<open>any\<close> of the string.\<close>

definition RedactValue :: "(string \<Rightarrow> 'v) \<Rightarrow> string \<Rightarrow> 'v \<Rightarrow> 'v" where
  "RedactValue inject key value = (if IsSensitiveKey [] key then inject redactedValue else value)"

section \<open>Facts about matching\<close>

text \<open>What a match leaves over is a suffix of the text it started on.\<close>

lemma many_ends_suffix: "q \<in> set (many_ends p pr cs) \<Longrightarrow> \<exists>a. cs = a @ snd q \<and> list_all (\<lambda>c. p (fst c)) a"
proof (induction cs arbitrary: pr)
  case (Cons c cs)
  show ?case
  proof (cases "q = (pr, c # cs)")
    case False
    with Cons.prems have p: "p (fst c)" "q \<in> set (many_ends p (Some (fst c)) cs)" by (auto split: if_splits)
    with Cons.IH obtain a where "cs = a @ snd q" "list_all (\<lambda>c. p (fst c)) a" by blast
    then show ?thesis using p(1) by (intro exI [of _ "c # a"]) simp
  qed (auto intro: exI [of _ "[]"])
qed simp

lemma ends_suffix:
  "q' \<in> set (ends r q) \<Longrightarrow> \<exists>a. snd q = a @ snd q'"
  "q' \<in> set (ends_seq rs q) \<Longrightarrow> \<exists>a. snd q = a @ snd q'"
  "q' \<in> set (ends_alt rs q) \<Longrightarrow> \<exists>a. snd q = a @ snd q'"
proof (induction r q and rs q and rs q arbitrary: q' and q' and q' rule: ends_ends_seq_ends_alt.induct)
  case (2 p q)
  then show ?case using many_ends_suffix by fastforce
next
  case (8 r rs q)
  then obtain q1 where q1: "q1 \<in> set (ends r q)" "q' \<in> set (ends_seq rs q1)" by auto
  then obtain a b where "snd q = a @ snd q1" "snd q1 = b @ snd q'" using 8 by blast
  then show ?case by simp
qed (auto split: list.splits if_splits)

text \<open>An expression of which some part is a rune of the class \<open>P\<close> matches only where one occurs.\<close>

fun requires :: "(rune \<Rightarrow> bool) \<Rightarrow> re \<Rightarrow> bool" where
  "requires P (Cls p) \<longleftrightarrow> (\<forall>r. p r \<longrightarrow> P r)"
| "requires P (Seq rs) \<longleftrightarrow> (\<exists>r \<in> set rs. requires P r)"
| "requires P _ \<longleftrightarrow> False"

lemma requires_occurs:
  "requires P r \<Longrightarrow> q' \<in> set (ends r q) \<Longrightarrow> \<exists>c \<in> set (snd q). P (fst c)"
  "(\<exists>r \<in> set rs. requires P r) \<Longrightarrow> q' \<in> set (ends_seq rs q) \<Longrightarrow> \<exists>c \<in> set (snd q). P (fst c)"
  "q' \<in> set (ends_alt rs q) \<Longrightarrow> True"
proof (induction r q and rs q and rs q arbitrary: q' and q' and q' rule: ends_ends_seq_ends_alt.induct)
  case (1 p q)
  then show ?case by (cases "snd q") (auto split: if_splits)
next
  case (8 r rs q)
  then obtain q1 where q1: "q1 \<in> set (ends r q)" "q' \<in> set (ends_seq rs q1)" by auto
  from ends_suffix(1) [OF q1(1)] obtain a where a: "snd q = a @ snd q1" by blast
  show ?case
  proof (cases "requires P r")
    case True
    then show ?thesis using 8 q1 by blast
  next
    case False
    then have "\<exists>c \<in> set (snd q1). P (fst c)" using 8 q1 by auto
    then show ?thesis by (auto simp: a)
  qed
qed auto

lemma search_occurs: "requires P r \<Longrightarrow> search r pr cs \<Longrightarrow> \<exists>c \<in> set cs. P (fst c)"
proof (induction r pr cs rule: search.induct)
  case (1 r pr)
  then obtain q where "q \<in> set (ends r (pr, []))" by (cases "ends r (pr, [])") fastforce+
  then show ?case using requires_occurs(1) [OF "1.prems"(1)] by fastforce
next
  case (2 r pr c cs)
  then show ?case using requires_occurs(1) [OF "2.prems"(1), where q = "(pr, c # cs)"]
    by (cases "ends r (pr, c # cs)") fastforce+
qed

lemma find_all_occurs: "requires P r \<Longrightarrow> find_all r pr cs \<noteq> [] \<Longrightarrow> \<exists>c \<in> set cs. P (fst c)"
proof (induction r pr cs rule: find_all.induct)
  case (2 r pr c cs)
  show ?case
  proof (cases "ends r (pr, c # cs)")
    case Nil
    then show ?thesis using 2 by auto
  next
    case (Cons q qs)
    then show ?thesis using requires_occurs(1) [OF "2.prems"(1), of q "(pr, c # cs)"] by auto
  qed
qed simp

lemma chunks_runes: "map fst (chunks s) = decode_runes s"
proof (induction s rule: chunks.induct)
  case (1 s)
  then show ?case by (simp add: chunks.simps [of s] decode_runes.simps [of s])
qed

text \<open>Text without white space, \<open>=\<close> and \<open>:\<close> is never sensitive.\<close>

definition plain_rune :: "rune \<Rightarrow> bool" where
  "plain_rune r \<longleftrightarrow> \<not> white r \<and> r \<noteq> 0x3A \<and> r \<noteq> 0x3D"

lemma requires_lit: "c \<in> set s \<Longrightarrow> (\<And>r. fold_eq c r \<Longrightarrow> P r) \<Longrightarrow> requires P (lit s)"
  by (auto simp: lit_def)

lemma fold_colon: "fold_eq (CHR '':'') r \<longleftrightarrow> r = 0x3A"
  by (auto simp: fold_eq_def lower_rune_def)

lemma patterns_require:
  "requires (\<lambda>r. \<not> plain_rune r) sensitiveKeyValuePattern"
  "requires (\<lambda>r. \<not> plain_rune r) credentialURLPattern"
  "requires (\<lambda>r. \<not> plain_rune r) authorizationPattern"
  "requires (\<lambda>r. \<not> plain_rune r) providerKeyPhrasePattern"
  "requires (\<lambda>r. \<not> plain_rune r) urlPattern"
proof -
  have colon: "requires (\<lambda>r. \<not> plain_rune r) (lit s)" if "CHR '':'' \<in> set s" for s
    using that by (rule requires_lit) (simp add: fold_colon plain_rune_def)
  have white: "requires (\<lambda>r. \<not> plain_rune r) (many1 white)"
    by (simp add: many1_def plain_rune_def)
  have sep: "requires (\<lambda>r. \<not> plain_rune r) (Cls (one_of ''=:''))"
    by (simp add: one_of_def plain_rune_def)
  show "requires (\<lambda>r. \<not> plain_rune r) sensitiveKeyValuePattern"
    using sep unfolding sensitiveKeyValuePattern_def by (simp only: requires.simps) auto
  show "requires (\<lambda>r. \<not> plain_rune r) credentialURLPattern"
    using colon [of "''://''"] unfolding credentialURLPattern_def by simp
  show "requires (\<lambda>r. \<not> plain_rune r) authorizationPattern"
    using white unfolding authorizationPattern_def by simp
  show "requires (\<lambda>r. \<not> plain_rune r) providerKeyPhrasePattern"
    using white unfolding providerKeyPhrasePattern_def by simp
  show "requires (\<lambda>r. \<not> plain_rune r) urlPattern"
    using colon [of "''://''"] unfolding urlPattern_def by simp
qed

lemma plain_text_not_sensitive:
  assumes "list_all plain_rune (decode_runes s)"
  shows "\<not> sensitive_text U s"
proof -
  have none: "\<not> (\<exists>c \<in> set (chunks s). \<not> plain_rune (fst c))"
    using assms by (auto simp: list_all_iff simp flip: chunks_runes)
  note pr = patterns_require [THEN search_occurs]
  have "find_all urlPattern None (chunks s) = []"
    using none find_all_occurs [OF patterns_require(5)] by blast
  then show ?thesis
    using none pr(1-4) unfolding sensitive_text_def match_string_def containsCredentialURL_def by force
qed

lemma redacted_not_sensitive: "\<not> sensitive_text U redactedValue"
  by (rule plain_text_not_sensitive)
     (simp add: redactedValue_def decode_runes_ascii plain_rune_def white_def)

lemma Sanitize_range: "SanitizeErrorString U s = s \<or> SanitizeErrorString U s = redactedValue"
  by (simp add: SanitizeErrorString_def)

lemma Sanitize_idem [simp]: "SanitizeErrorString U (SanitizeErrorString U s) = SanitizeErrorString U s"
  by (simp add: SanitizeErrorString_def redacted_not_sensitive)

lemma Sanitize_not_sensitive [simp]: "\<not> sensitive_text U (SanitizeErrorString U s)"
  by (simp add: SanitizeErrorString_def redacted_not_sensitive)

section \<open>A named secret is redacted\<close>

text \<open>ASCII text is cut into its bytes, and cutting stops at an ASCII byte.\<close>

definition ascii :: "string \<Rightarrow> bool" where
  "ascii s \<longleftrightarrow> list_all (\<lambda>c. byte c < 0x80) s"

lemma decode_rune_before_ascii:
  assumes "byte c < 0x80" "t \<noteq> []"
  shows "decode_rune (t @ c # s) = decode_rune t"
proof -
  have c: "\<not> continuation c" "\<not> second_ok b (byte c)" for b
    using assms(1) by (auto simp: continuation_def second_ok_def)
  obtain a t1 where t: "t = a # t1" using assms(2) by (cases t) auto
  show ?thesis
  proof (cases t1)
    case Nil
    then show ?thesis using c by (auto simp: t decode_rune_def Let_def split: list.splits)
  next
    case (Cons b t2)
    note t1 = this
    show ?thesis
    proof (cases t2)
      case Nil
      then show ?thesis using c by (auto simp: t t1 decode_rune_def Let_def split: list.splits)
    next
      case (Cons d t3)
      then show ?thesis using c
        by (cases t3) (auto simp: t t1 decode_rune_def Let_def split: list.splits)
    qed
  qed
qed

lemma decode_rune_width_le: "t \<noteq> [] \<Longrightarrow> snd (decode_rune t) \<le> length t"
  by (auto simp: decode_rune_def Let_def split: list.splits)

lemma chunks_append_ascii:
  "byte c < 0x80 \<Longrightarrow> chunks (t @ c # s) = chunks t @ chunks (c # s)"
proof (induction t rule: chunks.induct)
  case (1 t)
  show ?case
  proof (cases "t = []")
    case True
    then show ?thesis by (simp add: chunks.simps [of "[]"])
  next
    case False
    note d = decode_rune_before_ascii [OF 1(2) False, of s]
    have le: "snd (decode_rune t) \<le> length t" by (rule decode_rune_width_le [OF False])
    have "chunks (t @ c # s)
        = (fst (decode_rune t), take (snd (decode_rune t)) t) # chunks (drop (snd (decode_rune t)) t @ c # s)"
      using False le by (simp add: chunks.simps [of "t @ c # s"] d)
    also have "\<dots> = chunks t @ chunks (c # s)"
      using 1(1) [OF False 1(2)] False by (simp add: chunks.simps [of t])
    finally show ?thesis .
  qed
qed

definition ascii_chunks :: "string \<Rightarrow> chunk list" where
  "ascii_chunks s = map (\<lambda>c. (byte c, [c])) s"

lemma chunks_ascii: "ascii s \<Longrightarrow> chunks (s @ t) = ascii_chunks s @ chunks t"
proof (induction s)
  case (Cons c s)
  then show ?case
    by (simp add: ascii_def ascii_chunks_def chunks.simps [of "c # s @ t"] decode_rune_ascii)
qed (simp add: ascii_chunks_def)

text \<open>Rules that build a match.\<close>

lemma in_ends_Many: "(pr, cs) \<in> set (ends (Many p) (pr, cs))"
  by (cases cs) simp_all

lemma in_ends_seq: "q1 \<in> set (ends r q) \<Longrightarrow> q2 \<in> set (ends_seq rs q1) \<Longrightarrow> q2 \<in> set (ends_seq (r # rs) q)"
  by auto

lemma skip_Many: "q2 \<in> set (ends_seq rs q) \<Longrightarrow> q2 \<in> set (ends_seq (Many p # rs) q)"
  using in_ends_Many [of "fst q" "snd q" p] by (intro in_ends_seq) simp_all

lemma skip_Opt: "q2 \<in> set (ends_seq rs q) \<Longrightarrow> q2 \<in> set (ends_seq (Opt r # rs) q)"
  by (rule in_ends_seq) simp_all

lemma in_ends_alt: "r \<in> set rs \<Longrightarrow> q' \<in> set (ends r q) \<Longrightarrow> q' \<in> set (ends (Alt rs) q)"
  by (induction rs) auto

fun after :: "rune option \<Rightarrow> string \<Rightarrow> rune option" where
  "after pr [] = pr"
| "after pr (c # s) = after (Some (byte c)) s"

lemma in_ends_lit:
  assumes "list_all (\<lambda>c. fold_eq c (byte c)) s"
  shows "(after pr s, cs) \<in> set (ends (lit s) (pr, ascii_chunks s @ cs))"
proof -
  have "(after pr s, cs) \<in> set (ends_seq (map (\<lambda>c. Cls (fold_eq c)) s) (pr, ascii_chunks s @ cs))"
    using assms by (induction s arbitrary: pr) (auto simp: ascii_chunks_def)
  then show ?thesis by (simp add: lit_def)
qed

lemma search_append: "(\<And>pr'. search r pr' cs) \<Longrightarrow> search r pr (as @ cs)"
  by (induction as arbitrary: pr) auto

definition markers :: "string list" where
  "markers = [''authorization'', ''password'', ''secret'', ''token'', ''apikey'', ''credential'',
     ''mcp_auth'', ''webhook'']"

lemma marker_ends:
  assumes "k \<in> set markers"
  shows "(after pr k, cs) \<in> set (ends key_markers (pr, ascii_chunks k @ cs))"
proof -
  have f: "list_all (\<lambda>c. fold_eq c (byte c)) k"
    using assms by (auto simp: markers_def fold_eq_def lower_rune_def)
  have "lit k \<in> set [Seq [lit ''api'', separator, lit ''key''], lit ''authorization'',
      Seq [lit ''mcp'', separator, Alt [lit ''auth'', lit ''token'']],
      lit ''password'', lit ''secret'', lit ''token'', Seq [lit ''webhook'', separator, lit ''url''],
      lit ''apikey'', lit ''credential'', lit ''mcp_auth'', lit ''webhook'']"
    using assms by (auto simp: markers_def)
  then show ?thesis unfolding key_markers_def by (rule in_ends_alt) (rule in_ends_lit [OF f])
qed

lemma separator_ends:
  "sep \<in> {[], ''_'', ''-''} \<Longrightarrow> (after pr sep, cs) \<in> set (ends separator (pr, ascii_chunks sep @ cs))"
  by (auto simp: separator_def one_of_def ascii_chunks_def)

lemma ascii_chunks_append [simp]: "ascii_chunks (s @ t) = ascii_chunks s @ ascii_chunks t"
  by (simp add: ascii_chunks_def)

lemma api_key_ends:
  assumes "sep \<in> {[], ''_'', ''-''}"
  shows "(after (after (after pr ''api'') sep) ''key'', cs)
    \<in> set (ends key_markers (pr, ascii_chunks (''api'' @ sep @ ''key'') @ cs))"
proof -
  have f: "list_all (\<lambda>c. fold_eq c (byte c)) ''api''" "list_all (\<lambda>c. fold_eq c (byte c)) ''key''"
    by (simp_all add: fold_eq_def lower_rune_def)
  have "(after (after (after pr ''api'') sep) ''key'', cs)
    \<in> set (ends_seq [lit ''api'', separator, lit ''key'']
         (pr, ascii_chunks ''api'' @ ascii_chunks sep @ ascii_chunks ''key'' @ cs))"
    by (rule in_ends_seq [OF in_ends_lit [OF f(1)]], rule in_ends_seq [OF separator_ends [OF assms]],
        rule in_ends_seq [OF in_ends_lit [OF f(2)]]) simp
  then show ?thesis unfolding key_markers_def
    by (intro in_ends_alt [of "Seq [lit ''api'', separator, lit ''key'']"]) (simp_all only: ends.simps list.set insertI1 ascii_chunks_append append_assoc)
qed

text \<open>The keys an error text may name a secret by.\<close>

definition secret_keys :: "string list" where
  "secret_keys = [''api_key'', ''api-key'', ''apikey'', ''authorization'', ''password'', ''secret'',
     ''token'', ''credential'', ''mcp_auth'', ''webhook'']"

lemma secret_key_ends:
  assumes "k \<in> set secret_keys"
  shows "\<exists>pr'. (pr', cs) \<in> set (ends key_markers (pr, ascii_chunks k @ cs))"
proof -
  have "k \<in> set markers \<or> (\<exists>sep \<in> {[], ''_'', ''-''}. k = ''api'' @ sep @ ''key'')"
    using assms by (auto simp: secret_keys_def markers_def)
  then show ?thesis using marker_ends api_key_ends by blast
qed

text \<open>
  C17.  A named secret never survives.  Whatever text comes before it, a key of the list, then an equals
  sign or a colon, then a value that starts with a rune that is neither a space nor a comma or a
  semicolon, turns the whole text into the redaction mark, whatever else the value holds.
\<close>

theorem secret_key_value_redacted:
  assumes "k \<in> set secret_keys" "e \<in> set ''=:''" "v \<noteq> []" "value_rune (fst (decode_rune v))"
  shows "SanitizeErrorString U (pre @ k @ [e] @ v) = redactedValue"
proof -
  have asc: "ascii (k @ [e])" "k \<noteq> []" using assms(1,2) by (auto simp: secret_keys_def ascii_def)
  let ?tail = "chunks v"
  obtain r b vs where v: "?tail = (r, b) # vs" "value_rune r"
    using assms(3,4) by (simp add: chunks.simps [of v])
  have "search sensitiveKeyValuePattern pr (ascii_chunks (k @ [e]) @ ?tail)" for pr
  proof -
    obtain pr1 where k: "(pr1, ascii_chunks [e] @ ?tail)
        \<in> set (ends key_markers (pr, ascii_chunks k @ ascii_chunks [e] @ ?tail))"
      using secret_key_ends [OF assms(1)] by blast
    have e: "one_of ''=:'' (byte e)" using assms(2) by (auto simp: one_of_def)
    have "(Some r, vs) \<in> set (ends_seq [Many white, many1 value_rune] (Some (byte e), ?tail))"
      by (rule in_ends_seq [OF in_ends_Many])
         (use v(2) in_ends_Many [of "Some r" vs value_rune] in \<open>auto simp: v(1) many1_def\<close>)
    moreover have "(Some (byte e), ?tail) \<in> set (ends (Cls (one_of ''=:'')) (pr1, ascii_chunks [e] @ ?tail))"
      by (simp add: e ascii_chunks_def)
    ultimately have "(Some r, vs) \<in> set (ends_seq [Cls (one_of ''=:''), Many white, many1 value_rune]
        (pr1, ascii_chunks [e] @ ?tail))"
      by (rule in_ends_seq [rotated])
    then have "(Some r, vs) \<in> set (ends_seq [Many key_rune, Opt (Cls (one_of quote_chars)), Many white,
        Cls (one_of ''=:''), Many white, many1 value_rune] (pr1, ascii_chunks [e] @ ?tail))"
      by (intro skip_Many skip_Opt)
    then have "(Some r, vs) \<in> set (ends_seq [Opt (Cls (one_of quote_chars)), Many key_rune, key_markers, Many key_rune,
        Opt (Cls (one_of quote_chars)), Many white, Cls (one_of ''=:''), Many white, many1 value_rune]
        (pr, ascii_chunks k @ ascii_chunks [e] @ ?tail))"
      by (rule skip_Opt [OF skip_Many [OF in_ends_seq [OF k]]])
    then have "ends sensitiveKeyValuePattern (pr, ascii_chunks (k @ [e]) @ ?tail) \<noteq> []"
      unfolding sensitiveKeyValuePattern_def by (metis ascii_chunks_append append_assoc ends.simps(4) empty_iff list.set(1))
    then show ?thesis using asc(2) by (cases k) (simp_all add: ascii_chunks_def)
  qed
  moreover obtain c s where ks: "k @ [e] @ v = c # s" "byte c < 0x80"
    using asc by (cases k) (auto simp: ascii_def)
  have "chunks (pre @ k @ [e] @ v) = chunks pre @ chunks (k @ [e] @ v)"
    unfolding ks(1) by (rule chunks_append_ascii [OF ks(2)])
  then have "chunks (pre @ k @ [e] @ v) = chunks pre @ ascii_chunks (k @ [e]) @ ?tail"
    using chunks_ascii [OF asc(1), of v] by simp
  ultimately have "match_string sensitiveKeyValuePattern (pre @ k @ [e] @ v)"
    by (simp only: match_string_def) (rule search_append)
  then show ?thesis by (simp add: SanitizeErrorString_def sensitive_text_def)
qed

lemma secret_key_value_redacted_witness:
  "SanitizeErrorString (\<lambda>s. None) (''x: '' @ ''token'' @ [CHR ''=''] @ ''abc'') = redactedValue"
  by (rule secret_key_value_redacted)
     (simp_all add: secret_keys_def decode_rune_ascii value_rune_def white_def one_of_def)

text \<open>
  The redacted text is safe and stable: it is the text itself or the mark, no pattern matches it, and
  redacting it again changes nothing.
\<close>

lemma SanitizeErrorString_safe:
  "\<not> sensitive_text U (SanitizeErrorString U s) \<and>
   SanitizeErrorString U (SanitizeErrorString U s) = SanitizeErrorString U s \<and>
   SanitizeErrorString U s = (if sensitive_text U s then redactedValue else s)"
  by (simp add: SanitizeErrorString_def redacted_not_sensitive)

end
