(* ===== verification/Domain.thy ===== *)
theory Domain
  imports Go_Json Redact
begin

text \<open>
  The data that crosses the components: the messages of internal/llm, the audit rows of
  internal/store, the Profile of internal/profile, and the boundary of the program, that is, the
  functions the program calls outside the repository and the events that record those calls.
\<close>

section \<open>Model port (internal/llm/model.go)\<close>

text \<open>\<open>Role\<close> is a string type with four named values.\<close>

type_synonym role = string

definition RoleSystem :: role where "RoleSystem = ''system''"
definition RoleUser :: role where "RoleUser = ''user''"
definition RoleAssistant :: role where "RoleAssistant = ''assistant''"
definition RoleTool :: role where "RoleTool = ''tool''"

lemmas role_defs = RoleSystem_def RoleUser_def RoleAssistant_def RoleTool_def

lemma roles_distinct [simp]:
  "RoleSystem \<noteq> RoleUser" "RoleUser \<noteq> RoleSystem" "RoleAssistant \<noteq> RoleUser" "RoleUser \<noteq> RoleAssistant"
  "RoleTool \<noteq> RoleUser" "RoleUser \<noteq> RoleTool" "RoleTool \<noteq> RoleSystem" "RoleSystem \<noteq> RoleTool"
  "RoleTool \<noteq> RoleAssistant" "RoleAssistant \<noteq> RoleTool" "RoleSystem \<noteq> RoleAssistant"
  "RoleAssistant \<noteq> RoleSystem"
  by (simp_all add: role_defs)

text \<open>A \<open>map[string]any\<close>; \<open>None\<close> is the nil map.\<close>

type_synonym extra = "(string \<times> any) list option"

record function_call =
  fc_name :: string
  fc_arguments :: string

record tool_call =
  tc_index :: "int option"
  tc_id :: string
  tc_type :: string
  tc_function :: function_call
  tc_extra :: extra

record message =
  m_role :: role
  m_content :: string
  m_name :: string
  m_tool_calls :: "tool_call list"
  m_tool_call_id :: string
  m_tool_name :: string
  m_reasoning :: string
  m_extra :: extra

definition empty_message :: message where
  "empty_message = \<lparr>m_role = [], m_content = [], m_name = [], m_tool_calls = [], m_tool_call_id = [],
     m_tool_name = [], m_reasoning = [], m_extra = None\<rparr>"

text \<open>The composite literal \<open>llm.Message{Role: r, Content: c}\<close>.\<close>

definition text_message :: "role \<Rightarrow> string \<Rightarrow> message" where
  "text_message r c = empty_message\<lparr>m_role := r, m_content := c\<rparr>"

lemma text_message_fields [simp]:
  "m_role (text_message r c) = r" "m_content (text_message r c) = c" "m_name (text_message r c) = []"
  "m_tool_calls (text_message r c) = []" "m_tool_call_id (text_message r c) = []"
  "m_tool_name (text_message r c) = []" "m_reasoning (text_message r c) = []"
  "m_extra (text_message r c) = None"
  by (simp_all add: text_message_def empty_message_def)

record tool_definition =
  td_name :: string
  td_description :: string
  td_schema :: string
  td_extra :: extra

record usage =
  u_prompt :: int
  u_completion :: int
  u_total :: int

record response =
  rs_message :: message
  rs_usage :: usage
  rs_finish :: string

definition empty_response :: response where
  "empty_response = \<lparr>rs_message = empty_message,
     rs_usage = \<lparr>u_prompt = 0, u_completion = 0, u_total = 0\<rparr>, rs_finish = []\<rparr>"

record request =
  rq_messages :: "message list"
  rq_tools :: "tool_definition list"

text \<open>\<open>StreamEventKind\<close> is a string type with two named values.\<close>

definition StreamEventDelta :: string where "StreamEventDelta = ''delta''"
definition StreamEventCompleted :: string where "StreamEventCompleted = ''completed''"

record stream_event =
  se_kind :: string
  se_delta :: message
  se_response :: "response option"

definition empty_stream_event :: stream_event where
  "empty_stream_event = \<lparr>se_kind = [], se_delta = empty_message, se_response = None\<rparr>"

section \<open>Audit rows (internal/store)\<close>

record llm_call =
  lc_session :: string
  lc_provider :: string
  lc_model :: string
  lc_prompt_tokens :: int
  lc_completion_tokens :: int
  lc_total_tokens :: int
  lc_success :: bool
  lc_error :: "string option"
  lc_duration_ms :: int
  lc_created :: gotime

record tool_invocation =
  ti_session :: string
  ti_tool :: string
  ti_input :: string
  ti_result :: string
  ti_success :: bool
  ti_error :: "string option"
  ti_duration_ms :: int
  ti_created :: gotime

section \<open>Profile (internal/profile/profile.go)\<close>

text \<open>A \<open>float32\<close> is its 32 bits.\<close>

type_synonym float32 = "32 word"

record identity_config =
  id_agent_name :: string
  id_prompt :: string

record provider_selection =
  pv_name :: string
  pv_model :: string
  pv_temperature :: float32

record notify_channel =
  nc_name :: string
  nc_type :: string
  nc_url :: string

record schedule_config =
  sc_id :: string
  sc_cron :: string
  sc_timezone :: string
  sc_message :: string
  sc_enabled :: bool

record channel_config =
  ch_name :: string
  ch_config :: extra

record settings_config =
  st_max_iterations :: int
  st_max_history :: int

record profile =
  p_name :: string
  p_description :: string
  p_identity :: identity_config
  p_provider :: provider_selection
  p_tools :: "string list"
  p_skills :: "string list"
  p_mcp_servers :: "string list"
  p_notify :: "notify_channel list"
  p_schedules :: "schedule_config list"
  p_channels :: "channel_config list"
  p_bootstrap :: "string list"
  p_settings :: settings_config

section \<open>The boundary\<close>

text \<open>
  The calls that leave the repository, each with what it was given: a model generation, the opening of
  a stream, receiving from and closing it, a Tool's metadata and its invocation, the two inserts into
  the database (with their result), reading Memory, resolving and saving a session, reading a Tool
  definition for the model, waiting before a retry, and a log record with its message and attributes.
\<close>

datatype event =
    EvGenerate goctx request
  | EvStreamOpen goctx request
  | EvStreamRecv
  | EvStreamClose
  | EvToolInfo string tool_definition "gerror option"
  | EvToolInvoke string string goctx
  | EvInsertLlm goctx llm_call "gerror option"
  | EvInsertTool goctx tool_invocation "gerror option"
  | EvMemoryRead string
  | EvSessionResolve string
  | EvSessionSave goctx string "message list"
  | EvSchemaInfo string
  | EvWait duration
  | EvLog string "(string \<times> any) list"

text \<open>
  The functions outside the repository that every component may use: the clock, \<open>ctx.Err()\<close>, a
  timer raced against the end of a context (true when the timer fires first), the inserts of the
  database library, \<open>url.Parse\<close>, and the text of the JSON decoder's diagnostics.
\<close>

record 'x env =
  env_now :: "'x \<Rightarrow> gotime \<times> 'x"
  env_ctx_err :: "goctx \<Rightarrow> 'x \<Rightarrow> gerror option \<times> 'x"
  env_timer :: "goctx \<Rightarrow> duration \<Rightarrow> 'x \<Rightarrow> bool \<times> 'x"
  env_insert_llm :: "goctx \<Rightarrow> llm_call \<Rightarrow> 'x \<Rightarrow> gerror option \<times> 'x"
  env_insert_tool :: "goctx \<Rightarrow> tool_invocation \<Rightarrow> 'x \<Rightarrow> gerror option \<times> 'x"
  env_url_parse :: url_parser
  env_json_error :: "string \<Rightarrow> string"

type_synonym 'x wld = "('x, event) world"

definition now :: "'x env \<Rightarrow> 'x wld \<Rightarrow> gotime \<times> 'x wld" where
  "now E = silent (env_now E)"

definition ctx_err :: "'x env \<Rightarrow> goctx \<Rightarrow> 'x wld \<Rightarrow> gerror option \<times> 'x wld" where
  "ctx_err E cx = silent (env_ctx_err E cx)"

text \<open>The clock never reads the zero time.\<close>

definition clock_set :: "'x env \<Rightarrow> bool" where
  "clock_set E \<longleftrightarrow> (\<forall>x. \<not> is_zero (fst (env_now E x)))"

lemma now_not_zero: "clock_set E \<Longrightarrow> now E w = (t, w') \<Longrightarrow> \<not> is_zero t"
  by (auto simp: clock_set_def now_def silent_def Let_def split: prod.splits dest: spec [of _ "w_ext w"])

lemma emitted_now: "now E w = (t, w') \<Longrightarrow> emitted w [] w'"
  by (simp add: now_def emitted_silent)

lemma emitted_ctx_err: "ctx_err E cx w = (e, w') \<Longrightarrow> emitted w [] w'"
  by (simp add: ctx_err_def emitted_silent)

text \<open>
  The classes of events that properties count: model calls, Tool executions, audit inserts.
\<close>

fun is_model_call :: "event \<Rightarrow> bool" where
  "is_model_call (EvGenerate cx rq) = True"
| "is_model_call (EvStreamOpen cx rq) = True"
| "is_model_call _ = False"

fun is_tool_invoke :: "event \<Rightarrow> bool" where
  "is_tool_invoke (EvToolInvoke n a cx) = True"
| "is_tool_invoke _ = False"

fun is_llm_insert :: "event \<Rightarrow> bool" where
  "is_llm_insert (EvInsertLlm cx r e) = True"
| "is_llm_insert _ = False"

fun is_tool_insert :: "event \<Rightarrow> bool" where
  "is_tool_insert (EvInsertTool cx r e) = True"
| "is_tool_insert _ = False"

definition count :: "('e \<Rightarrow> bool) \<Rightarrow> 'e list \<Rightarrow> nat" where
  "count P es = length (filter P es)"

lemma count_simps [simp]:
  "count P [] = 0"
  "count P (e # es) = (if P e then Suc (count P es) else count P es)"
  "count P (es @ es') = count P es + count P es'"
  by (simp_all add: count_def)

lemma count_zero: "count P es = 0 \<longleftrightarrow> (\<forall>e \<in> set es. \<not> P e)"
  by (simp add: count_def filter_empty_conv)

text \<open>\<open>only P w w'\<close>: every event between the two worlds is of the class \<open>P\<close>.\<close>

definition only :: "(event \<Rightarrow> bool) \<Rightarrow> 'x wld \<Rightarrow> 'x wld \<Rightarrow> bool" where
  "only P w w' \<longleftrightarrow> (\<exists>es. emitted w es w' \<and> list_all P es)"

lemma only_refl [simp, intro]: "only P w w"
  unfolding only_def by (intro exI [of _ "[]"]) simp

lemma only_trans: "only P w w' \<Longrightarrow> only P w' w'' \<Longrightarrow> only P w w''"
  unfolding only_def by (metis emitted_trans list_all_append)

lemma only_outside: "outside f ev w = (r, w') \<Longrightarrow> P (ev r) \<Longrightarrow> only P w w'"
  unfolding only_def using emitted_outside by fastforce

lemma only_mono: "only P w w' \<Longrightarrow> (\<And>e. P e \<Longrightarrow> Q e) \<Longrightarrow> only Q w w'"
  unfolding only_def by (metis list.pred_mono_strong)

end
