(* ===== verification/Session.thy ===== *)
theory Session
  imports Domain
begin

text \<open>
  internal/session/session.go: the in-memory conversation of a session, and the decomposition of a
  conversation into complete turns, which the Session and the prompt builder both cut by.
\<close>

section \<open>The session\<close>

record session =
  s_id :: string
  s_messages :: "message list"

definition Session_New :: "string \<Rightarrow> session" where
  "Session_New sid = \<lparr>s_id = sid, s_messages = []\<rparr>"

text \<open>
  The defensive copies.  A dynamic value has no identity here, so a copy is a value that must equal
  its source: the lemmas below say that the recursion of the code rebuilds every part of it.
\<close>

fun cloneValue :: "any \<Rightarrow> any" where
  "cloneValue (AObject m) = AObject (map (\<lambda>(k, v). (k, cloneValue v)) m)"
| "cloneValue (AList xs) = AList (map cloneValue xs)"
| "cloneValue v = v"

definition cloneMap :: "extra \<Rightarrow> extra" where
  "cloneMap values = (case values of None \<Rightarrow> None
     | Some m \<Rightarrow> Some (map (\<lambda>(k, v). (k, cloneValue v)) m))"

definition cloneCall :: "tool_call \<Rightarrow> tool_call" where
  "cloneCall c = c\<lparr>tc_extra := cloneMap (tc_extra c),
     tc_index := (case tc_index c of None \<Rightarrow> None | Some i \<Rightarrow> Some i)\<rparr>"

definition cloneMessage :: "message \<Rightarrow> message" where
  "cloneMessage m = m\<lparr>m_extra := cloneMap (m_extra m), m_tool_calls := map cloneCall (m_tool_calls m)\<rparr>"

definition cloneMessages :: "message list \<Rightarrow> message list" where
  "cloneMessages ms = map cloneMessage ms"

lemma cloneValue_id [simp]: "cloneValue v = v"
proof (induction v rule: cloneValue.induct)
  case (1 m)
  have "map (\<lambda>(k, v). (k, cloneValue v)) m = m"
    by (rule map_idI) (use 1 in auto)
  then show ?case by simp
next
  case (2 xs)
  then show ?case by (simp add: map_idI)
qed simp_all

lemma cloneMap_id [simp]: "cloneMap e = e"
  by (auto simp: cloneMap_def split: option.splits)

lemma cloneCall_id [simp]: "cloneCall c = c"
  by (simp add: cloneCall_def option.case_eq_if)

lemma cloneMessage_id [simp]: "cloneMessage m = m"
  by (simp add: cloneMessage_def map_idI)

lemma cloneMessages_id [simp]: "cloneMessages ms = ms"
  by (simp add: cloneMessages_def map_idI)

definition Session_Append :: "message \<Rightarrow> session option \<Rightarrow> session option" where
  "Session_Append m s = (case s of None \<Rightarrow> None
     | Some s \<Rightarrow> Some (s\<lparr>s_messages := s_messages s @ [cloneMessage m]\<rparr>))"

definition Session_Messages :: "session option \<Rightarrow> message list" where
  "Session_Messages s = (case s of None \<Rightarrow> [] | Some s \<Rightarrow> cloneMessages (s_messages s))"

definition is_user :: "message \<Rightarrow> bool" where
  "is_user m \<longleftrightarrow> m_role m = RoleUser"

text \<open>The indexes at which a user message stands: the starts of the turns.\<close>

definition turn_starts :: "message list \<Rightarrow> nat list" where
  "turn_starts ms = filter (\<lambda>i. is_user (ms ! i)) [0..<length ms]"

definition RecentTurns :: "int \<Rightarrow> session option \<Rightarrow> message list" where
  "RecentTurns limit s = (case s of None \<Rightarrow> [] | Some s \<Rightarrow>
     (if limit \<le> 0 then []
      else let starts = turn_starts (s_messages s) in
        if starts = [] then []
        else let startIndex = (if limit < int (length starts) then length starts - nat limit else 0)
          in cloneMessages (drop (starts ! startIndex) (s_messages s))))"

section \<open>Turns\<close>

text \<open>
  A conversation is a head without user messages followed by turns, each of which starts with a user
  message and has no other.
\<close>

definition turn_head :: "message list \<Rightarrow> message list" where
  "turn_head ms = takeWhile (\<lambda>m. \<not> is_user m) ms"

function turns :: "message list \<Rightarrow> message list list" where
  "turns [] = []"
| "turns (m # ms) =
     (if is_user m then (m # turn_head ms) # turns (dropWhile (\<lambda>m. \<not> is_user m) ms)
      else turns ms)"
  by pat_completeness auto
termination
  by (relation "measure length") (auto simp: less_Suc_eq_le length_dropWhile_le)

definition is_turn :: "message list \<Rightarrow> bool" where
  "is_turn t \<longleftrightarrow> (case t of [] \<Rightarrow> False | m # ms \<Rightarrow> is_user m \<and> list_all (\<lambda>m. \<not> is_user m) ms)"

lemma is_turn_nonempty [simp]: "\<not> is_turn []"
  by (simp add: is_turn_def)

lemma head_no_user: "list_all (\<lambda>m. \<not> is_user m) (turn_head ms)"
  by (auto simp: turn_head_def list_all_iff dest: set_takeWhileD)

lemma turn_head_drop [simp]: "turn_head (dropWhile (\<lambda>m. \<not> is_user m) ms) = []"
  by (induction ms) (auto simp: turn_head_def)

lemma turns_are_turns: "t \<in> set (turns ms) \<Longrightarrow> is_turn t"
proof (induction ms rule: turns.induct)
  case (2 m ms)
  show ?case
  proof (cases "is_user m")
    case True
    then have "t = m # turn_head ms \<or> t \<in> set (turns (dropWhile (\<lambda>m. \<not> is_user m) ms))"
      using "2.prems" by simp
    then show ?thesis using "2.IH"(1) [OF True] True head_no_user by (auto simp: is_turn_def)
  next
    case False
    then show ?thesis using 2 by simp
  qed
qed simp

lemma turns_cover: "turn_head ms @ concat (turns ms) = ms"
proof (induction ms rule: turns.induct)
  case (2 m ms)
  show ?case
  proof (cases "is_user m")
    case True
    let ?rest = "dropWhile (\<lambda>m. \<not> is_user m) ms"
    have "concat (turns ?rest) = ?rest" using 2(1) [OF True] by simp
    then have "turn_head ms @ concat (turns ?rest) = ms"
      by (simp add: turn_head_def takeWhile_dropWhile_id)
    with True show ?thesis by (simp add: turn_head_def [of "m # ms"])
  next
    case False
    then show ?thesis using 2(2) [OF False] by (simp add: turn_head_def)
  qed
qed (simp add: turn_head_def)

lemma turns_append_turn: "is_turn t \<Longrightarrow> turns (t @ ms) = (t @ turn_head ms) # turns (dropWhile (\<lambda>m. \<not> is_user m) ms)"
proof -
  assume "is_turn t"
  then obtain m ts where t: "t = m # ts" "is_user m" "\<forall>x \<in> set ts. \<not> is_user x"
    by (auto simp: is_turn_def list_all_iff split: list.splits)
  then show ?thesis by (simp add: turn_head_def)
qed

lemma turn_head_concat [simp]:
  assumes "list_all is_turn ts"
  shows "turn_head (concat ts) = []" "dropWhile (\<lambda>m. \<not> is_user m) (concat ts) = concat ts"
proof -
  have "concat ts = [] \<or> (\<exists>m ms. concat ts = m # ms \<and> is_user m)"
  proof (cases ts)
    case (Cons t ts')
    then have "is_turn t" using assms by simp
    then show ?thesis using Cons by (auto simp: is_turn_def split: list.splits)
  qed simp
  then have "turn_head (concat ts) = [] \<and> dropWhile (\<lambda>m. \<not> is_user m) (concat ts) = concat ts"
  proof (elim disjE exE conjE)
    assume e: "concat ts = []"
    show ?thesis unfolding e by (simp add: turn_head_def)
  next
    fix m ms assume e: "concat ts = m # ms" and u: "is_user m"
    show ?thesis unfolding e using u by (simp add: turn_head_def)
  qed
  then show "turn_head (concat ts) = []" "dropWhile (\<lambda>m. \<not> is_user m) (concat ts) = concat ts"
    by blast+
qed

lemma turns_concat [simp]: "list_all is_turn ts \<Longrightarrow> turns (concat ts) = ts"
  by (induction ts) (simp_all add: turns_append_turn)

lemma list_all_turns [simp]: "list_all is_turn (turns ms)"
  by (auto simp: list_all_iff dest: turns_are_turns)

text \<open>The starts of a list of turns are the offsets of its turns.\<close>

lemma turn_starts_append:
  "turn_starts (xs @ ys) = turn_starts xs @ map ((+) (length xs)) (turn_starts ys)"
proof -
  have "[length xs..<length xs + length ys] = map ((+) (length xs)) [0..<length ys]"
    by (rule nth_equalityI) simp_all
  then have "[0..<length (xs @ ys)] = [0..<length xs] @ map ((+) (length xs)) [0..<length ys]"
    by (simp only: length_append upt_add_eq_append [OF le0, of "length xs" "length ys"])
  then have "turn_starts (xs @ ys) = filter (\<lambda>i. is_user ((xs @ ys) ! i)) [0..<length xs]
      @ map ((+) (length xs)) (filter (\<lambda>i. is_user ((xs @ ys) ! (length xs + i))) [0..<length ys])"
    by (simp add: turn_starts_def filter_map comp_def)
  moreover have "filter (\<lambda>i. is_user ((xs @ ys) ! i)) [0..<length xs] = turn_starts xs"
    unfolding turn_starts_def by (rule filter_cong) (simp_all add: nth_append)
  ultimately show ?thesis by (simp add: turn_starts_def)
qed

lemma turn_starts_none: "list_all (\<lambda>m. \<not> is_user m) ms \<Longrightarrow> turn_starts ms = []"
  by (auto simp: turn_starts_def filter_empty_conv list_all_length)

lemma turn_starts_turn: "is_turn t \<Longrightarrow> turn_starts t = [0]"
proof -
  assume "is_turn t"
  then obtain m ts where t: "t = [m] @ ts" "is_user m" "list_all (\<lambda>m. \<not> is_user m) ts"
    by (auto simp: is_turn_def split: list.splits)
  show ?thesis unfolding t(1) turn_starts_append
    using t(2) turn_starts_none [OF t(3)] by (simp add: turn_starts_def)
qed

lemma turn_starts_concat_Cons:
  "is_turn t \<Longrightarrow> turn_starts (concat (t # ts)) = 0 # map ((+) (length t)) (turn_starts (concat ts))"
  by (simp add: turn_starts_append turn_starts_turn)

lemma length_turn_starts: "list_all is_turn ts \<Longrightarrow> length (turn_starts (concat ts)) = length ts"
proof (induction ts)
  case (Cons t ts)
  then show ?case using turn_starts_concat_Cons [of t ts] by simp
qed (simp add: turn_starts_def)

lemma drop_turn_starts:
  "list_all is_turn ts \<Longrightarrow> i < length ts \<Longrightarrow> drop (turn_starts (concat ts) ! i) (concat ts) = concat (drop i ts)"
proof (induction ts arbitrary: i)
  case (Cons t ts)
  then show ?case using turn_starts_concat_Cons [of t ts]
    by (cases i) (simp_all add: length_turn_starts)
qed simp

lemma turn_starts_turns:
  "length (turn_starts ms) = length (turns ms)"
  "i < length (turns ms) \<Longrightarrow> drop (turn_starts ms ! i) ms = concat (drop i (turns ms))"
proof -
  let ?h = "turn_head ms" and ?c = "concat (turns ms)"
  have st: "turn_starts ms = map ((+) (length ?h)) (turn_starts ?c)"
    using turn_starts_append [of ?h ?c] by (simp add: turns_cover turn_starts_none head_no_user)
  show "length (turn_starts ms) = length (turns ms)"
    by (simp add: st length_turn_starts)
  assume i: "i < length (turns ms)"
  have "drop (turn_starts ms ! i) ms = drop (length ?h + turn_starts ?c ! i) (?h @ ?c)"
    using i by (simp add: turns_cover st length_turn_starts)
  then show "drop (turn_starts ms ! i) ms = concat (drop i (turns ms))"
    using i by (simp add: drop_turn_starts)
qed

text \<open>The last \<open>n\<close> turns of a conversation.\<close>

definition last_turns :: "nat \<Rightarrow> message list \<Rightarrow> message list list" where
  "last_turns n ms = drop (length (turns ms) - n) (turns ms)"

lemma RecentTurns_spec:
  "RecentTurns limit (Some s) = concat (last_turns (nat limit) (s_messages s))"
proof -
  let ?ms = "s_messages s"
  have empty: "turn_starts ?ms = [] \<longleftrightarrow> turns ?ms = []"
    using turn_starts_turns(1) [of ?ms] by (metis length_0_conv)
  have cut: "turns ?ms \<noteq> [] \<Longrightarrow> limit > 0 \<Longrightarrow>
      drop (turn_starts ?ms ! (length (turns ?ms) - nat limit)) ?ms
      = concat (drop (length (turns ?ms) - nat limit) (turns ?ms))"
    by (rule turn_starts_turns(2)) simp
  consider (none) "limit \<le> 0" | (no_turn) "0 < limit" "turns ?ms = []"
    | (some) "0 < limit" "turns ?ms \<noteq> []" "limit < int (length (turns ?ms))"
    | (all) "0 < limit" "turns ?ms \<noteq> []" "\<not> limit < int (length (turns ?ms))"
    by linarith
  then show ?thesis
  proof cases
    case all
    then have "length (turns ?ms) - nat limit = 0" by simp
    with all cut empty show ?thesis
      by (simp only: RecentTurns_def last_turns_def turn_starts_turns(1) Let_def option.case) simp
  qed (use cut empty in \<open>simp_all add: RecentTurns_def last_turns_def turn_starts_turns(1)\<close>)
qed

text \<open>
  C18.  Recent turns.  The recent turns of a session are its last complete turns, as many as asked for or
  as there are: each starts with a user message and holds no other, nothing before the first user message
  is among them, and they are the end of the conversation.
\<close>

theorem RecentTurns_are_last_turns:
  "RecentTurns limit (Some s) = concat (last_turns (nat limit) (s_messages s)) \<and>
   length (last_turns (nat limit) (s_messages s)) = min (nat limit) (length (turns (s_messages s))) \<and>
   list_all is_turn (last_turns (nat limit) (s_messages s)) \<and>
   turn_head (s_messages s) @ concat (turns (s_messages s)) = s_messages s \<and>
   (\<exists>before. s_messages s = before @ RecentTurns limit (Some s))"
proof -
  let ?ms = "s_messages s" and ?n = "length (turns (s_messages s)) - nat limit"
  have "concat (take ?n (turns ?ms)) @ concat (drop ?n (turns ?ms)) = concat (turns ?ms)"
    by (metis append_take_drop_id concat_append)
  then have "?ms = (turn_head ?ms @ concat (take ?n (turns ?ms))) @ RecentTurns limit (Some s)"
    using turns_cover [of ?ms] by (simp add: last_turns_def RecentTurns_spec)
  then have "\<exists>before. ?ms = before @ RecentTurns limit (Some s)" by blast
  moreover have "length (last_turns (nat limit) ?ms) = min (nat limit) (length (turns ?ms))"
    by (simp add: last_turns_def)
  moreover have "list_all is_turn (last_turns (nat limit) ?ms)"
    by (auto simp: last_turns_def list_all_iff dest!: in_set_dropD turns_are_turns)
  ultimately show ?thesis
    using turns_cover [of ?ms] RecentTurns_spec [of limit s] by blast
qed

text \<open>
  Appending puts the message, with every part of it, at the end of the conversation and
  changes nothing before it; a nil session ignores it.
\<close>

lemma Session_Append_extends:
  "Session_Messages (Session_Append m (Some s)) = Session_Messages (Some s) @ [m] \<and>
   s_id (the (Session_Append m (Some s))) = s_id s \<and> Session_Append m None = None"
  by (simp add: Session_Append_def Session_Messages_def)

end
