(* ===== verification/Paths.thy ===== *)
theory Paths
  imports Go_Strings "HOL-Library.Char_ord" "HOL-Library.List_Lexorder"
begin

text \<open>
  What the sources use of \<open>path/filepath\<close> on a system whose separator is the slash: \<open>Clean\<close>,
  \<open>Join\<close>, \<open>Base\<close>, \<open>Dir\<close>, \<open>Ext\<close>, \<open>IsAbs\<close>, \<open>Rel\<close>.  A path is its bytes.
\<close>

fun split_path :: "string \<Rightarrow> string list" where
  "split_path [] = [[]]"
| "split_path (c # s) =
     (if c = CHR ''/'' then [] # split_path s
      else (case split_path s of [] \<Rightarrow> [[c]] | x # xs \<Rightarrow> (c # x) # xs))"

lemma split_path_nonempty [simp]: "split_path s \<noteq> []"
  by (induction s) (auto split: list.splits)

text \<open>
  The elements that are left, innermost first: an empty element and a single dot vanish, two dots take
  the element before them, and at the start of a rooted path they vanish.
\<close>

fun clean_element :: "bool \<Rightarrow> string \<Rightarrow> string list \<Rightarrow> string list" where
  "clean_element rooted e st =
     (if e = [] \<or> e = ''.'' then st
      else if e = ''..'' then
        (case st of
           [] \<Rightarrow> if rooted then [] else [''..'']
         | x # st' \<Rightarrow> if x = ''..'' then ''..'' # st else st')
      else e # st)"

definition clean_elements :: "bool \<Rightarrow> string list \<Rightarrow> string list" where
  "clean_elements rooted es = rev (fold (clean_element rooted) es [])"

definition IsAbs :: "string \<Rightarrow> bool" where
  "IsAbs p \<longleftrightarrow> has_prefix p ''/''"

definition Clean :: "string \<Rightarrow> string" where
  "Clean p = (let es = clean_elements (IsAbs p) (split_path p) in
     if IsAbs p then CHR ''/'' # join ''/'' es
     else if es = [] then ''.'' else join ''/'' es)"

text \<open>\<open>Join\<close> drops empty elements, and joins nothing to the empty path.\<close>

definition Join :: "string list \<Rightarrow> string" where
  "Join es = (let es' = filter (\<lambda>e. e \<noteq> []) es in if es' = [] then [] else Clean (join ''/'' es'))"

definition strip_slashes :: "string \<Rightarrow> string" where
  "strip_slashes p = rev (dropWhile (\<lambda>c. c = CHR ''/'') (rev p))"

definition Base :: "string \<Rightarrow> string" where
  "Base p = (if p = [] then ''.''
     else let q = strip_slashes p in if q = [] then ''/'' else last (split_path q))"

definition Dir :: "string \<Rightarrow> string" where
  "Dir p = Clean (rev (dropWhile (\<lambda>c. c \<noteq> CHR ''/'') (rev p)))"

text \<open>The suffix from the last dot of the last element, the dot included.\<close>

definition Ext :: "string \<Rightarrow> string" where
  "Ext p = (let e = last (split_path p); r = takeWhile (\<lambda>c. c \<noteq> CHR ''.'') (rev e)
            in if length r = length e then [] else CHR ''.'' # rev r)"

section \<open>Relative paths\<close>

text \<open>The elements of a cleaned path, and two lists without their common beginning.\<close>

definition elements :: "string \<Rightarrow> string list" where
  "elements p = filter (\<lambda>e. e \<noteq> []) (split_path p)"

fun strip_common :: "'a list \<Rightarrow> 'a list \<Rightarrow> 'a list \<times> 'a list" where
  "strip_common (x # xs) (y # ys) = (if x = y then strip_common xs ys else (x # xs, y # ys))"
| "strip_common xs ys = (xs, ys)"

definition Rel :: "string \<Rightarrow> string \<Rightarrow> gerror + string" where
  "Rel basepath targpath =
     (let base = Clean basepath; targ = Clean targpath;
          failed = Inl (Errorf ((''Rel: can'' @ [CHR 0x27] @ ''t make '') @ targpath @ '' relative to '' @ basepath))
      in if targ = base then Inr ''.''
         else (let b = (if base = ''.'' then [] else base) in
           if IsAbs b \<noteq> IsAbs targ then failed
           else (let (bs, ts) = strip_common (elements b) (elements targ) in
             if bs \<noteq> [] \<and> ts \<noteq> [] \<and> hd bs = ''..'' then failed
             else Inr (join ''/'' (replicate (length bs) ''..'' @ ts)))))"

lemma strip_common_prefix: "strip_common xs ys = (us, vs) \<Longrightarrow> \<exists>ps. xs = ps @ us \<and> ys = ps @ vs"
proof (induction xs ys rule: strip_common.induct)
  case (1 x xs y ys)
  then show ?case by (cases "x = y") (auto intro: exI [of _ "y # ps" for ps])
qed auto

text \<open>
  A path lies beneath a root when it is the root or goes on where the root ends.  This is what a
  relative path that does not start by going up shows.
\<close>

definition beneath :: "string \<Rightarrow> string \<Rightarrow> bool" where
  "beneath root p \<longleftrightarrow> Clean p = Clean root \<or>
     (let r = (if Clean root = ''.'' then [] else Clean root) in
      IsAbs (Clean p) = IsAbs r \<and> (\<exists>below. elements (Clean p) = elements r @ below))"

definition goes_up :: "string \<Rightarrow> bool" where
  "goes_up p \<longleftrightarrow> p = ''..'' \<or> has_prefix p ''../''"

lemma join_up: "goes_up (join ''/'' (''..'' # xs))"
  by (cases xs) (simp_all add: goes_up_def has_prefix_def)

lemma Rel_beneath:
  assumes "Rel root p = Inr r" "\<not> goes_up r"
  shows "beneath root p"
proof (cases "Clean p = Clean root")
  case False
  let ?b = "if Clean root = ''.'' then [] else Clean root"
  obtain bs ts where st: "strip_common (elements ?b) (elements (Clean p)) = (bs, ts)" by fastforce
  have abs: "IsAbs ?b = IsAbs (Clean p)" and r: "r = join ''/'' (replicate (length bs) ''..'' @ ts)"
    using assms(1) False unfolding Rel_def Let_def st by (auto split: if_splits)
  have "bs = []"
  proof (rule ccontr)
    assume "bs \<noteq> []"
    then obtain n where "length bs = Suc n" by (cases bs) auto
    then have "goes_up r" unfolding r by (simp only: replicate.simps append_Cons join_up)
    with assms(2) show False by simp
  qed
  then show ?thesis using strip_common_prefix [OF st] abs unfolding beneath_def Let_def by auto
qed (simp add: beneath_def)

end
