(* ===== verification/Snapshots.thy ===== *)
theory Snapshots
  imports Paths
begin

text \<open>
  internal/bootstrap/loader.go and internal/skill/loader.go: the texts that a Profile references, read
  once at start from below one directory.  The file system is a parameter: a family of functions, that
  is, it does not change during a load.
\<close>

section \<open>Sections and snapshots\<close>

record text_section =
  sec_reference :: string
  sec_content :: string

record snapshot =
  sn_sections :: "text_section list"

definition Bootstrap_NewSnapshot :: "text_section list \<Rightarrow> snapshot" where
  "Bootstrap_NewSnapshot sections = \<lparr>sn_sections = sections\<rparr>"

definition Bootstrap_Sections :: "snapshot \<Rightarrow> text_section list" where
  "Bootstrap_Sections snapshot = sn_sections snapshot"

definition Skill_NewSnapshot :: "text_section list \<Rightarrow> snapshot" where
  "Skill_NewSnapshot sections = \<lparr>sn_sections = sections\<rparr>"

definition Skill_Sections :: "snapshot \<Rightarrow> text_section list" where
  "Skill_Sections snapshot = sn_sections snapshot"

section \<open>The file system\<close>

text \<open>
  \<open>filepath.Abs\<close>, \<open>filepath.EvalSymlinks\<close>, \<open>os.Stat\<close> (is it a regular file?) and
  \<open>os.ReadFile\<close>.  \<open>os.IsNotExist\<close> looks into an error of the operating system, not into one
  that the program wrapped.
\<close>

record file_system =
  fs_abs :: "string \<Rightarrow> gerror + string"
  fs_eval :: "string \<Rightarrow> gerror + string"
  fs_regular :: "string \<Rightarrow> gerror + bool"
  fs_read :: "string \<Rightarrow> gerror + string"

fun IsNotExist :: "gerror \<Rightarrow> bool" where
  "IsNotExist (Sentinel s) = (s = ErrNotExist)"
| "IsNotExist (Foreign t r a es) = (\<exists>e \<in> set es. errors_is ErrNotExist e)"
| "IsNotExist _ = False"

section \<open>Below one directory\<close>

text \<open>
  Both packages have these two functions, word for word but for their messages: the name of the root,
  and the two refusals of a reference.
\<close>

definition canonical_root :: "file_system \<Rightarrow> string \<Rightarrow> string \<Rightarrow> gerror + string" where
  "canonical_root fs what root =
     (if blank root then Inl (Errorf (what @ '' root is empty''))
      else (case fs_abs fs root of
          Inl e \<Rightarrow> Inl (Wrapf (''resolve '' @ what @ '' root: '') e)
        | Inr absolute \<Rightarrow> (case fs_eval fs absolute of
            Inl e \<Rightarrow> Inl (Wrapf (''resolve '' @ what @ '' root: '') e)
          | Inr canonical \<Rightarrow> Inr canonical)))"

definition confined_path :: "file_system \<Rightarrow> string \<Rightarrow> string \<Rightarrow> string \<Rightarrow> string \<Rightarrow> gerror + string" where
  "confined_path fs malformed escapes root reference =
     (if blank reference \<or> IsAbs reference then Inl (Errorf malformed)
      else let cleaned = Clean reference in
        if cleaned = ''.'' \<or> goes_up cleaned then Inl (Errorf escapes)
        else (case fs_eval fs (Join [root, cleaned]) of
            Inl e \<Rightarrow> Inl e
          | Inr canonical \<Rightarrow> (case Rel root canonical of
              Inl e \<Rightarrow> Inl (Errorf escapes)
            | Inr relative \<Rightarrow>
                if goes_up relative then Inl (Errorf escapes)
                else (case fs_regular fs canonical of
                    Inl e \<Rightarrow> Inl e
                  | Inr regular \<Rightarrow>
                      if \<not> regular then Inl (Errorf ''reference is not a regular file'') else Inr canonical))))"

definition bootstrap_canonicalRoot :: "file_system \<Rightarrow> string \<Rightarrow> gerror + string" where
  "bootstrap_canonicalRoot fs = canonical_root fs ''workspace''"

definition bootstrap_confinedExistingPath :: "file_system \<Rightarrow> string \<Rightarrow> string \<Rightarrow> gerror + string" where
  "bootstrap_confinedExistingPath fs =
     confined_path fs ''reference must be a non-empty workspace-relative path'' ''reference escapes workspace''"

definition skill_canonicalRoot :: "file_system \<Rightarrow> string \<Rightarrow> gerror + string" where
  "skill_canonicalRoot fs = canonical_root fs ''skills''"

definition skill_confinedExistingPath :: "file_system \<Rightarrow> string \<Rightarrow> string \<Rightarrow> gerror + string" where
  "skill_confinedExistingPath fs =
     confined_path fs ''reference must be a non-empty relative path'' ''reference escapes skills root''"

section \<open>Bootstrap\<close>

definition defaultReferences :: "string list" where
  "defaultReferences = [''AGENTS.md'', ''SOUL.md'', ''USER.md'']"

fun bootstrap_sections ::
  "file_system \<Rightarrow> string \<Rightarrow> bool \<Rightarrow> string list \<Rightarrow> text_section list \<Rightarrow> gerror + text_section list" where
  "bootstrap_sections fs root defaulted [] sections = Inr sections"
| "bootstrap_sections fs root defaulted (reference # references) sections =
     (case bootstrap_confinedExistingPath fs root reference of
        Inl e \<Rightarrow>
          if defaulted \<and> IsNotExist e
          then bootstrap_sections fs root defaulted references
                 (sections @ [\<lparr>sec_reference = reference, sec_content = []\<rparr>])
          else Inl (Wrapf (''load bootstrap '' @ quote reference @ '': '') e)
      | Inr path \<Rightarrow> (case fs_read fs path of
          Inl e \<Rightarrow> Inl (Wrapf (''load bootstrap '' @ quote reference @ '': '') e)
        | Inr content \<Rightarrow>
            bootstrap_sections fs root defaulted references
              (sections @ [\<lparr>sec_reference = reference, sec_content = content\<rparr>])))"

definition Load_bootstrap :: "file_system \<Rightarrow> string \<Rightarrow> string list \<Rightarrow> gerror + snapshot" where
  "Load_bootstrap fs workspaceRoot references = (case bootstrap_canonicalRoot fs workspaceRoot of
     Inl e \<Rightarrow> Inl (Wrapf ''load bootstrap: '' e)
   | Inr root \<Rightarrow>
       (let defaulted = (references = []) in
        map_sum id Bootstrap_NewSnapshot
          (bootstrap_sections fs root defaulted (if defaulted then defaultReferences else references) [])))"

section \<open>Skills\<close>

fun skill_sections ::
  "file_system \<Rightarrow> string \<Rightarrow> string set \<Rightarrow> string list \<Rightarrow> text_section list \<Rightarrow> gerror + text_section list" where
  "skill_sections fs root seen [] sections = Inr sections"
| "skill_sections fs root seen (reference # references) sections =
     (let cleaned = Clean reference in
      if Base cleaned \<noteq> ''SKILL.md''
      then Inl (Errorf (''load skill '' @ quote reference @ '': reference must resolve to SKILL.md''))
      else if cleaned \<in> seen
      then Inl (Errorf (''load skill '' @ quote reference @ '': duplicate reference''))
      else (case skill_confinedExistingPath fs root reference of
          Inl e \<Rightarrow> Inl (Wrapf (''load skill '' @ quote reference @ '': '') e)
        | Inr path \<Rightarrow> (case fs_read fs path of
            Inl e \<Rightarrow> Inl (Wrapf (''load skill '' @ quote reference @ '': '') e)
          | Inr content \<Rightarrow>
              skill_sections fs root (insert cleaned seen) references
                (sections @ [\<lparr>sec_reference = reference, sec_content = content\<rparr>]))))"

definition Load_skills :: "file_system \<Rightarrow> string \<Rightarrow> string list \<Rightarrow> gerror + snapshot" where
  "Load_skills fs skillsRoot references = (case skill_canonicalRoot fs skillsRoot of
     Inl e \<Rightarrow> Inl (Wrapf ''load skills: '' e)
   | Inr root \<Rightarrow> map_sum id Skill_NewSnapshot (skill_sections fs root {} references []))"

section \<open>What was read\<close>

text \<open>
  A section's text is that of a regular file, which a reference that names no parent leads to, and
  which lies beneath the root after all symbolic links are resolved.
\<close>

definition confined_text :: "file_system \<Rightarrow> string \<Rightarrow> text_section \<Rightarrow> bool" where
  "confined_text fs root s \<longleftrightarrow>
     \<not> blank (sec_reference s) \<and> \<not> IsAbs (sec_reference s) \<and> \<not> goes_up (Clean (sec_reference s)) \<and>
     (\<exists>p. fs_eval fs (Join [root, Clean (sec_reference s)]) = Inr p \<and> beneath root p \<and>
        fs_regular fs p = Inr True \<and> fs_read fs p = Inr (sec_content s))"

lemma confined_path_text:
  assumes "confined_path fs malformed escapes root reference = Inr p" "fs_read fs p = Inr content"
  shows "confined_text fs root \<lparr>sec_reference = reference, sec_content = content\<rparr>"
  using assms Rel_beneath [of root p]
  by (auto simp: confined_path_def confined_text_def Let_def split: if_splits sum.splits)

lemma bootstrap_sections_read:
  assumes "bootstrap_sections fs root defaulted references sections = Inr result"
  shows "\<exists>new. result = sections @ new \<and> map sec_reference new = references \<and>
    (\<forall>s \<in> set new. confined_text fs root s \<or> defaulted \<and> sec_content s = [] \<and>
       (\<exists>e. bootstrap_confinedExistingPath fs root (sec_reference s) = Inl e \<and> IsNotExist e))"
  using assms
proof (induction references arbitrary: sections)
  case (Cons r rs)
  obtain s where s: "bootstrap_sections fs root defaulted rs (sections @ [s]) = Inr result" "sec_reference s = r"
    "confined_text fs root s \<or> defaulted \<and> sec_content s = [] \<and>
       (\<exists>e. bootstrap_confinedExistingPath fs root r = Inl e \<and> IsNotExist e)"
    using Cons.prems confined_path_text
    by (fastforce simp: bootstrap_confinedExistingPath_def split: sum.splits if_splits)
  from Cons.IH [OF s(1)] obtain new where "result = (sections @ [s]) @ new" "map sec_reference new = rs"
    "\<forall>s \<in> set new. confined_text fs root s \<or> defaulted \<and> sec_content s = [] \<and>
       (\<exists>e. bootstrap_confinedExistingPath fs root (sec_reference s) = Inl e \<and> IsNotExist e)" by blast
  with s(2,3) show ?case by (intro exI [of _ "s # new"]) simp
qed simp

lemma skill_sections_read:
  assumes "skill_sections fs root seen references sections = Inr result"
  shows "\<exists>new. result = sections @ new \<and> map sec_reference new = references \<and>
    list_all (confined_text fs root) new \<and> distinct (map (Clean \<circ> sec_reference) new) \<and>
    set (map (Clean \<circ> sec_reference) new) \<inter> seen = {} \<and>
    list_all (\<lambda>s. Base (Clean (sec_reference s)) = ''SKILL.md'') new"
  using assms
proof (induction references arbitrary: sections seen)
  case (Cons r rs)
  obtain c where c: "skill_sections fs root (insert (Clean r) seen) rs
      (sections @ [\<lparr>sec_reference = r, sec_content = c\<rparr>]) = Inr result"
    "Base (Clean r) = ''SKILL.md''" "Clean r \<notin> seen" "confined_text fs root \<lparr>sec_reference = r, sec_content = c\<rparr>"
    using Cons.prems confined_path_text
    by (fastforce simp: skill_confinedExistingPath_def Let_def split: sum.splits if_splits)
  let ?s = "\<lparr>sec_reference = r, sec_content = c\<rparr>"
  from Cons.IH [OF c(1)] obtain new where "result = (sections @ [?s]) @ new" "map sec_reference new = rs"
    "list_all (confined_text fs root) new" "distinct (map (Clean \<circ> sec_reference) new)"
    "set (map (Clean \<circ> sec_reference) new) \<inter> insert (Clean r) seen = {}"
    "list_all (\<lambda>s. Base (Clean (sec_reference s)) = ''SKILL.md'') new" by blast
  with c(2-4) show ?case by (intro exI [of _ "?s # new"]) (auto simp: comp_def)
qed simp

text \<open>
  C11.  Bootstrap texts are confined.  A load gives one section for every reference, in order, or for the
  three default names when there is none; each text is that of a regular file beneath the canonical root,
  whatever symbolic links the reference goes through; only a default file that does not exist gives an
  empty text instead.
\<close>

theorem Load_bootstrap_confined:
  assumes "Load_bootstrap fs workspaceRoot references = Inr snapshot"
  shows "map sec_reference (Bootstrap_Sections snapshot) =
      (if references = [] then [''AGENTS.md'', ''SOUL.md'', ''USER.md''] else references) \<and>
    (\<exists>root. bootstrap_canonicalRoot fs workspaceRoot = Inr root \<and>
      (\<forall>s \<in> set (Bootstrap_Sections snapshot). confined_text fs root s \<or>
         references = [] \<and> sec_content s = [] \<and>
         (\<exists>e. bootstrap_confinedExistingPath fs root (sec_reference s) = Inl e \<and> IsNotExist e)))"
proof -
  obtain root where root: "bootstrap_canonicalRoot fs workspaceRoot = Inr root"
    using assms by (auto simp: Load_bootstrap_def split: sum.splits)
  obtain sections where sections: "snapshot = Bootstrap_NewSnapshot sections"
    "bootstrap_sections fs root (references = []) (if references = [] then defaultReferences else references) []
      = Inr sections"
    using assms root by (auto simp: Load_bootstrap_def Let_def map_sum_Inr)
  from bootstrap_sections_read [OF sections(2)] show ?thesis
    using root sections(1)
    by (auto simp: Bootstrap_NewSnapshot_def Bootstrap_Sections_def defaultReferences_def)
qed

text \<open>
  C12.  Skill texts are confined.  A load gives one section for every reference, in order; each text is that of
  a regular file whose path, after all symbolic links, is beneath the canonical root.  The references clean to
  different paths, each named SKILL.md; it is the reference that is compared, not the file it leads to, so that
  through a symbolic link two sections may have the text of one file, or of a file with another name.
\<close>

theorem Load_skills_confined:
  assumes "Load_skills fs skillsRoot references = Inr snapshot"
  shows "map sec_reference (Skill_Sections snapshot) = references \<and> distinct (map Clean references) \<and>
    list_all (\<lambda>r. Base (Clean r) = ''SKILL.md'') references \<and>
    (\<exists>root. skill_canonicalRoot fs skillsRoot = Inr root \<and> list_all (confined_text fs root) (Skill_Sections snapshot))"
proof -
  obtain root where root: "skill_canonicalRoot fs skillsRoot = Inr root"
    using assms by (auto simp: Load_skills_def split: sum.splits)
  obtain sections where sections: "snapshot = Skill_NewSnapshot sections"
    "skill_sections fs root {} references [] = Inr sections"
    using assms root by (auto simp: Load_skills_def map_sum_Inr)
  from skill_sections_read [OF sections(2)] show ?thesis
    using root sections(1)
    by (auto simp: Skill_NewSnapshot_def Skill_Sections_def list_all_iff)
qed

section \<open>Examples\<close>

definition demo_files :: file_system where
  "demo_files = \<lparr>fs_abs = Inr, fs_eval = (\<lambda>p. if p = ''/w/USER.md'' then Inl (Sentinel ErrNotExist) else Inr p),
     fs_regular = (\<lambda>p. Inr True), fs_read = (\<lambda>p. Inr ''text'')\<rparr>"

lemma demo_clean: "Clean ''SKILL.md'' = ''SKILL.md''" "Clean ''SOUL.md'' = ''SOUL.md''" "Clean ''/w'' = ''/w''"
  "Clean ''/w/SKILL.md'' = ''/w/SKILL.md''" "Clean ''/w/SOUL.md'' = ''/w/SOUL.md''"
  by (simp_all add: Clean_def clean_elements_def IsAbs_def has_prefix_def)

lemma demo_not_blank: "\<not> blank ''/w''" "\<not> blank ''SKILL.md''" "\<not> blank ''SOUL.md''"
  by (rule not_blank_Cons; simp)+

lemmas demo_file_defs = demo_files_def confined_path_def canonical_root_def Join_def Rel_def elements_def IsAbs_def
  has_prefix_def goes_up_def Base_def strip_slashes_def demo_clean demo_not_blank Let_def

theorem Load_skills_confined_witness:
  "\<exists>snapshot. Load_skills demo_files ''/w'' [''SKILL.md''] = Inr snapshot \<and>
     map sec_reference (Skill_Sections snapshot) = [''SKILL.md'']"
proof -
  have "\<exists>snapshot. Load_skills demo_files ''/w'' [''SKILL.md''] = Inr snapshot"
    by (simp add: Load_skills_def skill_canonicalRoot_def skill_confinedExistingPath_def demo_file_defs)
  then show ?thesis using Load_skills_confined by blast
qed

theorem Load_bootstrap_confined_witness:
  "\<exists>snapshot. Load_bootstrap demo_files ''/w'' [''SOUL.md''] = Inr snapshot \<and>
     map sec_reference (Bootstrap_Sections snapshot) = [''SOUL.md'']"
proof -
  obtain snapshot where run: "Load_bootstrap demo_files ''/w'' [''SOUL.md''] = Inr snapshot"
    by (simp add: Load_bootstrap_def bootstrap_canonicalRoot_def bootstrap_confinedExistingPath_def demo_file_defs)
  from Load_bootstrap_confined [OF run] run show ?thesis by auto
qed

end
