(* ===== verification/Profiles.thy ===== *)
theory Profiles
  imports Domain Session Paths
begin

text \<open>
  internal/profile: loading a directory of Profile files into one immutable registry.  The file system,
  the environment and the YAML decoder are outside; everything between them is here.
\<close>

section \<open>The registry\<close>

text \<open>A registry maps names to Profiles and lists the names in the order of registration.\<close>

record profile_registry =
  pr_profiles :: "(string \<times> profile) list"
  pr_names :: "string list"

definition cloneConfigValue :: "any \<Rightarrow> any" where
  "cloneConfigValue = cloneValue"

definition cloneChannels :: "channel_config list \<Rightarrow> channel_config list" where
  "cloneChannels channels = map (\<lambda>channel. (case ch_config channel of
      None \<Rightarrow> channel
    | Some m \<Rightarrow> channel\<lparr>ch_config := Some (map (\<lambda>(k, v). (k, cloneConfigValue v)) m)\<rparr>)) channels"

definition cloneProfile :: "profile \<Rightarrow> profile" where
  "cloneProfile source = source\<lparr>p_tools := [] @ p_tools source, p_skills := [] @ p_skills source,
     p_mcp_servers := [] @ p_mcp_servers source, p_notify := [] @ p_notify source,
     p_schedules := [] @ p_schedules source, p_channels := cloneChannels (p_channels source),
     p_bootstrap := [] @ p_bootstrap source\<rparr>"

lemma cloneChannels_id [simp]: "cloneChannels cs = cs"
proof -
  have "map (\<lambda>(k, v). (k, cloneValue v)) m = m" for m :: "(string \<times> any) list"
    by (rule map_idI) auto
  then show ?thesis
    unfolding cloneChannels_def by (intro map_idI) (auto simp: cloneConfigValue_def split: option.splits)
qed

lemma cloneProfile_id [simp]: "cloneProfile p = p"
  by (simp add: cloneProfile_def)

lemma map_option_cloneProfile [simp]: "map_option cloneProfile x = x"
  by (cases x) simp_all

definition newRegistry :: "(string \<times> profile) list \<Rightarrow> string list \<Rightarrow> profile_registry" where
  "newRegistry profiles names =
     \<lparr>pr_profiles = map (\<lambda>(name, p). (name, cloneProfile p)) profiles, pr_names = [] @ names\<rparr>"

definition Get :: "profile_registry option \<Rightarrow> string \<Rightarrow> profile option" where
  "Get registry name = (case registry of None \<Rightarrow> None
     | Some r \<Rightarrow> map_option cloneProfile (map_of (pr_profiles r) name))"

definition Len :: "profile_registry option \<Rightarrow> nat" where
  "Len registry = (case registry of None \<Rightarrow> 0 | Some r \<Rightarrow> length (pr_profiles r))"

text \<open>An entry is nil when its name has no Profile.\<close>

definition List_profiles :: "profile_registry option \<Rightarrow> profile option list" where
  "List_profiles registry = (case registry of None \<Rightarrow> []
     | Some r \<Rightarrow> map (\<lambda>name. map_option cloneProfile (map_of (pr_profiles r) name)) (pr_names r))"

section \<open>Validation\<close>

record raw_profile =
  rp_name :: string
  rp_description :: string
  rp_identity :: identity_config
  rp_provider_name :: string
  rp_provider_model :: string
  rp_temperature :: "float32 option"
  rp_tools :: "string list"
  rp_skills :: "string list"
  rp_mcp_servers :: "string list"
  rp_notify :: "notify_channel list"
  rp_schedules :: "schedule_config list"
  rp_channels :: "channel_config list"
  rp_bootstrap :: "string list"
  rp_max_iterations :: "int option"
  rp_max_history :: "int option"

text \<open>The single-precision 0.7, and the values whose exponent bits are all set.\<close>

definition defaultTemperature :: float32 where "defaultTemperature = 0x3F333333"
definition defaultMaxIterations :: int where "defaultMaxIterations = 10"
definition defaultMaxHistoryTurns :: int where "defaultMaxHistoryTurns = 20"

definition not_finite :: "float32 \<Rightarrow> bool" where
  "not_finite f \<longleftrightarrow> take_bit 8 (drop_bit 23 f) = 255"

definition validateProfile :: "raw_profile \<Rightarrow> string list \<Rightarrow> gerror + profile" where
  "validateProfile raw declaredProviders =
     (let name = trim_space (rp_name raw);
          providerName = trim_space (rp_provider_name raw);
          modelName = trim_space (rp_provider_model raw);
          temperature = (case rp_temperature raw of None \<Rightarrow> defaultTemperature | Some t \<Rightarrow> t);
          maxIterations = (case rp_max_iterations raw of None \<Rightarrow> defaultMaxIterations | Some n \<Rightarrow> n);
          maxHistoryTurns = (case rp_max_history raw of None \<Rightarrow> defaultMaxHistoryTurns | Some n \<Rightarrow> n)
      in if name = [] then Inl (Errorf ''name must not be empty'')
         else if providerName = [] then Inl (Errorf ''provider.name must not be empty'')
         else if providerName \<notin> set declaredProviders
           then Inl (Errorf (''provider.name '' @ quote providerName @ '' is undeclared''))
         else if modelName = [] then Inl (Errorf ''provider.model must not be empty'')
         else if not_finite temperature then Inl (Errorf ''provider.temperature must be finite'')
         else if maxIterations \<le> 0 then Inl (Errorf ''settings.max_iterations must be positive'')
         else if maxHistoryTurns \<le> 0 then Inl (Errorf ''settings.max_history_turns must be positive'')
         else Inr \<lparr>p_name = name, p_description = rp_description raw, p_identity = rp_identity raw,
             p_provider = \<lparr>pv_name = providerName, pv_model = modelName, pv_temperature = temperature\<rparr>,
             p_tools = [] @ rp_tools raw, p_skills = [] @ rp_skills raw,
             p_mcp_servers = [] @ rp_mcp_servers raw, p_notify = [] @ rp_notify raw,
             p_schedules = [] @ rp_schedules raw, p_channels = cloneChannels (rp_channels raw),
             p_bootstrap = [] @ rp_bootstrap raw,
             p_settings = \<lparr>st_max_iterations = maxIterations, st_max_history = maxHistoryTurns\<rparr>\<rparr>)"

section \<open>Environment placeholders\<close>

definition name_start :: "char \<Rightarrow> bool" where
  "name_start c \<longleftrightarrow> (65 \<le> byte c \<and> byte c \<le> 90) \<or> (97 \<le> byte c \<and> byte c \<le> 122) \<or> c = CHR ''_''"

definition name_char :: "char \<Rightarrow> bool" where
  "name_char c \<longleftrightarrow> name_start c \<or> (48 \<le> byte c \<and> byte c \<le> 57)"

text \<open>A match of \<open>\$\{([A-Za-z_][A-Za-z0-9_]*)\}\<close> at the start: the name and what follows.\<close>

definition placeholder :: "string \<Rightarrow> (string \<times> string) option" where
  "placeholder s =
     (if has_prefix s ''${'' then
        (let n = takeWhile name_char (drop 2 s); t = dropWhile name_char (drop 2 s)
         in if n \<noteq> [] \<and> name_start (hd n) \<and> has_prefix t ''}'' then Some (n, tl t) else None)
      else None)"

lemma placeholder_length: "placeholder s = Some (n, t) \<Longrightarrow> length t < length s"
proof -
  assume "placeholder s = Some (n, t)"
  then have "t = tl (dropWhile name_char (drop 2 s))" "s \<noteq> []"
    by (auto simp: placeholder_def Let_def has_prefix_append split: if_splits)
  then show ?thesis using length_dropWhile_le [of name_char "drop 2 s"] by (cases s) auto
qed

text \<open>Names are looked up from left to right, and the first that is not set ends the expansion.\<close>

function expandEnvironment :: "(string \<Rightarrow> string option) \<Rightarrow> string \<Rightarrow> gerror + string" where
  "expandEnvironment lookup s =
     (if s = [] then Inr []
      else case placeholder s of
        Some (name, rest) \<Rightarrow>
          (case lookup name of
             None \<Rightarrow> Inl (Errorf (''environment variable '' @ name @ '' is not set''))
           | Some value \<Rightarrow> map_sum id ((@) value) (expandEnvironment lookup rest))
      | None \<Rightarrow> map_sum id ((#) (hd s)) (expandEnvironment lookup (tl s)))"
  by pat_completeness auto
termination
  by (relation "measure (\<lambda>(l, s). length s)") (auto dest: placeholder_length)

declare expandEnvironment.simps [simp del]

section \<open>Loading\<close>

text \<open>
  The strict YAML decoder on a document: the decoded structure or the decoder's error, and what a second
  \<open>Decode\<close> finds after it: the end, another document, or an error.
\<close>

datatype yaml_rest = YamlEnd | YamlDocument | YamlError gerror

record loader_env =
  le_read_dir :: "string \<Rightarrow> gerror + (string \<times> bool) list"
  le_read_file :: "string \<Rightarrow> gerror + string"
  le_lookup :: "string \<Rightarrow> string option"
  le_yaml :: "string \<Rightarrow> (gerror + raw_profile) \<times> yaml_rest"
  le_url_parse :: url_parser

text \<open>A match of \<open>field ([^ ]+) not found\<close>: the first field name it captures.\<close>

function unknown_field :: "string \<Rightarrow> string option" where
  "unknown_field s =
     (if s = [] then None
      else if has_prefix s ''field '' \<and> takeWhile (\<lambda>c. c \<noteq> CHR '' '') (drop 6 s) \<noteq> [] \<and>
              has_prefix (dropWhile (\<lambda>c. c \<noteq> CHR '' '') (drop 6 s)) '' not found''
        then Some (takeWhile (\<lambda>c. c \<noteq> CHR '' '') (drop 6 s))
      else unknown_field (tl s))"
  by pat_completeness auto
termination
  by (relation "measure length") auto

declare unknown_field.simps [simp del]

definition loadFile :: "loader_env \<Rightarrow> string \<Rightarrow> string list \<Rightarrow> gerror + profile" where
  "loadFile L path declaredProviders =
     (case le_read_file L path of
        Inl e \<Rightarrow> Inl (Wrapf ''read: '' e)
      | Inr data \<Rightarrow>
          (case expandEnvironment (le_lookup L) data of
             Inl e \<Rightarrow> Inl e
           | Inr expanded \<Rightarrow>
               (case le_yaml L expanded of
                  (Inl e, _) \<Rightarrow>
                    (case unknown_field (error_text e) of
                       Some f \<Rightarrow> Inl (Errorf (''unknown field '' @ quote f))
                     | None \<Rightarrow> Inl (Errorf (''strict YAML decode: '' @
                                 SanitizeErrorString (le_url_parse L) (error_text e))))
                | (Inr raw, YamlEnd) \<Rightarrow> validateProfile raw declaredProviders
                | (Inr raw, YamlDocument) \<Rightarrow> Inl (Errorf ''must contain exactly one YAML document'')
                | (Inr raw, YamlError e) \<Rightarrow> Inl (Wrapf ''decode trailing YAML: '' e))))"

record diagnostic =
  dg_path :: string
  dg_err :: "gerror option"

definition Diagnostic_Error :: "url_parser \<Rightarrow> diagnostic \<Rightarrow> string" where
  "Diagnostic_Error U d =
     (let message = (case dg_err d of None \<Rightarrow> ''invalid profile''
                     | Some e \<Rightarrow> SanitizeErrorString U (error_text e))
      in ''profile '' @ Base (dg_path d) @ '': '' @ message)"

definition profile_paths :: "string \<Rightarrow> (string \<times> bool) list \<Rightarrow> string list" where
  "profile_paths directory entries =
     sort (map (\<lambda>e. Join [directory, fst e])
       (filter (\<lambda>e. \<not> snd e \<and> to_lower (Ext (fst e)) \<in> {''.yaml'', ''.yml''}) entries))"

text \<open>One file of the loop over the sorted paths.\<close>

definition load_one ::
  "loader_env \<Rightarrow> string list \<Rightarrow> string \<Rightarrow> (string \<times> profile) list \<times> string list \<times> diagnostic list
     \<Rightarrow> (string \<times> profile) list \<times> string list \<times> diagnostic list" where
  "load_one L declaredProviders path st = (case st of (profiles, names, diagnostics) \<Rightarrow>
     (case loadFile L path declaredProviders of
        Inl e \<Rightarrow> (profiles, names, diagnostics @ [\<lparr>dg_path = path, dg_err = Some e\<rparr>])
      | Inr loaded \<Rightarrow>
          if map_of profiles (p_name loaded) \<noteq> None
          then (profiles, names, diagnostics @ [\<lparr>dg_path = path,
                  dg_err = Some (Errorf (''duplicate profile name '' @ quote (p_name loaded)))\<rparr>])
          else (put (p_name loaded) loaded profiles, names @ [p_name loaded], diagnostics)))"

definition LoadDirectory ::
  "loader_env \<Rightarrow> string \<Rightarrow> string list \<Rightarrow> gerror + profile_registry \<times> diagnostic list" where
  "LoadDirectory L directory declaredProviders =
     (case le_read_dir L directory of
        Inl e \<Rightarrow> Inl (Wrapf ''read profile directory: '' e)
      | Inr entries \<Rightarrow>
          (let (profiles, names, diagnostics) =
                 fold (load_one L declaredProviders) (profile_paths directory entries) ([], [], [])
           in Inr (newRegistry profiles names, diagnostics)))"

section \<open>Properties of the registry\<close>

definition valid_profile :: "string list \<Rightarrow> profile \<Rightarrow> bool" where
  "valid_profile declared p \<longleftrightarrow>
     p_name p \<noteq> [] \<and> trim_space (p_name p) = p_name p \<and>
     pv_name (p_provider p) \<in> set declared \<and> pv_name (p_provider p) \<noteq> [] \<and>
     pv_model (p_provider p) \<noteq> [] \<and> \<not> not_finite (pv_temperature (p_provider p)) \<and>
     0 < st_max_iterations (p_settings p) \<and> 0 < st_max_history (p_settings p)"

lemma validateProfile_valid: "validateProfile raw declared = Inr p \<Longrightarrow> valid_profile declared p"
  by (auto simp: validateProfile_def valid_profile_def Let_def split: if_splits)

lemma loadFile_valid: "loadFile L path declared = Inr p \<Longrightarrow> valid_profile declared p"
  by (auto simp: loadFile_def validateProfile_valid split: sum.splits prod.splits yaml_rest.splits option.splits)

definition registry_ok :: "string list \<Rightarrow> (string \<times> profile) list \<Rightarrow> string list \<Rightarrow> bool" where
  "registry_ok declared profiles names \<longleftrightarrow>
     map fst profiles = names \<and> distinct names \<and>
     (\<forall>(n, p) \<in> set profiles. p_name p = n \<and> valid_profile declared p)"

lemma put_new: "map_of m k = None \<Longrightarrow> put k v m = m @ [(k, v)]"
  by (induction k v m rule: put.induct) (auto split: if_splits)

lemma load_one_ok:
  assumes "registry_ok declared profiles names" "load_one L declared path (profiles, names, ds) = (profiles', names', ds')"
  shows "registry_ok declared profiles' names' \<and> length names' + length ds' = Suc (length names + length ds)"
proof (cases "loadFile L path declared")
  case (Inr p)
  show ?thesis
  proof (cases "map_of profiles (p_name p)")
    case None
    then have "p_name p \<notin> set names" using assms(1) by (auto simp: registry_ok_def map_of_eq_None_iff)
    then show ?thesis using assms Inr None loadFile_valid [OF Inr]
      by (auto simp: load_one_def registry_ok_def put_new)
  next
    case Some
    then show ?thesis using assms Inr by (auto simp: load_one_def)
  qed
qed (use assms in \<open>auto simp: load_one_def\<close>)

lemma load_all_ok:
  assumes "registry_ok declared profiles names"
    "fold (load_one L declared) paths (profiles, names, ds) = (profiles', names', ds')"
  shows "registry_ok declared profiles' names' \<and> length names' + length ds' = length paths + length names + length ds"
  using assms
proof (induction paths arbitrary: profiles names ds)
  case (Cons path paths)
  obtain ps ns es where one: "load_one L declared path (profiles, names, ds) = (ps, ns, es)"
    by (metis prod_cases3)
  show ?case using Cons.IH [of ps ns es] Cons.prems load_one_ok [OF Cons.prems(1) one] one by simp
qed simp

lemma newRegistry_fields [simp]:
  "pr_profiles (newRegistry ps ns) = ps" "pr_names (newRegistry ps ns) = ns"
proof -
  have "map (\<lambda>(name, p). (name, cloneProfile p)) ps = ps" by (rule map_idI) auto
  then show "pr_profiles (newRegistry ps ns) = ps" "pr_names (newRegistry ps ns) = ns"
    by (simp_all add: newRegistry_def)
qed

lemma map_of_listed:
  assumes "registry_ok declared ps ns"
  shows "map (map_of ps) ns = map (Some \<circ> snd) ps"
  using assms by (auto simp: registry_ok_def intro!: map_cong map_of_is_SomeI)


definition demo_raw_profile :: raw_profile where
  "demo_raw_profile = \<lparr>rp_name = ''main'', rp_description = [], rp_identity = \<lparr>id_agent_name = [], id_prompt = []\<rparr>,
     rp_provider_name = ''deepseek'', rp_provider_model = ''m1'', rp_temperature = None, rp_tools = [''echo''],
     rp_skills = [], rp_mcp_servers = [], rp_notify = [], rp_schedules = [], rp_channels = [],
     rp_bootstrap = [], rp_max_iterations = None, rp_max_history = None\<rparr>"

definition demo_loader :: loader_env where
  "demo_loader = \<lparr>le_read_dir = (\<lambda>d. Inr [(''a.yaml'', False), (''sub'', True)]), le_read_file = (\<lambda>p. Inr ''x''),
     le_lookup = (\<lambda>n. None), le_yaml = (\<lambda>d. (Inr demo_raw_profile, YamlEnd)), le_url_parse = (\<lambda>s. None)\<rparr>"

lemma demo_trims: "trim_space ''main'' = ''main''" "trim_space ''deepseek'' = ''deepseek''" "trim_space ''m1'' = ''m1''"
  by (rule trim_space_plain [of _ "CHR ''n''" _ "''mai''"] trim_space_plain [of _ "CHR ''k''" _ "''deepsee''"]
      trim_space_plain [of _ "CHR ''1''" _ "''m''"]; simp)+

lemma demo_paths: "profile_paths ''p'' [(''a.yaml'', False), (''sub'', True)] = [''p/a.yaml'']"
  by (simp add: profile_paths_def Ext_def Let_def to_lower_def decode_runes_ascii lower_rune_def encode_rune_ascii
      Join_def Clean_def IsAbs_def has_prefix_def clean_elements_def char_of_def bit_Suc_0_iff)

lemma demo_load:
  "\<exists>reg. LoadDirectory demo_loader ''p'' [''deepseek''] = Inr (reg, []) \<and> pr_names reg = [''main'']"
  by (simp add: LoadDirectory_def demo_loader_def demo_paths load_one_def loadFile_def expandEnvironment.simps
      placeholder_def has_prefix_def validateProfile_def demo_raw_profile_def demo_trims Let_def
      not_finite_def defaultTemperature_def defaultMaxIterations_def defaultMaxHistoryTurns_def)


end
