(* ===== verification/Demo.thy ===== *)
theory Demo
  imports Domain
begin

text \<open>
  A small concrete outside world, on which the examples of the other theories evaluate the model: a
  clock that advances one millisecond at each reading, contexts that never end, a database that accepts
  every row, and a URL parser that accepts nothing.
\<close>

definition demo_env :: "nat env" where
  "demo_env = \<lparr>env_now = (\<lambda>x. (\<lparr>t_ns = 1000000 * int x + 1, t_zone = 0\<rparr>, Suc x)),
     env_ctx_err = (\<lambda>cx x. (None, x)), env_timer = (\<lambda>cx d x. (True, x)),
     env_insert_llm = (\<lambda>cx r x. (None, x)), env_insert_tool = (\<lambda>cx r x. (None, x)),
     env_url_parse = (\<lambda>s. None), env_json_error = (\<lambda>s. ''unexpected end of JSON input'')\<rparr>"

lemma demo_env_clock: "env_now demo_env x = (t, x') \<Longrightarrow> \<not> is_zero t"
  by (auto simp: demo_env_def is_zero_def)

lemma demo_clock_set: "clock_set demo_env"
  by (simp add: clock_set_def demo_env_def is_zero_def)

definition demo_ctx :: goctx where
  "demo_ctx = \<lparr>cx_root = 0, cx_detached = False, cx_timeouts = [], cx_correlation = no_correlation\<rparr>"

definition demo_world :: "nat wld" where
  "demo_world = \<lparr>w_ext = 0, w_trace = []\<rparr>"

lemma not_blank_demo: "\<not> blank ''s1''" "\<not> blank ''echo''"
  by (rule not_blank_Cons; simp)+

definition demo_tool_call :: "string \<Rightarrow> string \<Rightarrow> tool_call" where
  "demo_tool_call n a = \<lparr>tc_index = None, tc_id = ''c1'', tc_type = ''function'',
     tc_function = \<lparr>fc_name = n, fc_arguments = a\<rparr>, tc_extra = None\<rparr>"

lemma emitted_demo: "w_trace w' = es \<Longrightarrow> emitted demo_world es w'"
  by (simp add: emitted_def demo_world_def)

definition demo_llm_row :: llm_call where
  "demo_llm_row = \<lparr>lc_session = ''s1'', lc_provider = ''deepseek'', lc_model = ''m1'', lc_prompt_tokens = 1,
     lc_completion_tokens = 2, lc_total_tokens = 3, lc_success = True, lc_error = None, lc_duration_ms = 5,
     lc_created = \<lparr>t_ns = 1, t_zone = 0\<rparr>\<rparr>"

definition demo_tool_row :: tool_invocation where
  "demo_tool_row = \<lparr>ti_session = ''s1'', ti_tool = ''echo'', ti_input = ''{}'', ti_result = ''null'',
     ti_success = True, ti_error = None, ti_duration_ms = 5, ti_created = \<lparr>t_ns = 1, t_zone = 0\<rparr>\<rparr>"

lemma not_blank_names: "\<not> blank ''deepseek''" "\<not> blank ''k''" "\<not> blank ''main''" "\<not> blank ''m1''"
  by (rule not_blank_Cons; simp)+

end
