(* ===== verification/Provider_Registry.thy ===== *)
theory Provider_Registry
  imports Profiles Demo
begin

text \<open>
  internal/provider/registry.go: the factories by Provider name and the models by Profile
  name.  Connectors are built by code outside the repository, so a factory is a parameter: it reads and
  writes the world \<open>'w\<close> and returns a model or an error.
\<close>

section \<open>State\<close>

record provider_config =
  pc_name :: string
  pc_model :: string
  pc_api_key :: string
  pc_temperature :: float32

record provider_definition =
  pd_name :: string
  pd_api_key :: string

type_synonym ('m, 'w) factory = "goctx \<Rightarrow> provider_config \<Rightarrow> 'w \<Rightarrow> ('m option \<times> gerror option) \<times> 'w"

record ('m, 'w) registry =
  rg_factories :: "(string \<times> ('m, 'w) factory) list"
  rg_models :: "(string \<times> 'm) list"

definition NewRegistry :: "('m, 'w) registry" where
  "NewRegistry = \<lparr>rg_factories = [], rg_models = []\<rparr>"

text \<open>\<open>safeWrap\<close> of service.go: the cause is kept only when its text needed no redaction.\<close>

definition safeWrap :: "url_parser \<Rightarrow> string \<Rightarrow> gerror option \<Rightarrow> gerror option" where
  "safeWrap U prefix cause = (case cause of None \<Rightarrow> None
     | Some c \<Rightarrow> (let message = SanitizeErrorString U (error_text c)
                  in Some (SanitizedWrapped prefix message (if message \<noteq> error_text c then None else Some c))))"

lemma safeWrap_None [simp]: "safeWrap U p c = None \<longleftrightarrow> c = None" "safeWrap U p None = None"
  by (simp_all add: safeWrap_def Let_def split: option.splits)

lemma safeWrap_Some: "safeWrap U p c = Some e \<Longrightarrow>
  \<exists>c'. c = Some c' \<and> error_text e = p @ '': '' @ SanitizeErrorString U (error_text c')"
  by (auto simp: safeWrap_def Let_def split: option.splits)

section \<open>Operations\<close>

definition RegisterFactory ::
  "string \<Rightarrow> ('m, 'w) factory option \<Rightarrow> ('m, 'w) registry option \<Rightarrow> gerror option \<times> ('m, 'w) registry option" where
  "RegisterFactory name fac registry = (case registry of
     None \<Rightarrow> (Some (Errorf ''register provider factory: registry is nil''), None)
   | Some r \<Rightarrow>
       (let name = trim_space name in
        case fac of
          None \<Rightarrow> (Some (Errorf ''register provider factory: name and factory are required''), registry)
        | Some f \<Rightarrow>
            if name = [] then (Some (Errorf ''register provider factory: name and factory are required''), registry)
            else if map_of (rg_factories r) name \<noteq> None
              then (Some (Errorf (''register provider factory '' @ quote name @ '': duplicate'')), registry)
            else (None, Some (r\<lparr>rg_factories := put name f (rg_factories r)\<rparr>))))"

text \<open>
  \<open>BindProfile\<close> has three parts: a section under the read lock, the factory call without a lock,
  and a section under the write lock.
\<close>

definition bind_check ::
  "goctx option \<Rightarrow> profile option \<Rightarrow> provider_definition \<Rightarrow> ('m, 'w) registry \<Rightarrow> gerror + goctx \<times> profile \<times> ('m, 'w) factory" where
  "bind_check ctx selected definition r = (case ctx of
     None \<Rightarrow> Inl (Errorf ''bind profile: context is nil'')
   | Some cx \<Rightarrow> (case selected of
       None \<Rightarrow> Inl (Errorf ''bind profile: profile and profile name are required'')
     | Some p \<Rightarrow>
         if blank (p_name p) then Inl (Errorf ''bind profile: profile and profile name are required'')
         else if pv_name (p_provider p) \<noteq> pd_name definition
           then Inl (Errorf (''bind profile '' @ quote (p_name p) @ '': provider declaration mismatch''))
         else if blank (pd_api_key definition)
           then Inl (Errorf (''bind profile '' @ quote (p_name p) @ '': provider credential is empty''))
         else if map_of (rg_models r) (p_name p) \<noteq> None
           then Inl (Errorf (''bind profile '' @ quote (p_name p) @ '': duplicate model binding''))
         else (case map_of (rg_factories r) (pv_name (p_provider p)) of
                 None \<Rightarrow> Inl (Errorf (''bind profile '' @ quote (p_name p) @ '': provider factory ''
                           @ quote (pv_name (p_provider p)) @ '' not found''))
               | Some f \<Rightarrow> Inr (cx, p, f))))"

definition provider_config_for :: "profile \<Rightarrow> provider_definition \<Rightarrow> provider_config" where
  "provider_config_for p definition = \<lparr>pc_name = pd_name definition, pc_model = pv_model (p_provider p),
     pc_api_key = pd_api_key definition, pc_temperature = pv_temperature (p_provider p)\<rparr>"

definition bind_build ::
  "url_parser \<Rightarrow> goctx \<Rightarrow> profile \<Rightarrow> provider_definition \<Rightarrow> ('m, 'w) factory \<Rightarrow> 'w \<Rightarrow> (gerror + 'm) \<times> 'w" where
  "bind_build U cx p definition f w =
     (let ((configured, err), w1) = f cx (provider_config_for p definition) w in
      (case (safeWrap U (''bind profile '' @ quote (p_name p) @ '': construct provider model'') err, configured) of
         (Some e, _) \<Rightarrow> (Inl e, w1)
       | (None, None) \<Rightarrow> (Inl (Errorf (''bind profile '' @ quote (p_name p) @ '': factory returned nil model'')), w1)
       | (None, Some m) \<Rightarrow> (Inr m, w1)))"

definition bind_store :: "string \<Rightarrow> 'm \<Rightarrow> ('m, 'w) registry \<Rightarrow> gerror option \<times> ('m, 'w) registry" where
  "bind_store name m r =
     (if map_of (rg_models r) name \<noteq> None
      then (Some (Errorf (''bind profile '' @ quote name @ '': duplicate model binding'')), r)
      else (None, r\<lparr>rg_models := put name m (rg_models r)\<rparr>))"

definition BindProfile ::
  "url_parser \<Rightarrow> goctx option \<Rightarrow> profile option \<Rightarrow> provider_definition \<Rightarrow> ('m, 'w) registry option \<Rightarrow> 'w
     \<Rightarrow> gerror option \<times> ('m, 'w) registry option \<times> 'w" where
  "BindProfile U ctx selected definition registry w = (case registry of
     None \<Rightarrow> (Some (Errorf ''bind profile: registry is nil''), None, w)
   | Some r \<Rightarrow> (case bind_check ctx selected definition r of
       Inl e \<Rightarrow> (Some e, registry, w)
     | Inr (cx, p, f) \<Rightarrow>
         (let (built, w1) = bind_build U cx p definition f w in
          (case built of
             Inl e \<Rightarrow> (Some e, registry, w1)
           | Inr m \<Rightarrow> (let (e, r') = bind_store (p_name p) m r in (e, Some r', w1))))))"

text \<open>The declarations by name, or the error of the first unusable one.\<close>

fun index_definitions ::
  "provider_definition list \<Rightarrow> (string \<times> provider_definition) list \<Rightarrow> gerror + (string \<times> provider_definition) list" where
  "index_definitions [] byName = Inr byName"
| "index_definitions (d # ds) byName =
     (if blank (pd_name d) \<or> blank (pd_api_key d)
      then Inl (Errorf ''bind profiles: provider name and credential are required'')
      else if map_of byName (pd_name d) \<noteq> None
      then Inl (Errorf (''bind profiles: duplicate provider declaration '' @ quote (pd_name d)))
      else index_definitions ds (put (pd_name d) d byName))"

text \<open>
  The loop over the Profiles of a registry.  A registry that loading made has no hole, so the branch for
  a nil Profile, where the code would panic, is not taken.
\<close>

fun rebuild_models ::
  "url_parser \<Rightarrow> goctx \<Rightarrow> (string \<times> provider_definition) list \<Rightarrow> (string \<times> ('m, 'w) factory) list \<Rightarrow>
   profile option list \<Rightarrow> (string \<times> 'm) list \<Rightarrow> 'w \<Rightarrow> (gerror + (string \<times> 'm) list) \<times> 'w" where
  "rebuild_models U cx byName factories [] rebuilt w = (Inr rebuilt, w)"
| "rebuild_models U cx byName factories (None # ps) rebuilt w = (Inl (Errorf ''nil profile''), w)"
| "rebuild_models U cx byName factories (Some p # ps) rebuilt w =
     (case map_of byName (pv_name (p_provider p)) of
        None \<Rightarrow> (Inl (Errorf (''bind profile '' @ quote (p_name p) @ '': provider ''
                   @ quote (pv_name (p_provider p)) @ '' is undeclared'')), w)
      | Some definition \<Rightarrow>
          (case map_of factories (pv_name (p_provider p)) of
             None \<Rightarrow> (Inl (Errorf (''bind profile '' @ quote (p_name p) @ '': provider factory ''
                        @ quote (pv_name (p_provider p)) @ '' not found'')), w)
           | Some f \<Rightarrow>
               (let (built, w1) = bind_build U cx p definition f w in
                (case built of
                   Inl e \<Rightarrow> (Inl e, w1)
                 | Inr m \<Rightarrow> rebuild_models U cx byName factories ps (put (p_name p) m rebuilt) w1))))"

definition BindProfiles ::
  "url_parser \<Rightarrow> goctx option \<Rightarrow> profile_registry option \<Rightarrow> provider_definition list \<Rightarrow> ('m, 'w) registry option \<Rightarrow> 'w
     \<Rightarrow> gerror option \<times> ('m, 'w) registry option \<times> 'w" where
  "BindProfiles U ctx profiles definitions registry w = (case registry of
     None \<Rightarrow> (Some (Errorf ''bind profiles: registry is nil''), None, w)
   | Some r \<Rightarrow> (case ctx of
       None \<Rightarrow> (Some (Errorf ''bind profiles: context is nil''), registry, w)
     | Some cx \<Rightarrow>
         if profiles = None then (Some (Errorf ''bind profiles: profile registry is nil''), registry, w)
         else (case index_definitions definitions [] of
           Inl e \<Rightarrow> (Some e, registry, w)
         | Inr byName \<Rightarrow>
             (let (result, w1) = rebuild_models U cx byName (rg_factories r) (List_profiles profiles) [] w in
              (case result of
                 Inl e \<Rightarrow> (Some e, registry, w1)
               | Inr rebuilt \<Rightarrow> (None, Some (r\<lparr>rg_models := rebuilt\<rparr>), w1))))))"

definition Model :: "('m, 'w) registry option \<Rightarrow> string \<Rightarrow> 'm option" where
  "Model registry profileName = (case registry of None \<Rightarrow> None | Some r \<Rightarrow> map_of (rg_models r) profileName)"

section \<open>Rebuilding is all or nothing\<close>

lemma rebuild_success:
  assumes "rebuild_models U cx byName factories ps rebuilt w = (Inr models, w')"
  shows "None \<notin> set ps \<and> dom (map_of models) = dom (map_of rebuilt) \<union> (p_name \<circ> the) ` set ps"
  using assms
proof (induction ps arbitrary: rebuilt w)
  case (Cons x ps)
  show ?case
  proof (cases x)
    case None
    then show ?thesis using Cons.prems by simp
  next
    case (Some p)
    from Cons.prems obtain d f m w1 where "rebuild_models U cx byName factories ps (put (p_name p) m rebuilt) w1 = (Inr models, w')"
      by (auto simp: Some split: option.splits prod.splits sum.splits)
    from Cons.IH [OF this] show ?thesis by (auto simp: Some)
  qed
qed simp

text \<open>What a rebuilt model is: the product of the factory of the Profile's Provider.\<close>

definition built_for ::
  "url_parser \<Rightarrow> goctx \<Rightarrow> (string \<times> provider_definition) list \<Rightarrow> (string \<times> ('m, 'w) factory) list \<Rightarrow> profile \<Rightarrow> 'm \<Rightarrow> bool" where
  "built_for U cx byName factories p m \<longleftrightarrow> (\<exists>definition f w w'.
     map_of byName (pv_name (p_provider p)) = Some definition \<and> map_of factories (pv_name (p_provider p)) = Some f \<and>
     f cx (provider_config_for p definition) w = ((Some m, None), w'))"

lemma bind_build_Inr: "bind_build U cx p d f w = (Inr m, w') \<Longrightarrow> f cx (provider_config_for p d) w = ((Some m, None), w')"
  by (auto simp: bind_build_def safeWrap_def Let_def split: prod.splits option.splits)

lemma rebuild_built:
  assumes "rebuild_models U cx byName factories ps rebuilt w = (Inr models, w')"
    and "distinct (map (p_name \<circ> the) ps)" "\<forall>p \<in> set ps. p_name (the p) \<notin> dom (map_of rebuilt)"
    and "map_of models n = Some m"
  shows "map_of rebuilt n = Some m \<or> (\<exists>p. Some p \<in> set ps \<and> p_name p = n \<and> built_for U cx byName factories p m)"
  using assms
proof (induction ps arbitrary: rebuilt w)
  case (Cons x ps)
  show ?case
  proof (cases x)
    case None
    then show ?thesis using Cons.prems by simp
  next
    case (Some p)
    from Cons.prems(1) obtain d f m0 w1 where step: "map_of byName (pv_name (p_provider p)) = Some d"
      "map_of factories (pv_name (p_provider p)) = Some f" "bind_build U cx p d f w = (Inr m0, w1)"
      "rebuild_models U cx byName factories ps (put (p_name p) m0 rebuilt) w1 = (Inr models, w')"
      by (auto simp: Some split: option.splits prod.splits sum.splits)
    have built: "built_for U cx byName factories p m0"
      unfolding built_for_def using step(1,2) bind_build_Inr [OF step(3)] by blast
    have fresh: "\<forall>q \<in> set ps. p_name (the q) \<notin> dom (map_of (put (p_name p) m0 rebuilt))"
      using Cons.prems(2,3) by (auto simp: Some image_iff)
    from Cons.IH [OF step(4) _ fresh Cons.prems(4)] Cons.prems(2)
    have "map_of (put (p_name p) m0 rebuilt) n = Some m \<or>
      (\<exists>q. Some q \<in> set ps \<and> p_name q = n \<and> built_for U cx byName factories q m)" by simp
    then show ?thesis using built by (auto simp: Some split: if_splits)
  qed
qed simp

lemma index_definitions_from:
  "index_definitions ds byName = Inr byName' \<Longrightarrow> map_of byName' n = Some d \<Longrightarrow>
   map_of byName n = Some d \<or> d \<in> set ds \<and> pd_name d = n"
  by (induction ds byName rule: index_definitions.induct) (auto split: if_splits)

text \<open>
  C15.  Atomic rebuild.  \<open>BindProfiles\<close> on Profiles of distinct names either fails and leaves the
  registry as it was, or binds exactly the names of the Profiles, each to a model that the factory of the
  Profile's own Provider made from the Profile's model name and temperature and the credential declared
  for that Provider; the factories do not change.
\<close>

theorem BindProfiles_atomic:
  assumes run: "BindProfiles U (Some cx) (Some profiles) definitions (Some r) w = (e, registry', w')"
    and names: "distinct (map (p_name \<circ> the) (List_profiles (Some profiles)))"
  shows "(e \<noteq> None \<longrightarrow> registry' = Some r) \<and>
    (e = None \<longrightarrow> (\<exists>r'. registry' = Some r' \<and> rg_factories r' = rg_factories r) \<and>
      {n. Model registry' n \<noteq> None} = (p_name \<circ> the) ` set (List_profiles (Some profiles)) \<and>
      (\<forall>n m. Model registry' n = Some m \<longrightarrow>
        (\<exists>p d f v v'. Some p \<in> set (List_profiles (Some profiles)) \<and> p_name p = n \<and>
           d \<in> set definitions \<and> pd_name d = pv_name (p_provider p) \<and>
           map_of (rg_factories r) (pv_name (p_provider p)) = Some f \<and>
           f cx (provider_config_for p d) v = ((Some m, None), v'))))"
proof (cases e)
  case (Some err)
  then show ?thesis using run
    by (auto simp: BindProfiles_def split: sum.splits prod.splits)
next
  case None
  then obtain byName models where b: "index_definitions definitions [] = Inr byName"
    "rebuild_models U cx byName (rg_factories r) (List_profiles (Some profiles)) [] w = (Inr models, w')"
    "registry' = Some (r\<lparr>rg_models := models\<rparr>)"
    using run by (auto simp: BindProfiles_def split: sum.splits prod.splits)
  have built: "\<exists>p. Some p \<in> set (List_profiles (Some profiles)) \<and> p_name p = n \<and>
      built_for U cx byName (rg_factories r) p m" if "map_of models n = Some m" for n m
    using rebuild_built [OF b(2) names _ that] by auto
  have doms: "dom (map_of models) = (p_name \<circ> the) ` set (List_profiles (Some profiles))"
    using rebuild_success [OF b(2)] by simp
  have decl: "d \<in> set definitions \<and> pd_name d = n" if "map_of byName n = Some d" for n d
    using index_definitions_from [OF b(1) that] by simp
  show ?thesis using None doms
    by (auto simp: b(3) Model_def dom_def built_for_def dest!: built) (metis decl)
qed

section \<open>Interleaved binding\<close>

text \<open>
  Several goroutines bind Profiles, rebuild the models and register factories at once.  Each critical
  section is one step, and so is each factory call; any number of other steps lie between.  A pending binding is a model
  that \<open>BindProfile\<close> has built but not stored.  A pending rebuild is a call of \<open>BindProfiles\<close> with
  its copy of the factories, the Profiles it has still to build, and what it has built; \<open>rb_names\<close> keeps the
  names of all its Profiles.  The history records, oldest first, every change of the models.
\<close>

datatype 'm bind_event = Bound string 'm | Rebuilt "string list" "(string \<times> 'm) list"

record ('m, 'w) rebuild =
  rb_ctx :: goctx
  rb_byName :: "(string \<times> provider_definition) list"
  rb_factories :: "(string \<times> ('m, 'w) factory) list"
  rb_left :: "profile option list"
  rb_rebuilt :: "(string \<times> 'm) list"
  rb_names :: "string list"

record ('m, 'w) bind_state =
  bs_registry :: "('m, 'w) registry"
  bs_pending :: "(profile \<times> 'm) list"
  bs_rebuilds :: "('m, 'w) rebuild list"
  bs_history :: "'m bind_event list"

inductive bind_steps :: "url_parser \<Rightarrow> ('m, 'w) bind_state \<Rightarrow> ('m, 'w) bind_state \<Rightarrow> bool" for U where
  step_build: "\<lbrakk>bind_check ctx selected declared (bs_registry s) = Inr (cx, p, f);
      bind_build U cx p declared f w = (Inr m, w')\<rbrakk>
    \<Longrightarrow> bind_steps U s (s\<lparr>bs_pending := (p, m) # bs_pending s\<rparr>)"
| step_store: "\<lbrakk>bs_pending s = before @ (p, m) # rest; bind_store (p_name p) m (bs_registry s) = (e, r')\<rbrakk>
    \<Longrightarrow> bind_steps U s (s\<lparr>bs_registry := r', bs_pending := before @ rest,
          bs_history := bs_history s @ (if e = None then [Bound (p_name p) m] else [])\<rparr>)"
| step_register: "RegisterFactory name fac (Some (bs_registry s)) = (e, Some r')
    \<Longrightarrow> bind_steps U s (s\<lparr>bs_registry := r'\<rparr>)"
| step_rebuild_begin: "index_definitions definitions [] = Inr byName
    \<Longrightarrow> bind_steps U s (s\<lparr>bs_rebuilds := \<lparr>rb_ctx = cx, rb_byName = byName, rb_factories = rg_factories (bs_registry s),
          rb_left = List_profiles (Some profiles), rb_rebuilt = [],
          rb_names = map (p_name \<circ> the) (List_profiles (Some profiles))\<rparr> # bs_rebuilds s\<rparr>)"
| step_rebuild_one: "\<lbrakk>bs_rebuilds s = before @ rb # rest; rb_left rb = p # ps;
      rebuild_models U (rb_ctx rb) (rb_byName rb) (rb_factories rb) [p] (rb_rebuilt rb) w = (Inr rebuilt, w')\<rbrakk>
    \<Longrightarrow> bind_steps U s (s\<lparr>bs_rebuilds := before @ rb\<lparr>rb_left := ps, rb_rebuilt := rebuilt\<rparr> # rest\<rparr>)"
| step_rebuild_fail: "\<lbrakk>bs_rebuilds s = before @ rb # rest; rb_left rb = p # ps;
      rebuild_models U (rb_ctx rb) (rb_byName rb) (rb_factories rb) [p] (rb_rebuilt rb) w = (Inl err, w')\<rbrakk>
    \<Longrightarrow> bind_steps U s (s\<lparr>bs_rebuilds := before @ rest\<rparr>)"
| step_rebuild_swap: "\<lbrakk>bs_rebuilds s = before @ rb # rest; rb_left rb = []\<rbrakk>
    \<Longrightarrow> bind_steps U s (s\<lparr>bs_registry := (bs_registry s)\<lparr>rg_models := rb_rebuilt rb\<rparr>, bs_rebuilds := before @ rest,
          bs_history := bs_history s @ [Rebuilt (rb_names rb) (rb_rebuilt rb)]\<rparr>)"

text \<open>One step per Profile is what the loop of \<open>BindProfiles\<close> does, one Profile after the other.\<close>

lemma rebuild_one_by_one:
  "rebuild_models U cx byName factories (p # ps) rebuilt w = (Inr models, w') \<longleftrightarrow>
     (\<exists>next w1. rebuild_models U cx byName factories [p] rebuilt w = (Inr next, w1) \<and>
        rebuild_models U cx byName factories ps next w1 = (Inr models, w'))"
  by (cases p) (auto simp: Let_def split: option.splits sum.splits prod.splits)

text \<open>What a history of changes leaves of the models.\<close>

fun replay :: "(string \<Rightarrow> 'm option) \<Rightarrow> 'm bind_event list \<Rightarrow> string \<Rightarrow> 'm option" where
  "replay M [] = M"
| "replay M (Bound n m # es) = replay (M(n \<mapsto> m)) es"
| "replay M (Rebuilt ns ms # es) = replay (map_of ms) es"

fun bound_names :: "'m bind_event list \<Rightarrow> string list" where
  "bound_names [] = []"
| "bound_names (Bound n m # es) = n # bound_names es"
| "bound_names (Rebuilt ns ms # es) = bound_names es"

fun is_rebuild :: "'m bind_event \<Rightarrow> bool" where
  "is_rebuild (Bound n m) = False"
| "is_rebuild (Rebuilt ns ms) = True"

lemma replay_append: "replay M (es @ fs) = replay (replay M es) fs"
proof (induction es arbitrary: M)
  case (Cons e es)
  then show ?case by (cases e) (simp_all only: append_Cons replay.simps)
qed simp

text \<open>Every binding of the history found its name free.\<close>

fun found_free :: "(string \<Rightarrow> 'm option) \<Rightarrow> 'm bind_event list \<Rightarrow> bool" where
  "found_free M [] = True"
| "found_free M (Bound n m # es) = (M n = None \<and> found_free (M(n \<mapsto> m)) es)"
| "found_free M (Rebuilt ns ms # es) = found_free (map_of ms) es"

lemma found_free_append: "found_free M (es @ fs) = (found_free M es \<and> found_free (replay M es) fs)"
proof (induction es arbitrary: M)
  case (Cons e es)
  then show ?case by (cases e) (simp_all only: append_Cons replay.simps found_free.simps conj_assoc)
qed simp

lemma found_free_keeps:
  assumes "found_free M es" "\<not> list_ex is_rebuild es"
  shows "M \<subseteq>\<^sub>m replay M es \<and> distinct (bound_names es) \<and> (\<forall>n \<in> set (bound_names es). M n = None)"
  using assms
proof (induction es arbitrary: M)
  case (Cons e es)
  then obtain n m where e: "e = Bound n m" by (cases e) auto
  with Cons.prems have free: "M n = None" and rest: "found_free (M(n \<mapsto> m)) es" "\<not> list_ex is_rebuild es" by simp_all
  note IH = Cons.IH [OF rest]
  have "M \<subseteq>\<^sub>m M(n \<mapsto> m)" using free by (auto simp: map_le_def)
  then have "M \<subseteq>\<^sub>m replay M (e # es)" using IH map_le_trans unfolding e replay.simps by blast
  moreover have "n \<notin> set (bound_names es)" "\<forall>k \<in> set (bound_names es). M k = None"
    using IH by (fastforce split: if_splits)+
  ultimately show ?case using free IH by (simp add: e)
qed simp

definition bind_inv :: "(string \<Rightarrow> 'm option) \<Rightarrow> ('m, 'w) bind_state \<Rightarrow> bool" where
  "bind_inv M s \<longleftrightarrow> map_of (rg_models (bs_registry s)) = replay M (bs_history s) \<and> found_free M (bs_history s) \<and>
     (\<forall>rb \<in> set (bs_rebuilds s). set (rb_names rb) = dom (map_of (rb_rebuilt rb)) \<union> (p_name \<circ> the) ` set (rb_left rb)) \<and>
     (\<forall>ns ms. Rebuilt ns ms \<in> set (bs_history s) \<longrightarrow> dom (map_of ms) = set ns)"

lemma RegisterFactory_models:
  "RegisterFactory n f (Some r) = (e, Some r') \<Longrightarrow> rg_models r' = rg_models r"
  by (auto simp: RegisterFactory_def Let_def split: option.splits if_splits)

lemma bind_step_inv:
  assumes "bind_steps U s s'" "bind_inv M s"
  shows "bind_inv M s'"
  using assms(1)
proof (cases rule: bind_steps.cases)
  case (step_build ctx selected declared cx p f w m w')
  then show ?thesis using assms(2) by (simp add: bind_inv_def)
next
  case (step_store before p m rest e r')
  then show ?thesis using assms(2)
    by (auto simp: bind_inv_def bind_store_def replay_append found_free_append split: if_splits)
next
  case (step_register name fac e r')
  with RegisterFactory_models [OF step_register(2)] show ?thesis using assms(2) by (simp add: bind_inv_def)
next
  case (step_rebuild_begin definitions byName cx profiles)
  then show ?thesis using assms(2) by (auto simp: bind_inv_def)
next
  case (step_rebuild_one before rb rest p ps w rebuilt w')
  have "dom (map_of rebuilt) = dom (map_of (rb_rebuilt rb)) \<union> {(p_name \<circ> the) p}"
    using rebuild_success [OF step_rebuild_one(4)] by simp
  then show ?thesis using assms(2) step_rebuild_one(1-3) by (auto simp: bind_inv_def)
next
  case (step_rebuild_fail before rb rest p ps w err w')
  then show ?thesis using assms(2) by (simp add: bind_inv_def)
next
  case (step_rebuild_swap before rb rest)
  then have "dom (map_of (rb_rebuilt rb)) = set (rb_names rb)" using assms(2) by (auto simp: bind_inv_def)
  then show ?thesis using assms(2) step_rebuild_swap(1,2) by (auto simp: bind_inv_def replay_append found_free_append)
qed

text \<open>
  C16.  Whatever the interleaving of \<open>BindProfile\<close>, \<open>BindProfiles\<close> and \<open>RegisterFactory\<close>, the models are
  what the history of successful bindings and rebuilds says.  Between two rebuilds a name is bound at most once, only
  when it was free, and no bound model is replaced; a rebuild replaces all models at once, by a map
  with exactly the names of the Profiles that it was started for.
\<close>

theorem BindProfile_interleaved:
  assumes "(bind_steps U)\<^sup>*\<^sup>* s s'" and "bs_history s = []" "bs_rebuilds s = []"
  shows "Model (Some (bs_registry s')) = replay (Model (Some (bs_registry s))) (bs_history s') \<and>
    (\<forall>before after. bs_history s' = before @ after \<and> \<not> list_ex is_rebuild after \<longrightarrow>
       distinct (bound_names after) \<and>
       (\<forall>n \<in> set (bound_names after). replay (Model (Some (bs_registry s))) before n = None) \<and>
       (\<forall>n m. replay (Model (Some (bs_registry s))) before n = Some m \<longrightarrow> Model (Some (bs_registry s')) n = Some m)) \<and>
    (\<forall>ns ms. Rebuilt ns ms \<in> set (bs_history s') \<longrightarrow> dom (map_of ms) = set ns)"
proof -
  let ?M = "Model (Some (bs_registry s))"
  have model: "Model (Some r) = map_of (rg_models r)" for r :: "('a, 'b) registry" by (simp add: Model_def fun_eq_iff)
  have "bind_inv ?M s" using assms(2,3) by (simp add: bind_inv_def model)
  with assms(1) have inv: "bind_inv ?M s'"
    by (induction rule: rtranclp_induct) (auto intro: bind_step_inv)
  then have registry: "Model (Some (bs_registry s')) = replay ?M (bs_history s')"
    unfolding model by (simp add: bind_inv_def)
  have "distinct (bound_names after) \<and> (\<forall>n \<in> set (bound_names after). replay ?M before n = None) \<and>
      (\<forall>n m. replay ?M before n = Some m \<longrightarrow> Model (Some (bs_registry s')) n = Some m)"
    if "bs_history s' = before @ after" "\<not> list_ex is_rebuild after" for before after
  proof -
    have "found_free (replay ?M before) after" using inv that(1) by (simp add: bind_inv_def found_free_append)
    from found_free_keeps [OF this that(2)] show ?thesis
      unfolding registry that(1) replay_append by (auto simp: map_le_def dom_def)
  qed
  moreover have "\<forall>ns ms. Rebuilt ns ms \<in> set (bs_history s') \<longrightarrow> dom (map_of ms) = set ns"
    using inv by (simp add: bind_inv_def)
  ultimately show ?thesis using registry by simp
qed

definition demo_profile :: profile where
  "demo_profile = \<lparr>p_name = ''main'', p_description = [], p_identity = \<lparr>id_agent_name = [], id_prompt = []\<rparr>,
     p_provider = \<lparr>pv_name = ''deepseek'', pv_model = ''m1'', pv_temperature = defaultTemperature\<rparr>,
     p_tools = [''echo''], p_skills = [], p_mcp_servers = [], p_notify = [], p_schedules = [], p_channels = [],
     p_bootstrap = [], p_settings = \<lparr>st_max_iterations = 10, st_max_history = 20\<rparr>\<rparr>"

lemma demo_profile_fields [simp]:
  "p_name demo_profile = ''main''"
  "p_provider demo_profile = \<lparr>pv_name = ''deepseek'', pv_model = ''m1'', pv_temperature = defaultTemperature\<rparr>"
  "p_tools demo_profile = [''echo'']" "p_settings demo_profile = \<lparr>st_max_iterations = 10, st_max_history = 20\<rparr>"
  by (simp_all add: demo_profile_def)

definition demo_registry :: "(nat, unit) registry" where
  "demo_registry = \<lparr>rg_factories = [(''deepseek'', \<lambda>cx c w. ((Some 7, None), w))], rg_models = []\<rparr>"

definition demo_definition :: provider_definition where
  "demo_definition = \<lparr>pd_name = ''deepseek'', pd_api_key = ''k''\<rparr>"

lemma BindProfiles_atomic_witness:
  "\<exists>registry'. BindProfiles (\<lambda>s. None) (Some demo_ctx) (Some (newRegistry [(''main'', demo_profile)] [''main'']))
      [demo_definition] (Some demo_registry) () = (None, registry', ()) \<and>
    {n. Model registry' n \<noteq> None} = {''main''}"
proof -
  have listed: "List_profiles (Some (newRegistry [(''main'', demo_profile)] [''main''])) = [Some demo_profile]"
    by (simp add: List_profiles_def)
  have run: "BindProfiles (\<lambda>s. None) (Some demo_ctx) (Some (newRegistry [(''main'', demo_profile)] [''main'']))
      [demo_definition] (Some demo_registry) () =
      (None, Some (demo_registry\<lparr>rg_models := [(''main'', 7)]\<rparr>), ())"
    by (simp add: BindProfiles_def listed demo_definition_def not_blank_names demo_registry_def
        bind_build_def provider_config_for_def)
  have "distinct (map (p_name \<circ> the) (List_profiles (Some (newRegistry [(''main'', demo_profile)] [''main'']))))"
    by (simp add: listed)
  from BindProfiles_atomic [OF run this] run show ?thesis
    by (auto simp: listed)
qed

lemma BindProfile_interleaved_witness:
  "\<exists>s'. (bind_steps (\<lambda>s. None))\<^sup>*\<^sup>* \<lparr>bs_registry = demo_registry, bs_pending = [], bs_rebuilds = [], bs_history = []\<rparr> s' \<and>
     bs_history s' = [Bound ''main'' 7, Rebuilt [] []] \<and> Model (Some (bs_registry s')) = (\<lambda>n. None)"
proof -
  let ?U = "\<lambda>s::string. None :: url_parts option"
  let ?s0 = "\<lparr>bs_registry = demo_registry, bs_pending = [], bs_rebuilds = [], bs_history = []\<rparr> :: (nat, unit) bind_state"
  let ?rb = "\<lparr>rb_ctx = demo_ctx, rb_byName = [], rb_factories = rg_factories (bs_registry ?s0),
    rb_left = List_profiles (Some (newRegistry [] [])), rb_rebuilt = [],
    rb_names = map (p_name \<circ> the) (List_profiles (Some (newRegistry [] [])))\<rparr> :: (nat, unit) rebuild"
  let ?s1 = "?s0\<lparr>bs_rebuilds := ?rb # bs_rebuilds ?s0\<rparr>"
  let ?s2 = "?s1\<lparr>bs_pending := (demo_profile, 7) # bs_pending ?s1\<rparr>"
  let ?s3 = "?s2\<lparr>bs_registry := demo_registry\<lparr>rg_models := [(''main'', 7)]\<rparr>, bs_pending := [] @ [],
    bs_history := bs_history ?s2 @ (if (None :: gerror option) = None then [Bound (p_name demo_profile) 7] else [])\<rparr>"
  let ?s4 = "?s3\<lparr>bs_registry := (bs_registry ?s3)\<lparr>rg_models := rb_rebuilt ?rb\<rparr>, bs_rebuilds := [] @ [],
    bs_history := bs_history ?s3 @ [Rebuilt (rb_names ?rb) (rb_rebuilt ?rb)]\<rparr>"
  have s1: "bind_steps ?U ?s0 ?s1"
    by (rule step_rebuild_begin [where definitions = "[]"]) simp
  have s2: "bind_steps ?U ?s1 ?s2"
    by (rule step_build [where ctx = "Some demo_ctx" and selected = "Some demo_profile"
          and declared = demo_definition and f = "\<lambda>cx c w. ((Some 7, None), w)" and cx = demo_ctx and w = "()"])
       (simp_all add: bind_check_def demo_definition_def demo_registry_def not_blank_names bind_build_def)
  have s3: "bind_steps ?U ?s2 ?s3"
    by (rule step_store) (simp_all add: bind_store_def demo_registry_def)
  have s4: "bind_steps ?U ?s3 ?s4"
    by (rule step_rebuild_swap) (simp_all add: List_profiles_def newRegistry_def)
  have reach: "(bind_steps ?U)\<^sup>*\<^sup>* ?s0 ?s4" using s1 s2 s3 s4 by (meson converse_rtranclp_into_rtranclp rtranclp.rtrancl_refl)
  have "bs_history ?s4 = [Bound ''main'' 7, Rebuilt [] []]"
    by (simp add: List_profiles_def newRegistry_def)
  moreover from this have "Model (Some (bs_registry ?s4)) = (\<lambda>n. None)"
    using BindProfile_interleaved [OF reach] by simp
  ultimately show ?thesis using reach by blast
qed

end
