(* ===== verification/Prompt_Builder.thy ===== *)
theory Prompt_Builder
  imports Session Snapshots Provider_Registry
begin

text \<open>
  internal/runtime/prompt_builder.go: the messages that one model call is given, within the input budget
  of the Profile.
\<close>

section \<open>Cutting a conversation\<close>

definition defaultHistoryTurns :: int where "defaultHistoryTurns = 20"
definition maxMemoryCharacters :: nat where "maxMemoryCharacters = 4000"

text \<open>From the last user message that holds the current text on, the conversation is the current turn.\<close>

definition splitCurrentTurn :: "message list \<Rightarrow> string \<Rightarrow> message list \<times> message list" where
  "splitCurrentTurn messages currentUserMessage =
     (let after = takeWhile (\<lambda>m. \<not> (is_user m \<and> m_content m = currentUserMessage)) (rev messages) in
      if length after = length messages then (messages, [text_message RoleUser currentUserMessage])
      else let currentStart = length messages - Suc (length after)
           in (take currentStart messages, drop currentStart messages))"

definition limitCompleteTurns :: "message list \<Rightarrow> int \<Rightarrow> message list" where
  "limitCompleteTurns messages limit =
     (let starts = turn_starts messages in
      if starts = [] \<or> limit \<le> 0 then []
      else let turn = (if limit < int (length starts) then length starts - nat limit else 0)
           in drop (starts ! turn) messages)"

fun drop_turn :: "bool \<Rightarrow> message list \<Rightarrow> message list" where
  "drop_turn foundFirst [] = []"
| "drop_turn foundFirst (m # ms) =
     (if \<not> is_user m then drop_turn foundFirst ms
      else if foundFirst then m # ms
      else drop_turn True ms)"

definition dropOldestCompleteTurn :: "message list \<Rightarrow> message list" where
  "dropOldestCompleteTurn messages = drop_turn False messages"

definition historyLimit :: "profile \<Rightarrow> int" where
  "historyLimit p = (if 0 < st_max_history (p_settings p) then st_max_history (p_settings p) else defaultHistoryTurns)"

section \<open>Counting and cutting runes\<close>

definition jsonRuneCount :: "extra \<Rightarrow> nat" where
  "jsonRuneCount value = (case value of
     None \<Rightarrow> 0
   | Some m \<Rightarrow> if m = [] then 0
       else (case marshal (AObject m) of None \<Rightarrow> 0 | Some encoded \<Rightarrow> rune_count encoded))"

definition call_runes :: "tool_call \<Rightarrow> nat" where
  "call_runes c = rune_count (tc_id c) + rune_count (tc_type c) + rune_count (fc_name (tc_function c)) +
     rune_count (fc_arguments (tc_function c)) + jsonRuneCount (tc_extra c)"

definition message_runes :: "message \<Rightarrow> nat" where
  "message_runes m = rune_count (m_role m) + rune_count (m_content m) + rune_count (m_name m) +
     rune_count (m_tool_call_id m) + rune_count (m_tool_name m) + rune_count (m_reasoning m) +
     sum_list (map call_runes (m_tool_calls m)) + jsonRuneCount (m_extra m)"

definition messagesRuneCount :: "message list \<Rightarrow> nat" where
  "messagesRuneCount messages = sum_list (map message_runes messages)"

definition truncateRunes :: "string \<Rightarrow> nat \<Rightarrow> string" where
  "truncateRunes value limit =
     (if rune_count value \<le> limit then value else encode_runes (take limit (decode_runes value)))"

section \<open>The system message\<close>

definition nonEmpty :: "string list \<Rightarrow> string list" where
  "nonEmpty values = filter (\<lambda>v. \<not> blank v) values"

definition newline :: string where "newline = [CHR 0x0A]"

definition renderBootstrapSections :: "text_section list \<Rightarrow> string" where
  "renderBootstrapSections sections =
     join newline (map (\<lambda>s. ''--- BOOTSTRAP: '' @ sec_reference s @ '' ---'' @ newline @ sec_content s) sections)"

definition renderSkillSections :: "text_section list \<Rightarrow> string" where
  "renderSkillSections sections =
     join newline (map (\<lambda>s. ''--- SKILL: '' @ sec_reference s @ '' ---'' @ newline @ sec_content s) sections)"

fun classify :: "text_section list \<Rightarrow> text_section list \<times> string \<times> string \<Rightarrow> text_section list \<times> string \<times> string" where
  "classify [] acc = acc"
| "classify (s # sections) (project, persona, preferences) =
     (let name = to_upper (Base (sec_reference s)) in
      if name = ''SOUL.MD'' then classify sections (project, sec_content s, preferences)
      else if name = ''USER.MD'' then classify sections (project, persona, sec_content s)
      else classify sections (project @ [s], persona, preferences))"

definition classifyBootstrap :: "text_section list \<Rightarrow> string \<times> string \<times> string" where
  "classifyBootstrap sections =
     (let (project, persona, preferences) = classify sections ([], [], [])
      in (renderBootstrapSections project, persona, preferences))"

definition system_content :: "string \<Rightarrow> snapshot \<Rightarrow> snapshot \<Rightarrow> profile \<Rightarrow> string \<Rightarrow> string" where
  "system_content runtimeRules boot skills p memory =
     (let (projectRules, persona, preferences) = classifyBootstrap (Bootstrap_Sections boot);
          identity = trim_space (join newline
            (nonEmpty [id_agent_name (p_identity p), id_prompt (p_identity p), persona]))
      in join newline
           [''[RUNTIME_RULES]'' @ newline @ runtimeRules,
            ''[PROJECT_RULES]'' @ newline @ projectRules,
            ''[AGENT_IDENTITY]'' @ newline @ identity,
            ''[SKILLS]'' @ newline @ renderSkillSections (Skill_Sections skills),
            ''[USER_PREFERENCES]'' @ newline @ preferences,
            ''[LONG_TERM_MEMORY]'' @ newline @ memory])"

section \<open>The builder\<close>

text \<open>A missing key of the budget map reads 0.\<close>

definition budget_of :: "(string \<times> int) list \<Rightarrow> string \<Rightarrow> int" where
  "budget_of budgets name = (case map_of budgets name of None \<Rightarrow> 0 | Some b \<Rightarrow> b)"

type_synonym 'x memory_reader = "goctx \<Rightarrow> profile \<Rightarrow> 'x \<Rightarrow> (string \<times> gerror option) \<times> 'x"

record 'x prompt_builder =
  pb_rules :: string
  pb_bootstrap :: "(string \<times> snapshot) list"
  pb_skills :: "(string \<times> snapshot) list"
  pb_budgets :: "(string \<times> int) list"
  pb_memory :: "'x memory_reader option"
  pb_now :: "('x wld \<Rightarrow> gotime \<times> 'x wld) option"

definition cloneInputBudgets :: "(string \<times> int) list \<Rightarrow> (string \<times> int) list" where
  "cloneInputBudgets source = map (\<lambda>(name, budget). (name, budget)) source"

definition cloneBootstrapSnapshots :: "(string \<times> snapshot) list \<Rightarrow> (string \<times> snapshot) list" where
  "cloneBootstrapSnapshots source = map (\<lambda>(name, s). (name, Bootstrap_NewSnapshot (Bootstrap_Sections s))) source"

definition cloneSkillSnapshots :: "(string \<times> snapshot) list \<Rightarrow> (string \<times> snapshot) list" where
  "cloneSkillSnapshots source = map (\<lambda>(name, s). (name, Skill_NewSnapshot (Skill_Sections s))) source"

text \<open>A nil map is \<open>None\<close>.  Which of several Profiles without a budget the error names is the map's order.\<close>

definition NewPromptBuilder ::
  "string \<Rightarrow> (string \<times> snapshot) list option \<Rightarrow> (string \<times> snapshot) list option \<Rightarrow> 'x memory_reader option \<Rightarrow>
   (string \<times> int) list option \<Rightarrow> ('x wld \<Rightarrow> gotime \<times> 'x wld) option \<Rightarrow> gerror + 'x prompt_builder" where
  "NewPromptBuilder runtimeRules bootstrapByProfile skillsByProfile memory maxInputRunes clock =
     (let failed = (\<lambda>text. Inl (Errorf (''create prompt builder: '' @ text))) in
      if blank runtimeRules then failed ''runtime rules are empty''
      else (case bootstrapByProfile of
        None \<Rightarrow> failed ''bootstrap snapshots are nil''
      | Some boots \<Rightarrow> (case skillsByProfile of
          None \<Rightarrow> failed ''skill snapshots are nil''
        | Some skills \<Rightarrow>
            if memory = None then failed ''memory reader is nil''
            else (case maxInputRunes of
              None \<Rightarrow> failed ''input budgets are nil''
            | Some budgets \<Rightarrow> (case find (\<lambda>(name, s). budget_of budgets name \<le> 0) boots of
                Some (name, s) \<Rightarrow> failed (''input budget for profile '' @ quote name @ '' must be positive'')
              | None \<Rightarrow>
                  if clock = None then failed ''clock is nil''
                  else Inr \<lparr>pb_rules = runtimeRules, pb_bootstrap = cloneBootstrapSnapshots boots,
                         pb_skills = cloneSkillSnapshots skills, pb_budgets = cloneInputBudgets budgets,
                         pb_memory = memory, pb_now = clock\<rparr>)))))"

lemma drop_turn_length: "length (drop_turn f ms) \<le> length ms"
  by (induction f ms rule: drop_turn.induct) auto

lemma dropOldest_length: "ms \<noteq> [] \<Longrightarrow> length (dropOldestCompleteTurn ms) < length ms"
  using drop_turn_length by (cases ms) (auto simp: dropOldestCompleteTurn_def less_Suc_eq_le)

text \<open>The loop that drops the oldest turn until the rest fits; \<open>None\<close> when nothing is left to drop.\<close>

function fit :: "int \<Rightarrow> message list \<Rightarrow> message list \<Rightarrow> message list \<Rightarrow> message list option" where
  "fit budget prefix history suffix =
     (let messages = prefix @ history @ suffix in
      if int (messagesRuneCount messages) \<le> budget then Some messages
      else if history = [] then None
      else fit budget prefix (dropOldestCompleteTurn history) suffix)"
  by pat_completeness auto
termination
  by (relation "measure (\<lambda>(b, p, h, s). length h)") (simp_all add: dropOldest_length)

declare fit.simps [simp del]

text \<open>After the checks: read the memory, label the sources, cut the history.\<close>

definition compose_prompt ::
  "'x prompt_builder \<Rightarrow> snapshot \<Rightarrow> snapshot \<Rightarrow> int \<Rightarrow> 'x memory_reader \<Rightarrow> ('x wld \<Rightarrow> gotime \<times> 'x wld) \<Rightarrow>
   goctx \<Rightarrow> session \<Rightarrow> profile \<Rightarrow> string \<Rightarrow> 'x wld \<Rightarrow> (gerror + message list) \<times> 'x wld" where
  "compose_prompt b boot skills budget memory clock cx s p currentUserMessage w1 =
     (let ((text, readErr), w2) = outside (memory cx p) (\<lambda>_. EvMemoryRead (p_name p)) w1 in
      case readErr of
        Some e \<Rightarrow> (Inl (Wrapf ''build prompt: read memory: '' e), w2)
      | None \<Rightarrow>
          (let text = truncateRunes text maxMemoryCharacters;
               prefix = [text_message RoleSystem (system_content (pb_rules b) boot skills p text),
                         text_message RoleSystem ''[HISTORY]''];
               (history, currentTurn) = splitCurrentTurn (Session_Messages (Some s)) currentUserMessage;
               history = limitCompleteTurns history (historyLimit p);
               (t, w3) = clock w2;
               suffix = [text_message RoleSystem ''[USER_MESSAGE]''] @ currentTurn @
                 [text_message RoleSystem (''[CURRENT_DATETIME]'' @ newline @ format_rfc3339 t)]
           in case fit budget prefix history suffix of
                Some messages \<Rightarrow> (Inr messages, w3)
              | None \<Rightarrow> (Inl (Errorf (''build prompt: protected context for profile '' @ quote (p_name p) @
                  '' exceeds input budget '' @ itoa budget)), w3)))"

definition Build ::
  "'x env \<Rightarrow> 'x prompt_builder option \<Rightarrow> goctx option \<Rightarrow> session option \<Rightarrow> profile option \<Rightarrow> string \<Rightarrow> 'x wld
     \<Rightarrow> (gerror + message list) \<times> 'x wld" where
  "Build E builder ctx current selected currentUserMessage w =
     (let failed = (\<lambda>text w. (Inl (Errorf (''build prompt: '' @ text)), w)) in
      case builder of
        None \<Rightarrow> failed ''builder is not initialized'' w
      | Some b \<Rightarrow> (case (pb_memory b, pb_now b) of
          (Some memory, Some clock) \<Rightarrow> (case ctx of
              None \<Rightarrow> failed ''context is nil'' w
            | Some cx \<Rightarrow>
                (let (ended, w1) = ctx_err E cx w in
                 case ended of
                   Some e \<Rightarrow> (Inl e, w1)
                 | None \<Rightarrow> (case current of
                     None \<Rightarrow> failed ''session is nil'' w1
                   | Some s \<Rightarrow> (case selected of
                       None \<Rightarrow> failed ''profile is required'' w1
                     | Some p \<Rightarrow>
                         if blank (p_name p) then failed ''profile is required'' w1
                         else (case map_of (pb_bootstrap b) (p_name p) of
                             None \<Rightarrow> failed (''bootstrap snapshot for profile '' @ quote (p_name p) @ '' not found'') w1
                           | Some boot \<Rightarrow> (case map_of (pb_skills b) (p_name p) of
                               None \<Rightarrow> failed (''skill snapshot for profile '' @ quote (p_name p) @ '' not found'') w1
                             | Some skills \<Rightarrow>
                                 (let budget = budget_of (pb_budgets b) (p_name p) in
                                  if budget \<le> 0
                                  then failed (''input budget for profile '' @ quote (p_name p) @ '' not found'') w1
                                  else compose_prompt b boot skills budget memory clock cx s p currentUserMessage w1)))))))
        | _ \<Rightarrow> failed ''builder is not initialized'' w))"

section \<open>Counting is additive, cutting is exact\<close>

lemma messagesRuneCount_append [simp]: "messagesRuneCount (xs @ ys) = messagesRuneCount xs + messagesRuneCount ys"
  by (simp add: messagesRuneCount_def)

text \<open>
  The memory is bounded.  A text cut to a number of runes keeps exactly its first runes, as many as
  that or as it has, and a text that is short enough is kept byte for byte.
\<close>

theorem truncateRunes_exact:
  "decode_runes (truncateRunes value limit) = take limit (decode_runes value) \<and>
   rune_count (truncateRunes value limit) = min limit (rune_count value) \<and>
   truncateRunes value (rune_count value) = value"
proof -
  have "decode_runes (encode_runes (take limit (decode_runes value))) = take limit (decode_runes value)"
    by (rule decode_encode_runes) (auto dest: in_set_takeD valid_decode_runes)
  then show ?thesis by (auto simp: truncateRunes_def rune_count_def)
qed

section \<open>The pieces of a conversation\<close>

lemma limitCompleteTurns_spec: "limitCompleteTurns ms limit = concat (last_turns (nat limit) ms)"
proof -
  have "limitCompleteTurns ms limit = RecentTurns limit (Some \<lparr>s_id = [], s_messages = ms\<rparr>)"
    by (simp add: limitCompleteTurns_def RecentTurns_def Let_def)
  then show ?thesis by (simp add: RecentTurns_spec)
qed

lemma list_all_last_turns [simp]: "list_all is_turn (last_turns n ms)"
  unfolding last_turns_def by (auto simp: list_all_iff dest!: in_set_dropD turns_are_turns)

lemma splitCurrentTurn_parts:
  assumes "splitCurrentTurn ms u = (history, current)"
  obtains (found) m ts where "ms = history @ m # ts" "current = m # ts" "is_user m" "m_content m = u"
      "list_all (\<lambda>m. \<not> (is_user m \<and> m_content m = u)) ts"
    | (absent) "history = ms" "current = [text_message RoleUser u]" "list_all (\<lambda>m. \<not> (is_user m \<and> m_content m = u)) ms"
proof -
  let ?P = "\<lambda>m. is_user m \<and> m_content m = u"
  let ?a = "takeWhile (\<lambda>m. \<not> ?P m) (rev ms)" and ?b = "dropWhile (\<lambda>m. \<not> ?P m) (rev ms)"
  have ms: "ms = rev ?b @ rev ?a" by (metis rev_append rev_rev_ident takeWhile_dropWhile_id)
  have a: "list_all (\<lambda>m. \<not> ?P m) (rev ?a)" by (auto simp: list_all_iff dest: set_takeWhileD)
  show thesis
  proof (cases ?b)
    case Nil
    have "rev ?b @ rev ?a = ms" by (rule sym) (rule ms)
    then have all: "rev ?a = ms" by (simp only: Nil rev.simps append_Nil)
    then have "length ?a = length ms" by (metis length_rev)
    then have "history = ms" "current = [text_message RoleUser u]"
      using assms by (simp_all add: splitCurrentTurn_def Let_def)
    moreover have "list_all (\<lambda>m. \<not> ?P m) ms" using a by (simp only: all)
    ultimately show thesis by (rule absent)
  next
    case (Cons m b)
    have m: "?P m" using hd_dropWhile [of "\<lambda>m. \<not> ?P m" "rev ms"] unfolding Cons by simp
    have "rev ?b @ rev ?a = ms" by (rule sym) (rule ms)
    then have e: "ms = rev b @ m # rev ?a" by (simp only: Cons rev.simps append_assoc append.simps)
    obtain A where A: "?a = A" by simp
    have len: "length ms = Suc (length b + length A)" using arg_cong [OF e [unfolded A], of length] by simp
    have "splitCurrentTurn ms u = (take (length b) ms, drop (length b) ms)"
      unfolding splitCurrentTurn_def Let_def A by (simp add: len)
    moreover have "take (length b) ms = rev b" "drop (length b) ms = m # rev A"
      unfolding e [unfolded A] by simp_all
    ultimately have "history = rev b" "current = m # rev A" using assms by simp_all
    then show thesis using e [unfolded A] m a [unfolded A] by (intro found [of m "rev A"]) simp_all
  qed
qed

lemma drop_turn_skip: "list_all (\<lambda>m. \<not> is_user m) xs \<Longrightarrow> drop_turn f (xs @ ys) = drop_turn f ys"
  by (induction xs) simp_all

lemma drop_turn_concat: "list_all is_turn ts \<Longrightarrow> drop_turn True (concat ts) = concat ts"
proof (cases ts)
  case (Cons t ts')
  moreover assume "list_all is_turn ts"
  ultimately show ?thesis by (auto simp: is_turn_def split: list.splits)
qed simp

lemma dropOldest_concat:
  assumes "list_all is_turn (t # ts)"
  shows "dropOldestCompleteTurn (concat (t # ts)) = concat ts"
proof -
  obtain m xs where "t = m # xs" "is_user m" "list_all (\<lambda>m. \<not> is_user m) xs"
    using assms by (auto simp: is_turn_def split: list.splits)
  then show ?thesis using assms by (simp add: dropOldestCompleteTurn_def drop_turn_skip drop_turn_concat)
qed

text \<open>What the loop leaves of a history of whole turns.\<close>

lemma fit_turns:
  assumes "list_all is_turn ts"
  shows "fit budget prefix (concat ts) suffix = Some ms \<Longrightarrow>
      \<exists>dropped kept. ts = dropped @ kept \<and> ms = prefix @ concat kept @ suffix \<and> int (messagesRuneCount ms) \<le> budget \<and>
        (dropped = [] \<or> budget < int (messagesRuneCount (prefix @ concat (last dropped # kept) @ suffix)))"
    and "fit budget prefix (concat ts) suffix = None \<longleftrightarrow> budget < int (messagesRuneCount (prefix @ suffix))"
proof -
  have "(\<forall>ms. fit budget prefix (concat ts) suffix = Some ms \<longrightarrow>
      (\<exists>dropped kept. ts = dropped @ kept \<and> ms = prefix @ concat kept @ suffix \<and> int (messagesRuneCount ms) \<le> budget \<and>
        (dropped = [] \<or> budget < int (messagesRuneCount (prefix @ concat (last dropped # kept) @ suffix))))) \<and>
    (fit budget prefix (concat ts) suffix = None \<longleftrightarrow> budget < int (messagesRuneCount (prefix @ suffix)))"
    using assms
  proof (induction ts)
    case Nil
    then show ?case by (simp add: fit.simps [of budget prefix "[]"])
  next
    case (Cons t ts)
    show ?case
    proof (cases "int (messagesRuneCount (prefix @ concat (t # ts) @ suffix)) \<le> budget")
      case True
      then have "fit budget prefix (concat (t # ts)) suffix = Some (prefix @ concat (t # ts) @ suffix)"
        by (subst fit.simps) simp
      moreover have "\<not> budget < int (messagesRuneCount (prefix @ suffix))" using True by simp
      moreover have "t # ts = [] @ (t # ts)" by simp
      ultimately show ?thesis using True by (metis option.distinct(1) option.inject)
    next
      case False
      have ne: "concat (t # ts) \<noteq> []" using Cons.prems by (auto simp: is_turn_def split: list.splits)
      have "fit budget prefix (concat (t # ts)) suffix = fit budget prefix (concat ts) suffix"
        using False ne dropOldest_concat [OF Cons.prems]
        by (subst fit.simps) (simp only: Let_def if_False)
      moreover have "\<exists>dropped' kept'. t # ts = dropped' @ kept' \<and> ms = prefix @ concat kept' @ suffix \<and>
          int (messagesRuneCount ms) \<le> budget \<and>
          (dropped' = [] \<or> budget < int (messagesRuneCount (prefix @ concat (last dropped' # kept') @ suffix)))"
        if "ts = dropped @ kept" "ms = prefix @ concat kept @ suffix" "int (messagesRuneCount ms) \<le> budget"
          "dropped = [] \<or> budget < int (messagesRuneCount (prefix @ concat (last dropped # kept) @ suffix))"
        for ms dropped kept
      proof (rule exI [of _ "t # dropped"], rule exI [of _ kept])
        show "t # ts = (t # dropped) @ kept \<and> ms = prefix @ concat kept @ suffix \<and>
          int (messagesRuneCount ms) \<le> budget \<and> (t # dropped = [] \<or>
            budget < int (messagesRuneCount (prefix @ concat (last (t # dropped) # kept) @ suffix)))"
          using that False by (cases "dropped = []") simp_all
      qed
      ultimately show ?thesis using Cons by (metis list.pred_inject(2))
    qed
  qed
  then show "fit budget prefix (concat ts) suffix = Some ms \<Longrightarrow>
      \<exists>dropped kept. ts = dropped @ kept \<and> ms = prefix @ concat kept @ suffix \<and> int (messagesRuneCount ms) \<le> budget \<and>
        (dropped = [] \<or> budget < int (messagesRuneCount (prefix @ concat (last dropped # kept) @ suffix)))"
    "fit budget prefix (concat ts) suffix = None \<longleftrightarrow> budget < int (messagesRuneCount (prefix @ suffix))"
    by blast+
qed

section \<open>The prompt\<close>

text \<open>The context that is never dropped: the labels, the current turn and the time.\<close>

definition prompt_suffix :: "message list \<Rightarrow> gotime \<Rightarrow> message list" where
  "prompt_suffix current t = [text_message RoleSystem ''[USER_MESSAGE]''] @ current @
     [text_message RoleSystem (''[CURRENT_DATETIME]'' @ newline @ format_rfc3339 t)]"

definition prompt_prefix :: "'x prompt_builder \<Rightarrow> snapshot \<Rightarrow> snapshot \<Rightarrow> profile \<Rightarrow> string \<Rightarrow> message list" where
  "prompt_prefix b boot skills p memory =
     [text_message RoleSystem (system_content (pb_rules b) boot skills p (truncateRunes memory maxMemoryCharacters)),
      text_message RoleSystem ''[HISTORY]'']"

lemma Session_Messages_Some [simp]: "Session_Messages (Some s) = s_messages s"
  by (simp add: Session_Messages_def)

lemma compose_prompt_parts:
  assumes "compose_prompt b boot skills budget memory clock cx s p u w = (r, w')"
  obtains (unread) mem e w2 where "outside (memory cx p) (\<lambda>_. EvMemoryRead (p_name p)) w = ((mem, Some e), w2)"
      "r = Inl (Wrapf ''build prompt: read memory: '' e)" "w' = w2"
    | (read) mem w2 history current t where
      "outside (memory cx p) (\<lambda>_. EvMemoryRead (p_name p)) w = ((mem, None), w2)" "clock w2 = (t, w')"
      "splitCurrentTurn (s_messages s) u = (history, current)"
      "r = (case fit budget (prompt_prefix b boot skills p mem)
              (concat (last_turns (nat (historyLimit p)) history)) (prompt_suffix current t) of
            Some messages \<Rightarrow> Inr messages
          | None \<Rightarrow> Inl (Errorf (''build prompt: protected context for profile '' @ quote (p_name p) @
              '' exceeds input budget '' @ itoa budget)))"
proof -
  obtain mem err w2 where m: "outside (memory cx p) (\<lambda>_. EvMemoryRead (p_name p)) w = ((mem, err), w2)"
    by (metis prod.collapse)
  show thesis
  proof (cases err)
    case (Some e)
    then show thesis using assms m by (intro unread [of mem e w2]) (simp_all add: compose_prompt_def)
  next
    case None
    obtain history current where sp: "splitCurrentTurn (s_messages s) u = (history, current)" by fastforce
    obtain t w3 where c: "clock w2 = (t, w3)" by fastforce
    have "(case fit budget (prompt_prefix b boot skills p mem)
              (concat (last_turns (nat (historyLimit p)) history)) (prompt_suffix current t) of
            Some messages \<Rightarrow> (Inr messages, w3)
          | None \<Rightarrow> (Inl (Errorf (''build prompt: protected context for profile '' @ quote (p_name p) @
              '' exceeds input budget '' @ itoa budget)), w3)) = (r, w')"
      using assms by (simp add: compose_prompt_def m None sp c Let_def limitCompleteTurns_spec prompt_prefix_def prompt_suffix_def)
    then show thesis using m None sp c by (intro read [of mem w2 t history current]) (auto split: option.splits)
  qed
qed

lemma Build_gates:
  assumes "Build E (Some b) (Some cx) (Some s) (Some p) u w = (r, w')"
  obtains (refused) "emitted w [] w'" "\<exists>e. r = Inl e"
    | (ready) boot skills memory clock w1 where "ctx_err E cx w = (None, w1)" "\<not> blank (p_name p)"
      "map_of (pb_bootstrap b) (p_name p) = Some boot" "map_of (pb_skills b) (p_name p) = Some skills"
      "pb_memory b = Some memory" "pb_now b = Some clock" "0 < budget_of (pb_budgets b) (p_name p)"
      "compose_prompt b boot skills (budget_of (pb_budgets b) (p_name p)) memory clock cx s p u w1 = (r, w')"
proof -
  obtain ended w1 where c: "ctx_err E cx w = (ended, w1)" by fastforce
  show thesis
    using assms emitted_ctx_err [OF c]
    by (auto simp: Build_def c Let_def not_le intro: refused ready split: option.splits if_splits)
qed

text \<open>
  C9.  The prompt fits and loses as little as possible.  A prompt that is built stays within the Profile's
  budget of runes.  It is the system texts, then whole earlier turns, then the current turn and the time;
  the earlier turns are the most recent ones, at most as many as the Profile's limit, and when the budget
  made some of them go, one more would not have fitted.  The current turn is the end of the conversation
  from the last user message with the current mem on, or that mem alone when there is none.
\<close>

theorem Build_fits_budget:
  assumes run: "Build E (Some b) (Some cx) (Some s) (Some p) u w = (Inr messages, w')"
  shows "\<exists>boot skills memory t history current dropped kept.
    splitCurrentTurn (s_messages s) u = (history, current) \<and>
    (history @ current = s_messages s \<and> is_user (hd current) \<and> m_content (hd current) = u \<or>
     history = s_messages s \<and> current = [text_message RoleUser u]) \<and>
    last_turns (nat (historyLimit p)) history = dropped @ kept \<and>
    messages = prompt_prefix b boot skills p memory @ concat kept @ prompt_suffix current t \<and>
    int (messagesRuneCount messages) \<le> budget_of (pb_budgets b) (p_name p) \<and>
    (dropped = [] \<or> budget_of (pb_budgets b) (p_name p) <
       int (messagesRuneCount (prompt_prefix b boot skills p memory @ concat (last dropped # kept) @ prompt_suffix current t)))"
  using run
proof (cases rule: Build_gates)
  case (ready boot skills memory clock w1)
  from ready(8) show ?thesis
  proof (cases rule: compose_prompt_parts)
    case (read mem w2 history current t)
    have "fit (budget_of (pb_budgets b) (p_name p)) (prompt_prefix b boot skills p mem)
        (concat (last_turns (nat (historyLimit p)) history)) (prompt_suffix current t) = Some messages"
      using read(4) by (auto split: option.splits)
    from fit_turns(1) [OF list_all_last_turns this]
    obtain dropped kept where d: "last_turns (nat (historyLimit p)) history = dropped @ kept"
      "messages = prompt_prefix b boot skills p mem @ concat kept @ prompt_suffix current t"
      "int (messagesRuneCount messages) \<le> budget_of (pb_budgets b) (p_name p)"
      "dropped = [] \<or> budget_of (pb_budgets b) (p_name p) <
         int (messagesRuneCount (prompt_prefix b boot skills p mem @ concat (last dropped # kept) @ prompt_suffix current t))"
      by blast
    have "history @ current = s_messages s \<and> is_user (hd current) \<and> m_content (hd current) = u \<or>
        history = s_messages s \<and> current = [text_message RoleUser u]"
      using read(3) by (cases rule: splitCurrentTurn_parts) simp_all
    with d read(3) show ?thesis by blast
  qed simp
qed simp

lemma Build_protected:
  assumes "ctx_err E cx w = (None, w1)" "\<not> blank (p_name p)"
    "map_of (pb_bootstrap b) (p_name p) = Some boot" "map_of (pb_skills b) (p_name p) = Some skills"
    "pb_memory b = Some memory" "pb_now b = Some clock" "0 < budget_of (pb_budgets b) (p_name p)"
    "outside (memory cx p) (\<lambda>_. EvMemoryRead (p_name p)) w1 = ((mem, None), w2)" "clock w2 = (t, w3)"
    "splitCurrentTurn (s_messages s) u = (history, current)"
  shows "(\<exists>messages. fst (Build E (Some b) (Some cx) (Some s) (Some p) u w) = Inr messages) \<longleftrightarrow>
    int (messagesRuneCount (prompt_prefix b boot skills p mem @ prompt_suffix current t))
      \<le> budget_of (pb_budgets b) (p_name p)"
proof -
  obtain r w' where c: "compose_prompt b boot skills (budget_of (pb_budgets b) (p_name p)) memory clock cx s p u w1 = (r, w')"
    by fastforce
  have "Build E (Some b) (Some cx) (Some s) (Some p) u w = (r, w')"
    using assms c by (simp add: Build_def Let_def)
  moreover have "(\<exists>messages. r = Inr messages) \<longleftrightarrow>
      fit (budget_of (pb_budgets b) (p_name p)) (prompt_prefix b boot skills p mem)
        (concat (last_turns (nat (historyLimit p)) history)) (prompt_suffix current t) \<noteq> None"
    using c by (cases rule: compose_prompt_parts) (use assms in \<open>auto split: option.splits\<close>)
  ultimately show ?thesis
    using fit_turns(2) [OF list_all_last_turns, of "budget_of (pb_budgets b) (p_name p)"] by (simp add: not_less)
qed

text \<open>
  C10.  When a prompt is refused.  Once the checks have passed and the memory could be read, there is a
  prompt exactly when the context that is never dropped fits the budget by itself.
\<close>

theorem Build_refused_only_by_protected:
  assumes "ctx_err E cx w = (None, w1)" "\<not> blank (p_name p)"
    "map_of (pb_bootstrap b) (p_name p) = Some boot" "map_of (pb_skills b) (p_name p) = Some skills"
    "pb_memory b = Some memory" "pb_now b = Some clock" "0 < budget_of (pb_budgets b) (p_name p)"
    "outside (memory cx p) (\<lambda>_. EvMemoryRead (p_name p)) w1 = ((mem, None), w2)" "clock w2 = (t, w3)"
    "splitCurrentTurn (s_messages s) u = (history, current)"
  shows "(\<exists>messages. fst (Build E (Some b) (Some cx) (Some s) (Some p) u w) = Inr messages) \<longleftrightarrow>
    int (messagesRuneCount (prompt_prefix b boot skills p mem @ prompt_suffix current t))
      \<le> budget_of (pb_budgets b) (p_name p)"
  by (rule Build_protected [OF assms])

section \<open>Examples\<close>

lemma rune_count_le: "rune_count s \<le> length s"
proof (induction s rule: decode_runes.induct)
  case (1 s)
  show ?case
  proof (cases "s = []")
    case False
    have "rune_count s = Suc (rune_count (drop (snd (decode_rune s)) s))"
      using False by (subst rune_count_def, subst decode_runes.simps) (simp add: rune_count_def)
    moreover have "0 < length s" using False by simp
    moreover have "rune_count (drop (snd (decode_rune s)) s) \<le> length s - snd (decode_rune s)"
      using 1 [OF False] by simp
    ultimately show ?thesis using decode_rune_width [OF False] by linarith
  qed (simp add: rune_count_def)
qed

definition demo_builder :: "nat prompt_builder" where
  "demo_builder = \<lparr>pb_rules = ''r'', pb_bootstrap = [(''main'', \<lparr>sn_sections = []\<rparr>)],
     pb_skills = [(''main'', \<lparr>sn_sections = []\<rparr>)], pb_budgets = [(''main'', 1000)],
     pb_memory = Some (\<lambda>cx p x. ((''m'', None), x)), pb_now = Some (\<lambda>w. (\<lparr>t_ns = 0, t_zone = 0\<rparr>, w))\<rparr>"

definition demo_session :: session where
  "demo_session = \<lparr>s_id = ''s1'', s_messages = [text_message RoleUser ''hi'']\<rparr>"

lemma demo_time: "format_rfc3339 \<lparr>t_ns = 0, t_zone = 0\<rparr> = ''0001-01-01T00:00:00Z''"
proof -
  have civil: "civil_date 0 = (1, 1, 1)" by code_simp
  have digits: "itoa_nat (Suc 0) = ''1''" "itoa_nat 0 = ''0''"
    by (subst itoa_nat.simps, simp add: digit_def char_of_def bit_Suc_0_iff)+
  have pads: "pad 4 1 = ''0001''" "pad 2 1 = ''01''" "pad 2 0 = ''00''"
    by (simp_all add: pad_def digits numeral_eq_Suc)
  show ?thesis by (simp add: format_rfc3339_def civil pads)
qed

lemma demo_protected:
  "messagesRuneCount (prompt_prefix demo_builder \<lparr>sn_sections = []\<rparr> \<lparr>sn_sections = []\<rparr> demo_profile ''m'' @
     prompt_suffix [text_message RoleUser ''hi''] \<lparr>t_ns = 0, t_zone = 0\<rparr>) \<le> 1000"
proof -
  have m: "message_runes (text_message r c) \<le> length r + length c" for r c
    using rune_count_le [of r] rune_count_le [of c]
    by (simp add: message_runes_def jsonRuneCount_def rune_count_def)
  have "truncateRunes ''m'' maxMemoryCharacters = ''m''"
    by (simp add: truncateRunes_def maxMemoryCharacters_def rune_count_def decode_runes_ascii)
  then have "length (system_content ''r'' \<lparr>sn_sections = []\<rparr> \<lparr>sn_sections = []\<rparr> demo_profile
      (truncateRunes ''m'' maxMemoryCharacters)) \<le> 200"
    by (simp add: system_content_def classifyBootstrap_def Bootstrap_Sections_def Skill_Sections_def
        renderBootstrapSections_def renderSkillSections_def nonEmpty_def demo_profile_def newline_def
        blank_Nil [unfolded blank_def])
  then show ?thesis
    using m [of RoleSystem "system_content ''r'' \<lparr>sn_sections = []\<rparr> \<lparr>sn_sections = []\<rparr> demo_profile
        (truncateRunes ''m'' maxMemoryCharacters)"] m [of RoleSystem "''[HISTORY]''"] m [of RoleSystem "''[USER_MESSAGE]''"]
      m [of RoleUser "''hi''"] m [of RoleSystem "''[CURRENT_DATETIME]'' @ newline @ ''0001-01-01T00:00:00Z''"]
    by (simp add: prompt_prefix_def prompt_suffix_def messagesRuneCount_def demo_builder_def demo_time role_defs newline_def)
qed

lemma demo_split: "splitCurrentTurn (s_messages demo_session) ''hi'' = ([], [text_message RoleUser ''hi''])"
  by (simp add: splitCurrentTurn_def demo_session_def is_user_def)

lemma demo_ctx_err: "ctx_err demo_env cx demo_world = (None, demo_world)"
  by (simp add: ctx_err_def silent_def demo_env_def demo_world_def)

theorem Build_refused_only_by_protected_witness:
  "\<exists>messages. fst (Build demo_env (Some demo_builder) (Some demo_ctx) (Some demo_session) (Some demo_profile)
     ''hi'' demo_world) = Inr messages"
proof -
  let ?memory = "\<lambda>cx p x. ((''m'', None), x) :: (string \<times> gerror option) \<times> nat"
  obtain w2 where read: "outside (?memory demo_ctx demo_profile) (\<lambda>_. EvMemoryRead (p_name demo_profile))
      demo_world = ((''m'', None), w2)" by (simp add: outside_def)
  show ?thesis
    by (subst Build_refused_only_by_protected [where E = demo_env and cx = demo_ctx and w = demo_world and ?w1.0 = demo_world
            and p = demo_profile and b = demo_builder and memory = ?memory and mem = "''m''" and ?w2.0 = w2
            and u = "''hi''" and s = demo_session and history = "[]" and current = "[text_message RoleUser ''hi'']" and boot = "\<lparr>sn_sections = []\<rparr>" and skills = "\<lparr>sn_sections = []\<rparr>" and ?w3.0 = w2
            and clock = "\<lambda>w. (\<lparr>t_ns = 0, t_zone = 0\<rparr>, w)" and t = "\<lparr>t_ns = 0, t_zone = 0\<rparr>"])
       (use demo_protected read in \<open>simp_all add: demo_ctx_err demo_split demo_builder_def budget_of_def not_blank_names\<close>)
qed

lemma demo_build:
  "\<exists>messages. fst (Build demo_env (Some demo_builder) (Some demo_ctx) (Some demo_session) (Some demo_profile)
     ''hi'' demo_world) = Inr messages"
proof -
  let ?memory = "\<lambda>cx p x. ((''m'', None), x) :: (string \<times> gerror option) \<times> nat"
  obtain w2 where read: "outside (?memory demo_ctx demo_profile) (\<lambda>_. EvMemoryRead (p_name demo_profile))
      demo_world = ((''m'', None), w2)" by (simp add: outside_def)
  show ?thesis
    by (subst Build_protected [where E = demo_env and cx = demo_ctx and w = demo_world and ?w1.0 = demo_world
            and p = demo_profile and b = demo_builder and memory = ?memory and mem = "''m''" and ?w2.0 = w2
            and u = "''hi''" and s = demo_session and history = "[]" and current = "[text_message RoleUser ''hi'']" and boot = "\<lparr>sn_sections = []\<rparr>" and skills = "\<lparr>sn_sections = []\<rparr>" and ?w3.0 = w2
            and clock = "\<lambda>w. (\<lparr>t_ns = 0, t_zone = 0\<rparr>, w)" and t = "\<lparr>t_ns = 0, t_zone = 0\<rparr>"])
       (use demo_protected read in \<open>simp_all add: demo_ctx_err demo_split demo_builder_def budget_of_def not_blank_names\<close>)
qed

theorem Build_fits_budget_witness:
  "\<exists>messages w'. Build demo_env (Some demo_builder) (Some demo_ctx) (Some demo_session) (Some demo_profile)
     ''hi'' demo_world = (Inr messages, w') \<and> int (messagesRuneCount messages) \<le> 1000"
proof -
  obtain messages w' where run: "Build demo_env (Some demo_builder) (Some demo_ctx) (Some demo_session)
      (Some demo_profile) ''hi'' demo_world = (Inr messages, w')"
    using demo_build by (metis prod.collapse)
  have "budget_of (pb_budgets demo_builder) (p_name demo_profile) = 1000"
    by (simp add: demo_builder_def budget_of_def)
  with Build_fits_budget [OF run] run show ?thesis by auto
qed

end
