(* ===== verification/Store.thy ===== *)
theory Store
  imports Domain Demo
begin

text \<open>
  internal/store: validation of the two kinds of audit rows and the repositories that insert them.
  The insert itself is the database library's.  Both repositories keep one contract, the locale
  \<open>audit_recorder\<close>, which is what the Tool executor and the provider service rely on.
\<close>

section \<open>Repositories\<close>

text \<open>A repository holds the handle of an open database, which is outside the model.\<close>

record repository =
  rp_database :: "unit option"

definition NewRepository :: "string \<Rightarrow> unit option \<Rightarrow> gerror + repository" where
  "NewRepository kind database = (case database of
     None \<Rightarrow> Inl (Errorf (''create '' @ kind @ '' repository: database is nil''))
   | Some db \<Rightarrow> Inr \<lparr>rp_database = Some db\<rparr>)"

definition NewLlmCallRepository :: "unit option \<Rightarrow> gerror + repository" where
  "NewLlmCallRepository = NewRepository ''llm call''"

definition NewToolInvocationRepository :: "unit option \<Rightarrow> gerror + repository" where
  "NewToolInvocationRepository = NewRepository ''tool invocation''"

definition no_repository :: "repository option \<Rightarrow> bool" where
  "no_repository repo \<longleftrightarrow> (case repo of None \<Rightarrow> True | Some r \<Rightarrow> rp_database r = None)"

definition validateLlmCall :: "llm_call option \<Rightarrow> gerror option" where
  "validateLlmCall call = (case call of
     None \<Rightarrow> Some (Errorf ''create llm call: record is nil'')
   | Some c \<Rightarrow>
       if blank (lc_session c) then Some (Errorf ''create llm call: session_id is required'')
       else if blank (lc_provider c) then Some (Errorf ''create llm call: provider is required'')
       else if blank (lc_model c) then Some (Errorf ''create llm call: model is required'')
       else if lc_prompt_tokens c < 0 \<or> lc_completion_tokens c < 0 \<or> lc_total_tokens c < 0
         then Some (Errorf ''create llm call: token counts must be non-negative'')
       else if lc_duration_ms c < 0 then Some (Errorf ''create llm call: duration_ms must be non-negative'')
       else if is_zero (lc_created c) then Some (Errorf ''create llm call: created_at is required'')
       else if lc_success c \<and> lc_error c \<noteq> None
         then Some (Errorf ''create llm call: successful record must not contain error_message'')
       else None)"

definition LlmCallRepository_Create ::
  "'x env \<Rightarrow> repository option \<Rightarrow> goctx option \<Rightarrow> llm_call option \<Rightarrow> 'x wld \<Rightarrow> gerror option \<times> 'x wld" where
  "LlmCallRepository_Create E repo ctx call w =
     (if no_repository repo then (Some (Errorf ''create llm call: repository is nil''), w)
      else case ctx of
        None \<Rightarrow> (Some (Errorf ''create llm call: context is nil''), w)
      | Some cx \<Rightarrow>
          (case validateLlmCall call of
             Some e \<Rightarrow> (Some e, w)
           | None \<Rightarrow>
               (let (r, w1) = outside (env_insert_llm E cx (the call)) (EvInsertLlm cx (the call)) w
                in (map_option (Wrapf ''create llm call: '') r, w1))))"

definition validateToolInvocation :: "tool_invocation option \<Rightarrow> gerror option" where
  "validateToolInvocation invocation = (case invocation of
     None \<Rightarrow> Some (Errorf ''create tool invocation: record is nil'')
   | Some i \<Rightarrow>
       if blank (ti_session i) then Some (Errorf ''create tool invocation: session_id is required'')
       else if blank (ti_tool i) then Some (Errorf ''create tool invocation: tool_name is required'')
       else if ti_duration_ms i < 0
         then Some (Errorf ''create tool invocation: duration_ms must be non-negative'')
       else if is_zero (ti_created i) then Some (Errorf ''create tool invocation: created_at is required'')
       else if ti_success i \<and> ti_error i \<noteq> None
         then Some (Errorf ''create tool invocation: successful record must not contain error_message'')
       else if \<not> ti_success i \<and> (case ti_error i of None \<Rightarrow> True | Some m \<Rightarrow> blank m)
         then Some (Errorf ''create tool invocation: failed record requires error_message'')
       else None)"

definition sanitize_invocation :: "url_parser \<Rightarrow> tool_invocation \<Rightarrow> tool_invocation" where
  "sanitize_invocation U i = i\<lparr>ti_error := map_option (SanitizeErrorString U) (ti_error i)\<rparr>"

definition ToolInvocationRepository_Create ::
  "'x env \<Rightarrow> repository option \<Rightarrow> goctx option \<Rightarrow> tool_invocation option \<Rightarrow> 'x wld
     \<Rightarrow> gerror option \<times> 'x wld" where
  "ToolInvocationRepository_Create E repo ctx invocation w =
     (if no_repository repo then (Some (Errorf ''create tool invocation: repository is nil''), w)
      else case ctx of
        None \<Rightarrow> (Some (Errorf ''create tool invocation: context is nil''), w)
      | Some cx \<Rightarrow>
          (let sanitized = map_option (sanitize_invocation (env_url_parse E)) invocation in
           case validateToolInvocation sanitized of
             Some e \<Rightarrow> (Some e, w)
           | None \<Rightarrow>
               (let (r, w1) = outside (env_insert_tool E cx (the sanitized)) (EvInsertTool cx (the sanitized)) w
                in (map_option (Wrapf ''create tool invocation: '') r, w1))))"

section \<open>The contract of a recorder\<close>

text \<open>
  A recorder either rejects a row, and then nothing reaches the database, or makes exactly one insert,
  with the context it was given, and succeeds exactly when that insert does.
\<close>

locale audit_recorder =
  fixes create :: "goctx option \<Rightarrow> 'row option \<Rightarrow> 'x wld \<Rightarrow> gerror option \<times> 'x wld"
    and insert_event :: "goctx \<Rightarrow> 'row \<Rightarrow> gerror option \<Rightarrow> event"
    and accepts :: "'row \<Rightarrow> bool"
    and stored :: "'row \<Rightarrow> 'row"
  assumes create_accepted:
      "accepts r \<Longrightarrow> create (Some cx) (Some r) w = (e, w') \<Longrightarrow>
       \<exists>e0. emitted w [insert_event cx (stored r) e0] w' \<and> (e = None \<longleftrightarrow> e0 = None)"
    and create_rejected:
      "\<not> accepts r \<Longrightarrow> create (Some cx) (Some r) w = (e, w') \<Longrightarrow> e \<noteq> None \<and> emitted w [] w'"
begin

lemma create_emits:
  assumes "create (Some cx) (Some r) w = (e, w')"
  obtains "e \<noteq> None" "emitted w [] w'"
    | e0 where "accepts r" "emitted w [insert_event cx (stored r) e0] w'" "e = None \<longleftrightarrow> e0 = None"
  using create_accepted [OF _ assms] create_rejected [OF _ assms] by blast

lemma create_success:
  assumes "create (Some cx) (Some r) w = (None, w')"
  shows "accepts r \<and> emitted w [insert_event cx (stored r) None] w'"
  using assms by (cases rule: create_emits) auto

lemma create_at_most_one:
  assumes "create (Some cx) (Some r) w = (e, w')"
  shows "\<exists>es. emitted w es w' \<and> length es \<le> 1 \<and> (\<forall>ev \<in> set es. \<exists>e0. ev = insert_event cx (stored r) e0)"
  using assms by (cases rule: create_emits) fastforce+

end

definition open_repository :: repository where
  "open_repository = \<lparr>rp_database = Some ()\<rparr>"

lemma no_repository_open [simp]: "\<not> no_repository (Some open_repository)"
  by (simp add: no_repository_def open_repository_def)

interpretation llm_rows: audit_recorder
  "LlmCallRepository_Create E (Some open_repository)" EvInsertLlm
  "\<lambda>r. validateLlmCall (Some r) = None" "\<lambda>r. r" for E
proof unfold_locales
  fix r cx w e w'
  assume "validateLlmCall (Some r) = None"
    "LlmCallRepository_Create E (Some open_repository) (Some cx) (Some r) w = (e, w')"
  then show "\<exists>e0. emitted w [EvInsertLlm cx r e0] w' \<and> (e = None \<longleftrightarrow> e0 = None)"
    by (auto simp: LlmCallRepository_Create_def split: prod.splits dest: emitted_outside)
next
  fix r cx w e w'
  assume "validateLlmCall (Some r) \<noteq> None"
  then obtain y where "validateLlmCall (Some r) = Some y" by blast
  moreover assume "LlmCallRepository_Create E (Some open_repository) (Some cx) (Some r) w = (e, w')"
  ultimately show "e \<noteq> None \<and> emitted w [] w'"
    by (auto simp: LlmCallRepository_Create_def) metis
qed

interpretation tool_rows: audit_recorder
  "ToolInvocationRepository_Create E (Some open_repository)" EvInsertTool
  "\<lambda>r. validateToolInvocation (Some (sanitize_invocation (env_url_parse E) r)) = None"
  "sanitize_invocation (env_url_parse E)" for E
proof unfold_locales
  fix r cx w e w'
  assume "validateToolInvocation (Some (sanitize_invocation (env_url_parse E) r)) = None"
    "ToolInvocationRepository_Create E (Some open_repository) (Some cx) (Some r) w = (e, w')"
  then show "\<exists>e0. emitted w [EvInsertTool cx (sanitize_invocation (env_url_parse E) r) e0] w' \<and>
      (e = None \<longleftrightarrow> e0 = None)"
    by (auto simp: ToolInvocationRepository_Create_def Let_def split: prod.splits dest: emitted_outside)
next
  fix r cx w e w'
  assume "validateToolInvocation (Some (sanitize_invocation (env_url_parse E) r)) \<noteq> None"
  then obtain y where "validateToolInvocation (Some (sanitize_invocation (env_url_parse E) r)) = Some y"
    by blast
  moreover assume "ToolInvocationRepository_Create E (Some open_repository) (Some cx) (Some r) w = (e, w')"
  ultimately show "e \<noteq> None \<and> emitted w [] w'"
    by (auto simp: ToolInvocationRepository_Create_def Let_def) metis
qed

section \<open>What an inserted row promises\<close>

text \<open>
  Stated apart from the code's checks, over a row as a reader of the tables sees it: the columns that name
  something say something, no number is negative, the time is set, and a message is there exactly when the
  row reports a failure (a call row may report a failure without one).
\<close>

definition says_something :: "string \<Rightarrow> bool" where
  "says_something t \<longleftrightarrow> trim_space t \<noteq> []"

definition sound_llm_row :: "llm_call \<Rightarrow> bool" where
  "sound_llm_row r \<longleftrightarrow> list_all says_something [lc_session r, lc_provider r, lc_model r] \<and>
     list_all (\<lambda>n. 0 \<le> n) [lc_prompt_tokens r, lc_completion_tokens r, lc_total_tokens r, lc_duration_ms r] \<and>
     \<not> is_zero (lc_created r) \<and> (lc_error r \<noteq> None \<longrightarrow> \<not> lc_success r)"

definition sound_tool_row :: "tool_invocation \<Rightarrow> bool" where
  "sound_tool_row r \<longleftrightarrow> list_all says_something [ti_session r, ti_tool r] \<and> 0 \<le> ti_duration_ms r \<and>
     \<not> is_zero (ti_created r) \<and> (ti_success r \<longleftrightarrow> ti_error r = None) \<and> pred_option says_something (ti_error r)"

lemma validateLlmCall_sound: "validateLlmCall (Some r) = None \<longleftrightarrow> sound_llm_row r"
  by (auto simp: validateLlmCall_def sound_llm_row_def says_something_def blank_def)

lemma validateToolInvocation_sound: "validateToolInvocation (Some r) = None \<longleftrightarrow> sound_tool_row r"
  by (auto simp: validateToolInvocation_def sound_tool_row_def says_something_def blank_def split: option.splits)

text \<open>
  C19.  A row reaches the database exactly when it is sound, and then once, with the caller's context, and the
  call reports no error exactly when the insert does; otherwise nothing is inserted and the call reports an
  error.  A call row is stored as it is.  A Tool row is stored with its message sanitized and nothing else
  changed; it is that row that has to be sound, and its message never looks like a secret.
\<close>

theorem repositories_insert_valid_rows:
  assumes "LlmCallRepository_Create E (Some open_repository) ctx row w = (e, w')"
    and "ToolInvocationRepository_Create E (Some open_repository) ctx invocation v = (f, v')"
  shows "((\<exists>cx r e0. ctx = Some cx \<and> row = Some r \<and> sound_llm_row r \<and>
        emitted w [EvInsertLlm cx r e0] w' \<and> (e = None \<longleftrightarrow> e0 = None)) \<or>
      \<not> (ctx \<noteq> None \<and> (\<exists>r. row = Some r \<and> sound_llm_row r)) \<and> emitted w [] w' \<and> e \<noteq> None) \<and>
    ((\<exists>cx i stored f0. ctx = Some cx \<and> invocation = Some i \<and> sound_tool_row stored \<and>
        stored = i\<lparr>ti_error := map_option (SanitizeErrorString (env_url_parse E)) (ti_error i)\<rparr> \<and>
        pred_option (\<lambda>m. \<not> sensitive_text (env_url_parse E) m) (ti_error stored) \<and>
        emitted v [EvInsertTool cx stored f0] v' \<and> (f = None \<longleftrightarrow> f0 = None)) \<or>
      \<not> (ctx \<noteq> None \<and> (\<exists>i. invocation = Some i \<and>
          sound_tool_row (i\<lparr>ti_error := map_option (SanitizeErrorString (env_url_parse E)) (ti_error i)\<rparr>))) \<and>
        emitted v [] v' \<and> f \<noteq> None)" (is "?llm \<and> ?tool")
proof (cases ctx)
  case None
  then show ?thesis using assms by (auto simp: LlmCallRepository_Create_def ToolInvocationRepository_Create_def)
next
  case (Some cx)
  have ?llm
  proof (cases row)
    case None
    then show ?thesis using assms(1) Some by (auto simp: LlmCallRepository_Create_def validateLlmCall_def)
  next
    case (Some r)
    with assms(1) \<open>ctx = Some cx\<close> show ?thesis
      using llm_rows.create_accepted [of r E cx w e w'] llm_rows.create_rejected [of r E cx w e w']
      unfolding validateLlmCall_sound by blast
  qed
  moreover have ?tool
  proof (cases invocation)
    case None
    then show ?thesis using assms(2) Some by (auto simp: ToolInvocationRepository_Create_def validateToolInvocation_def)
  next
    case (Some i)
    let ?stored = "i\<lparr>ti_error := map_option (SanitizeErrorString (env_url_parse E)) (ti_error i)\<rparr>"
    have stored: "sanitize_invocation (env_url_parse E) i = ?stored" by (simp add: sanitize_invocation_def)
    have "pred_option (\<lambda>m. \<not> sensitive_text (env_url_parse E) m) (ti_error ?stored)"
      by (cases "ti_error i") (simp_all add: Sanitize_not_sensitive)
    with assms(2) \<open>ctx = Some cx\<close> Some show ?thesis
      using tool_rows.create_accepted [of E i cx v f v'] tool_rows.create_rejected [of E i cx v f v']
      unfolding validateToolInvocation_sound stored by blast
  qed
  ultimately show ?thesis by blast
qed

lemma demo_rows_valid:
  "validateLlmCall (Some demo_llm_row) = None"
  "validateToolInvocation (Some (sanitize_invocation U demo_tool_row)) = None"
  by (simp_all add: validateLlmCall_def demo_llm_row_def validateToolInvocation_def sanitize_invocation_def
      demo_tool_row_def not_blank_demo not_blank_names is_zero_def)

lemma repositories_insert_valid_rows_witness:
  "\<exists>e0. emitted demo_world [EvInsertLlm demo_ctx demo_llm_row e0]
     (snd (LlmCallRepository_Create demo_env (Some open_repository) (Some demo_ctx) (Some demo_llm_row) demo_world))"
proof -
  obtain e w' f v' where run: "LlmCallRepository_Create demo_env (Some open_repository) (Some demo_ctx) (Some demo_llm_row)
      demo_world = (e, w')"
    "ToolInvocationRepository_Create demo_env (Some open_repository) (Some demo_ctx) (Some demo_tool_row)
      demo_world = (f, v')" by (metis surj_pair)
  have "sound_llm_row demo_llm_row" using demo_rows_valid(1) by (simp add: validateLlmCall_sound)
  with repositories_insert_valid_rows [OF run] run(1) show ?thesis by auto
qed

end
