(* ===== verification/Tool_Schema.thy ===== *)
theory Tool_Schema
  imports Domain
begin

text \<open>
  internal/tool/schema.go: the subset of JSON Schema that Tool arguments are checked against.  A type
  assertion of the code that would panic is the outcome \<open>Panics\<close>; the lemmas show that a schema
  that passed \<open>validateSchema\<close> never leads there.  The entries of a map are visited in the order
  of their list, which the theorems show not to matter for acceptance.
\<close>

section \<open>Outcomes\<close>

datatype check = Accepted | Rejected gerror | Panics

fun then_check :: "check \<Rightarrow> check \<Rightarrow> check" where
  "then_check Accepted c = c"
| "then_check (Rejected e) c = Rejected e"
| "then_check Panics c = Panics"

fun check_all :: "check list \<Rightarrow> check" where
  "check_all [] = Accepted"
| "check_all (c # cs) = then_check c (check_all cs)"

fun wrap_check :: "string \<Rightarrow> check \<Rightarrow> check" where
  "wrap_check p (Rejected e) = Rejected (Wrapf p e)"
| "wrap_check p c = c"

definition require :: "bool \<Rightarrow> string \<Rightarrow> check" where
  "require b text = (if b then Accepted else Rejected (Errorf text))"

lemma then_check_Accepted [simp]: "then_check a b = Accepted \<longleftrightarrow> a = Accepted \<and> b = Accepted"
  by (cases a) auto

lemma check_all_Accepted [simp]: "check_all cs = Accepted \<longleftrightarrow> (\<forall>c \<in> set cs. c = Accepted)"
  by (induction cs) auto

lemma wrap_check_Accepted [simp]: "wrap_check p c = Accepted \<longleftrightarrow> c = Accepted"
  by (cases c) auto

lemma require_Accepted [simp]: "require b t = Accepted \<longleftrightarrow> b"
  by (simp add: require_def)

lemma require_Panics [simp]: "require b t \<noteq> Panics" "Panics \<noteq> require b t"
  by (simp_all add: require_def)

lemma then_check_Panics [simp]:
  "then_check a b = Panics \<longleftrightarrow> a = Panics \<or> a = Accepted \<and> b = Panics"
  "Panics = then_check a b \<longleftrightarrow> a = Panics \<or> a = Accepted \<and> b = Panics"
  by (cases a; auto)+

lemma check_all_Panics: "(\<And>c. c \<in> set cs \<Longrightarrow> c \<noteq> Panics) \<Longrightarrow> check_all cs \<noteq> Panics"
proof (induction cs)
  case (Cons c cs)
  then show ?case by auto
qed simp

lemma check_all_require_Panics [simp]: "check_all (map (\<lambda>x. require (P x) (t x)) xs) \<noteq> Panics"
  by (rule check_all_Panics) auto

section \<open>Documents\<close>

text \<open>
  \<open>J\<close> is the text of the JSON decoder's own diagnostic for a document; \<open>fits\<close> says which
  values the destination takes.
\<close>

definition decodeOneJSON :: "(string \<Rightarrow> string) \<Rightarrow> (any \<Rightarrow> bool) \<Rightarrow> string \<Rightarrow> gerror + any" where
  "decodeOneJSON J fits data =
     (if blank data then Inl (Errorf ''document is empty'')
      else let (ts, clean) = scan_tokens data in
        (case decode_next ts of
           None \<Rightarrow> Inl (Foreign (J data) None None [])
         | Some (v, rest) \<Rightarrow>
             if \<not> fits v then Inl (Foreign (J data) None None [])
             else if rest = [] \<and> clean then Inr v
             else if decode_next rest \<noteq> None then Inl (Errorf ''multiple JSON values'')
             else Inl (Foreign (J data) None None [])))"

text \<open>The destination \<open>map[string]any\<close> takes an object, and null as the nil map.\<close>

fun fits_map :: "any \<Rightarrow> bool" where
  "fits_map (AObject m) = True"
| "fits_map ANull = True"
| "fits_map _ = False"

fun as_map :: "any \<Rightarrow> (string \<times> any) list" where
  "as_map (AObject m) = m"
| "as_map _ = []"

lemma decodeOneJSON_Inr:
  "decodeOneJSON J fits data = Inr v \<longleftrightarrow> \<not> blank data \<and> parse_json data = Some v \<and> fits v"
  by (auto simp: decodeOneJSON_def parse_json_decode Let_def split: prod.splits option.splits)

section \<open>Schemas\<close>

definition supportedSchemaKeywords :: "string list" where
  "supportedSchemaKeywords =
     [''type'', ''properties'', ''required'', ''additionalProperties'', ''items'', ''enum'']"

definition scalar_types :: "string list" where
  "scalar_types = [''string'', ''number'', ''integer'', ''boolean'', ''null'']"

abbreviation get :: "(string \<times> any) list \<Rightarrow> string \<Rightarrow> any option" where
  "get m k \<equiv> map_of m k"

fun is_string :: "any \<Rightarrow> bool" where
  "is_string (AString s) = True"
| "is_string _ = False"

definition check_required :: "(string \<times> any) list \<Rightarrow> check" where
  "check_required schema = (case get schema ''required'' of
     None \<Rightarrow> Accepted
   | Some (AList items) \<Rightarrow>
       check_all (map (\<lambda>item. require (is_string item) ''required values must be strings'') items)
   | Some _ \<Rightarrow> Rejected (Errorf ''required must be an array''))"

definition check_additional :: "(string \<times> any) list \<Rightarrow> check" where
  "check_additional schema = (case get schema ''additionalProperties'' of
     None \<Rightarrow> Accepted
   | Some raw \<Rightarrow> require (raw = ABool False) ''additionalProperties only supports false'')"

definition check_enum :: "(string \<times> any) list \<Rightarrow> check" where
  "check_enum schema = (case get schema ''enum'' of
     None \<Rightarrow> Accepted | Some (AList cs) \<Rightarrow> Accepted
   | Some _ \<Rightarrow> Rejected (Errorf ''enum must be an array''))"

lemma size_field:
  assumes "get m k = Some v"
  shows "size v < Suc (size_list (size_prod (\<lambda>x. 0) size) m)"
  using size_entry [OF map_of_SomeD [OF assms]] by simp

function validateSchema :: "(string \<times> any) list \<Rightarrow> bool \<Rightarrow> check" where
  "validateSchema schema root =
     then_check
       (check_all (map (\<lambda>e. require (fst e \<in> set supportedSchemaKeywords)
                              (''unsupported keyword '' @ quote (fst e))) schema))
     (case get schema ''type'' of
        Some (AString typeName) \<Rightarrow>
          then_check (require (\<not> (root \<and> typeName \<noteq> ''object'')) ''root type must be object'')
         (then_check
           (if typeName = ''object'' then
              then_check
                (case get schema ''properties'' of
                   None \<Rightarrow> Accepted
                 | Some (AObject properties) \<Rightarrow>
                     check_all (map (\<lambda>e. (case snd e of
                         AObject property \<Rightarrow>
                           wrap_check (''property '' @ quote (fst e) @ '': '') (validateSchema property False)
                       | _ \<Rightarrow> Rejected (Errorf (''property '' @ quote (fst e) @ '' must be a schema object''))))
                       properties)
                 | Some _ \<Rightarrow> Rejected (Errorf ''properties must be an object''))
              (then_check (check_required schema) (check_additional schema))
            else if typeName = ''array'' then
              (case get schema ''items'' of
                 None \<Rightarrow> Rejected (Errorf ''array items schema is required'')
               | Some (AObject items) \<Rightarrow> wrap_check ''items: '' (validateSchema items False)
               | Some _ \<Rightarrow> Rejected (Errorf ''items must be a schema object''))
            else require (typeName \<in> set scalar_types) (''unsupported type '' @ quote typeName))
          (check_enum schema))
      | _ \<Rightarrow> Rejected (Errorf ''type must be a string''))"
  by pat_completeness auto
termination
proof (relation "measure (\<lambda>(s, r). size_list (size_prod (\<lambda>x. 0) size) s)")
  fix schema properties property :: "(string \<times> any) list" and e x y
  assume "get schema ''properties'' = Some x" "x = AObject properties" "e \<in> set properties" "snd e = AObject property"
  then show "((property, False), schema, y) \<in> measure (\<lambda>(s, r). size_list (size_prod (\<lambda>x. 0) size) s)"
    using size_field [of schema "''properties''" x] size_entry [of "fst e" "snd e" properties]
    by (cases e) auto
next
  fix schema items :: "(string \<times> any) list" and x y
  assume "get schema ''items'' = Some x" "x = AObject items"
  then show "((items, False), schema, y) \<in> measure (\<lambda>(s, r). size_list (size_prod (\<lambda>x. 0) size) s)"
    using size_field [of schema "''items''" x] by auto
qed simp

declare validateSchema.simps [simp del]

section \<open>Values\<close>

text \<open>\<open>json.Number.Int64\<close> succeeds: decimal digits with an optional minus sign, in range.\<close>

definition digits_value :: "string \<Rightarrow> int" where
  "digits_value s = foldl (\<lambda>n c. n * 10 + (int (byte c) - 48)) 0 s"

definition int64_literal :: "string \<Rightarrow> bool" where
  "int64_literal s = (let d = (if has_prefix s ''-'' then tl s else s);
                          n = (if has_prefix s ''-'' then - digits_value d else digits_value d)
     in d \<noteq> [] \<and> list_all is_digit d \<and> - (2 ^ 63) \<le> n \<and> n < 2 ^ 63)"

definition enum_allows :: "(string \<times> any) list \<Rightarrow> any \<Rightarrow> bool" where
  "enum_allows schema v = (case get schema ''enum'' of
     Some (AList choices) \<Rightarrow> (\<exists>c \<in> set choices. deep_equal c v) | _ \<Rightarrow> True)"

text \<open>\<open>properties, _ := schema["properties"].(map[string]any)\<close>\<close>

definition properties_of :: "(string \<times> any) list \<Rightarrow> (string \<times> any) list" where
  "properties_of schema = (case get schema ''properties'' of Some (AObject p) \<Rightarrow> p | _ \<Rightarrow> [])"

definition check_names :: "(string \<times> any) list \<Rightarrow> (string \<times> any) list \<Rightarrow> string \<Rightarrow> check" where
  "check_names schema object path = (case get schema ''required'' of
     Some (AList required) \<Rightarrow>
       check_all (map (\<lambda>rawName. case rawName of
           AString name \<Rightarrow> require (get object name \<noteq> None) (path @ ''.'' @ name @ '' is required'')
         | _ \<Rightarrow> Panics) required)
   | _ \<Rightarrow> Accepted)"

definition check_declared :: "(string \<times> any) list \<Rightarrow> (string \<times> any) list \<Rightarrow> string \<Rightarrow> check" where
  "check_declared schema object path =
     (if get schema ''additionalProperties'' = Some (ABool False) then
        check_all (map (\<lambda>e. require (get (properties_of schema) (fst e) \<noteq> None)
                             (path @ ''.'' @ fst e @ '' is not allowed'')) object)
      else Accepted)"

lemma properties_of_size:
  "(n, AObject p) \<in> set (properties_of s) \<Longrightarrow>
   size_list (size_prod (\<lambda>x. 0) size) p < size_list (size_prod (\<lambda>x. 0) size) s"
  using size_field [of s "''properties''"] size_entry [of n "AObject p" "properties_of s"]
  by (fastforce simp: properties_of_def split: option.splits any.splits)

function validateValue :: "(string \<times> any) list \<Rightarrow> any \<Rightarrow> string \<Rightarrow> check" where
  "validateValue schema v path =
     then_check (require (enum_allows schema v) (path @ '' is not an allowed enum value''))
     (case get schema ''type'' of
        Some (AString typeName) \<Rightarrow>
          (if typeName = ''object'' then
             (case v of
                AObject object \<Rightarrow>
                  then_check (check_names schema object path)
                 (then_check (check_declared schema object path)
                 (check_all (map (\<lambda>e. (case get object (fst e) of
                     None \<Rightarrow> Accepted
                   | Some x \<Rightarrow> (case snd e of
                       AObject property \<Rightarrow> validateValue property x (path @ ''.'' @ fst e)
                     | _ \<Rightarrow> Panics))) (properties_of schema))))
              | _ \<Rightarrow> Rejected (Errorf (path @ '' must be an object'')))
           else if typeName = ''array'' then
             (case v of
                AList array \<Rightarrow>
                  (case get schema ''items'' of
                     Some (AObject items) \<Rightarrow>
                       check_all (map (\<lambda>(i, x). validateValue items x (path @ ''['' @ itoa (int i) @ '']''))
                         (enumerate 0 array))
                   | _ \<Rightarrow> Panics)
              | _ \<Rightarrow> Rejected (Errorf (path @ '' must be an array'')))
           else if typeName = ''string'' then
             require (is_string v) (path @ '' must be a string'')
           else if typeName = ''number'' then
             require (case v of ANumber n \<Rightarrow> True | _ \<Rightarrow> False) (path @ '' must be a number'')
           else if typeName = ''integer'' then
             require (case v of ANumber n \<Rightarrow> int64_literal n | _ \<Rightarrow> False) (path @ '' must be an integer'')
           else if typeName = ''boolean'' then
             require (case v of ABool b \<Rightarrow> True | _ \<Rightarrow> False) (path @ '' must be a boolean'')
           else if typeName = ''null'' then require (v = ANull) (path @ '' must be null'')
           else Accepted)
      | _ \<Rightarrow> Panics)"
  by pat_completeness auto
termination
proof (relation "measure (\<lambda>(s, v, p). size_list (size_prod (\<lambda>x. 0) size) s)")
  fix schema property :: "(string \<times> any) list" and e x y z
  assume "e \<in> set (properties_of schema)" "snd e = AObject property"
  then have "(fst e, AObject property) \<in> set (properties_of schema)"
    by (metis prod.collapse)
  then show "((property, x), schema, y) \<in> measure (\<lambda>(s, v, p). size_list (size_prod (\<lambda>x. 0) size) s)"
    using properties_of_size by (auto split: prod.splits)
next
  fix schema items :: "(string \<times> any) list" and x y z
  assume "get schema ''items'' = Some x" "x = AObject items"
  then show "((items, y), schema, z) \<in> measure (\<lambda>(s, v, p). size_list (size_prod (\<lambda>x. 0) size) s)"
    using size_field [of schema "''items''" x] by (auto split: prod.splits)
qed simp

declare validateValue.simps [simp del]

definition validateArguments :: "(string \<Rightarrow> string) \<Rightarrow> string \<Rightarrow> string \<Rightarrow> check" where
  "validateArguments J schemaDocument arguments =
     (case decodeOneJSON J fits_map schemaDocument of
        Inl e \<Rightarrow> Rejected (Wrapf ''invalid tool schema: '' e)
      | Inr s \<Rightarrow>
          then_check (wrap_check ''invalid tool schema: '' (validateSchema (as_map s) True))
          (case decodeOneJSON J (\<lambda>v. True) arguments of
             Inl e \<Rightarrow> Rejected (Wrapf ''invalid tool arguments: '' e)
           | Inr v \<Rightarrow> wrap_check ''invalid tool arguments: '' (validateValue (as_map s) v ''$arguments'')))"

section \<open>What a valid schema is\<close>

lemma schema_type:
  assumes "validateSchema s root = Accepted"
  obtains t where "get s ''type'' = Some (AString t)" "root \<longrightarrow> t = ''object''"
    "t = ''object'' \<or> t = ''array'' \<or> t \<in> set scalar_types"
  using assms by (subst (asm) validateSchema.simps)
    (auto split: option.splits any.splits if_splits)

lemma properties_get: "properties_of s \<noteq> [] \<Longrightarrow> get s ''properties'' = Some (AObject (properties_of s))"
proof -
  assume ne: "properties_of s \<noteq> []"
  then obtain raw where raw: "get s ''properties'' = Some raw"
    by (cases "get s ''properties''") (simp_all add: properties_of_def)
  with ne show ?thesis by (cases raw) (simp_all add: properties_of_def)
qed

lemma schema_properties:
  assumes "validateSchema s root = Accepted" "get s ''type'' = Some (AString ''object'')"
    "(n, raw) \<in> set (properties_of s)"
  shows "\<exists>p. raw = AObject p \<and> validateSchema p False = Accepted"
proof -
  have props: "get s ''properties'' = Some (AObject (properties_of s))"
    using assms(3) by (intro properties_get) auto
  show ?thesis
  proof (cases raw)
    case (AObject p)
    then show ?thesis
      using assms(1,3) by (fastforce simp: validateSchema.simps [of s] assms(2) props)
  qed (use assms(1,3) in \<open>fastforce simp: validateSchema.simps [of s] assms(2) props\<close>)+
qed

lemma schema_items:
  assumes "validateSchema s root = Accepted" "get s ''type'' = Some (AString ''array'')"
  shows "\<exists>items. get s ''items'' = Some (AObject items) \<and> validateSchema items False = Accepted"
  using assms(1) by (simp add: validateSchema.simps [of s] assms(2) split: option.splits any.splits)

lemma schema_required:
  assumes "validateSchema s root = Accepted" "get s ''type'' = Some (AString ''object'')"
    "get s ''required'' = Some raw"
  shows "\<exists>items. raw = AList items \<and> list_all is_string items"
proof -
  have "check_required s = Accepted"
    using assms(1) by (simp add: validateSchema.simps [of s] assms(2))
  with assms(3) show ?thesis
    by (auto simp: check_required_def list_all_iff split: any.splits)
qed

lemma wrap_check_Panics [simp]: "wrap_check p c = Panics \<longleftrightarrow> c = Panics" "Panics = wrap_check p c \<longleftrightarrow> c = Panics"
  by (cases c; auto)+

lemma check_parts_no_panic [simp]:
  "check_required s \<noteq> Panics" "check_additional s \<noteq> Panics" "check_enum s \<noteq> Panics"
  by (auto simp: check_required_def check_additional_def check_enum_def intro!: check_all_Panics
      split: option.splits any.splits)

lemma validateSchema_no_panic: "validateSchema s root \<noteq> Panics"
proof (induction s root rule: validateSchema.induct)
  case (1 s root)
  have props: "(case get s ''properties'' of None \<Rightarrow> Accepted
      | Some (AObject ps) \<Rightarrow> check_all (map (\<lambda>e. (case snd e of
            AObject p \<Rightarrow> wrap_check (''property '' @ quote (fst e) @ '': '') (validateSchema p False)
          | _ \<Rightarrow> Rejected (Errorf (''property '' @ quote (fst e) @ '' must be a schema object'')))) ps)
      | Some _ \<Rightarrow> Rejected (Errorf ''properties must be an object'')) \<noteq> Panics"
    if "get s ''type'' = Some (AString ''object'')"
    using 1(1) [OF that refl refl] 
    by (auto intro!: check_all_Panics split: option.splits any.splits)
  have items: "(case get s ''items'' of None \<Rightarrow> Rejected (Errorf ''array items schema is required'')
      | Some (AObject items) \<Rightarrow> wrap_check ''items: '' (validateSchema items False)
      | Some _ \<Rightarrow> Rejected (Errorf ''items must be a schema object'')) \<noteq> Panics"
    if "get s ''type'' = Some (AString ''array'')"
    using 1(2) [OF that refl] by (auto split: option.splits any.splits)
  show ?case
  proof (cases "\<exists>t. get s ''type'' = Some (AString t)")
    case True
    then obtain t where t: "get s ''type'' = Some (AString t)" by blast
    show ?thesis
      using props items unfolding validateSchema.simps [of s] t option.case any.case
      by (simp add: t del: check_all_Accepted)
  next
    case False
    then show ?thesis
      by (auto simp: validateSchema.simps [of s] split: option.splits any.splits)
  qed
qed

section \<open>What a conforming value is\<close>

text \<open>
  The meaning of a schema, without an order of evaluation: the enumerated choices and, by the type
  name, the fields of an object, the elements of an array, or the kind of a scalar.
\<close>

definition required_names :: "(string \<times> any) list \<Rightarrow> string set" where
  "required_names s = (case get s ''required'' of
     Some (AList names) \<Rightarrow> {n. AString n \<in> set names} | _ \<Rightarrow> {})"

definition closed_schema :: "(string \<times> any) list \<Rightarrow> bool" where
  "closed_schema s \<longleftrightarrow> get s ''additionalProperties'' = Some (ABool False)"

inductive conforms :: "(string \<times> any) list \<Rightarrow> any \<Rightarrow> bool" where
  conforms_object: "\<lbrakk>get s ''type'' = Some (AString ''object''); enum_allows s (AObject m);
    required_names s \<subseteq> dom (map_of m);
    closed_schema s \<longrightarrow> dom (map_of m) \<subseteq> dom (map_of (properties_of s));
    \<forall>name p x. get (properties_of s) name = Some (AObject p) \<longrightarrow> get m name = Some x \<longrightarrow> conforms p x\<rbrakk>
    \<Longrightarrow> conforms s (AObject m)"
| conforms_array: "\<lbrakk>get s ''type'' = Some (AString ''array''); enum_allows s (AList xs);
    get s ''items'' = Some (AObject items); \<forall>x \<in> set xs. conforms items x\<rbrakk> \<Longrightarrow> conforms s (AList xs)"
| conforms_string: "\<lbrakk>get s ''type'' = Some (AString ''string''); enum_allows s (AString t)\<rbrakk>
    \<Longrightarrow> conforms s (AString t)"
| conforms_number: "\<lbrakk>get s ''type'' = Some (AString ''number''); enum_allows s (ANumber n)\<rbrakk>
    \<Longrightarrow> conforms s (ANumber n)"
| conforms_integer: "\<lbrakk>get s ''type'' = Some (AString ''integer''); enum_allows s (ANumber n);
    int64_literal n\<rbrakk> \<Longrightarrow> conforms s (ANumber n)"
| conforms_boolean: "\<lbrakk>get s ''type'' = Some (AString ''boolean''); enum_allows s (ABool b)\<rbrakk>
    \<Longrightarrow> conforms s (ABool b)"
| conforms_null: "\<lbrakk>get s ''type'' = Some (AString ''null''); enum_allows s ANull\<rbrakk> \<Longrightarrow> conforms s ANull"

inductive_simps conforms_AObject: "conforms s (AObject m)"
inductive_simps conforms_AList: "conforms s (AList xs)"
inductive_simps conforms_AString: "conforms s (AString t)"
inductive_simps conforms_ANumber: "conforms s (ANumber n)"
inductive_simps conforms_ABool: "conforms s (ABool b)"
inductive_simps conforms_ANull: "conforms s ANull"

lemmas conforms_simps = conforms_AObject conforms_AList conforms_AString conforms_ANumber conforms_ABool
  conforms_ANull

lemma distinct_get:
  "distinct_keys (AObject m) \<Longrightarrow> get m k = Some v \<Longrightarrow> distinct_keys v"
  by (fastforce dest: map_of_SomeD)

lemma distinct_properties: "distinct_keys (AObject s) \<Longrightarrow> distinct_keys (AObject (properties_of s))"
  by (cases "properties_of s = []") (simp, metis distinct_get properties_get)

lemma check_names_spec:
  assumes "validateSchema s root = Accepted" "get s ''type'' = Some (AString ''object'')"
  shows "check_names s m path \<noteq> Panics"
    "check_names s m path = Accepted \<longleftrightarrow> required_names s \<subseteq> dom (map_of m)"
proof -
  have all: "check_names s m path \<noteq> Panics \<and>
    (check_names s m path = Accepted \<longleftrightarrow> required_names s \<subseteq> dom (map_of m))"
  proof (cases "get s ''required''")
    case (Some raw)
    then obtain items where items: "get s ''required'' = Some (AList items)" "list_all is_string items"
      using schema_required [OF assms] by blast
    have strings: "\<exists>n. i = AString n" if "i \<in> set items" for i
      using items(2) that by (cases i) (auto simp: list_all_iff)
    show ?thesis
    proof
      show "check_names s m path \<noteq> Panics"
        by (auto simp: check_names_def items(1) intro!: check_all_Panics dest!: strings)
      show "check_names s m path = Accepted \<longleftrightarrow> required_names s \<subseteq> dom (map_of m)"
        using strings by (fastforce simp: check_names_def required_names_def items(1))
    qed
  qed (simp add: check_names_def required_names_def)
  then show "check_names s m path \<noteq> Panics"
    "check_names s m path = Accepted \<longleftrightarrow> required_names s \<subseteq> dom (map_of m)" by blast+
qed

lemma check_declared_spec:
  "check_declared s m path \<noteq> Panics"
  "check_declared s m path = Accepted \<longleftrightarrow>
     (closed_schema s \<longrightarrow> dom (map_of m) \<subseteq> dom (map_of (properties_of s)))"
proof -
  show "check_declared s m path \<noteq> Panics"
    by (auto simp: check_declared_def intro!: check_all_Panics)
  have "(\<forall>e \<in> set m. get (properties_of s) (fst e) \<noteq> None) \<longleftrightarrow>
      dom (map_of m) \<subseteq> dom (map_of (properties_of s))"
    by (auto simp: dom_map_of_conv_image_fst [of m])
  then show "check_declared s m path = Accepted \<longleftrightarrow>
     (closed_schema s \<longrightarrow> dom (map_of m) \<subseteq> dom (map_of (properties_of s)))"
    by (simp add: check_declared_def closed_schema_def)
qed

lemma validateValue_scalar:
  assumes "get s ''type'' = Some (AString t)" "t \<in> set scalar_types"
  shows "validateValue s v path \<noteq> Panics \<and> (validateValue s v path = Accepted \<longleftrightarrow> conforms s v)"
  using assms by (cases v) (auto simp: validateValue.simps [of s] scalar_types_def conforms_simps)

lemma conforms_object_iff:
  assumes "get s ''type'' = Some (AString ''object'')"
  shows "conforms s v \<longleftrightarrow> (\<exists>m. v = AObject m \<and> enum_allows s v \<and> required_names s \<subseteq> dom (map_of m) \<and>
    (closed_schema s \<longrightarrow> dom (map_of m) \<subseteq> dom (map_of (properties_of s))) \<and>
    (\<forall>name p x. get (properties_of s) name = Some (AObject p) \<longrightarrow> get m name = Some x \<longrightarrow> conforms p x))"
  using assms by (cases v) (simp_all add: conforms_simps)

lemma conforms_array_iff:
  assumes "get s ''type'' = Some (AString ''array'')" "get s ''items'' = Some (AObject items)"
  shows "conforms s v \<longleftrightarrow> (\<exists>xs. v = AList xs \<and> enum_allows s v \<and> (\<forall>x \<in> set xs. conforms items x))"
  using assms by (cases v) (simp_all add: conforms_simps)

lemma ball_enumerate: "(\<forall>(i, x) \<in> set (enumerate n xs). P x) \<longleftrightarrow> (\<forall>x \<in> set xs. P x)"
  by (induction xs arbitrary: n) auto

text \<open>
  On decoded documents, a value is accepted exactly when it conforms, and no assertion panics.
\<close>

lemma validateValue_spec:
  assumes "validateSchema s root = Accepted" "distinct_keys (AObject s)" "distinct_keys v"
  shows "validateValue s v path \<noteq> Panics \<and> (validateValue s v path = Accepted \<longleftrightarrow> conforms s v)"
  using assms
proof (induction s v path arbitrary: root rule: validateValue.induct)
  case (1 s v path)
  obtain t where t: "get s ''type'' = Some (AString t)"
      "t = ''object'' \<or> t = ''array'' \<or> t \<in> set scalar_types"
    using schema_type [OF "1.prems"(1)] by metis
  from t(2) consider (object) "t = ''object''" | (array) "t = ''array''" | (scalar) "t \<in> set scalar_types"
    by blast
  then show ?case
  proof cases
    case scalar
    then show ?thesis using validateValue_scalar t(1) by blast
  next
    case array
    with t have ty: "get s ''type'' = Some (AString ''array'')" by simp
    obtain items where items: "get s ''items'' = Some (AObject items)" "validateSchema items False = Accepted"
      using schema_items [OF "1.prems"(1) ty] by blast
    have di: "distinct_keys (AObject items)"
      using distinct_get [OF "1.prems"(2) items(1)] .
    show ?thesis
    proof (cases v)
      case (AList xs)
      have each: "validateValue items x p \<noteq> Panics \<and> (validateValue items x p = Accepted \<longleftrightarrow> conforms items x)"
        if "(i, x) \<in> set (enumerate 0 xs)" "p = path @ ''['' @ itoa (int i) @ '']''" for i x p
      proof -
        have "x \<in> set xs" using that(1) by (auto simp: in_set_enumerate_eq)
        then show ?thesis
          using "1.IH"(2) [OF ty refl _ refl AList items(1) refl that(1) refl, of False] items(2) di "1.prems"(3) AList that(2)
          by simp
      qed
      let ?cs = "map (\<lambda>(i, x). validateValue items x (path @ ''['' @ itoa (int i) @ '']'')) (enumerate 0 xs)"
      have no_panic: "check_all ?cs \<noteq> Panics"
        by (rule check_all_Panics) (use each in fastforce)
      have "check_all ?cs = Accepted \<longleftrightarrow> (\<forall>(i, x) \<in> set (enumerate 0 xs). conforms items x)"
        unfolding check_all_Accepted using each by fastforce
      also have "\<dots> \<longleftrightarrow> (\<forall>x \<in> set xs. conforms items x)"
        by (rule ball_enumerate)
      finally show ?thesis
        unfolding validateValue.simps [of s] conforms_array_iff [OF ty items(1)] using no_panic
        by (simp add: ty items(1) AList del: check_all_Accepted)
    qed (simp_all add: validateValue.simps [of s] conforms_array_iff [OF ty items(1)] ty)
  next
    case object
    with t have ty: "get s ''type'' = Some (AString ''object'')" by simp
    show ?thesis
    proof (cases v)
      case (AObject m)
      let ?c = "\<lambda>e. case get m (fst e) of None \<Rightarrow> Accepted
          | Some x \<Rightarrow> (case snd e of AObject p \<Rightarrow> validateValue p x (path @ ''.'' @ fst e) | _ \<Rightarrow> Panics)"
      have dm: "distinct_keys x" if "get m n = Some x" for n x
        using distinct_get "1.prems"(3) that AObject by blast
      have dp: "distinct_keys (AObject (properties_of s))"
        using distinct_properties "1.prems"(2) .
      have each: "?c e \<noteq> Panics \<and> (?c e = Accepted \<longleftrightarrow>
          (\<forall>p x. snd e = AObject p \<longrightarrow> get m (fst e) = Some x \<longrightarrow> conforms p x))"
        if e: "e \<in> set (properties_of s)" for e
      proof (cases "get m (fst e)")
        case (Some x)
        obtain p where p: "snd e = AObject p" "validateSchema p False = Accepted"
          using schema_properties [OF "1.prems"(1) ty, of "fst e" "snd e"] e by auto
        have "distinct_keys (AObject p)" using dp e p(1) by (metis distinct_keys.simps(2))
        then show ?thesis
          using "1.IH"(1) [OF ty refl refl AObject e Some p(1) p(2) _ dm [OF Some]] by (simp add: Some p(1))
      qed simp
      have no_panic: "check_all (map ?c (properties_of s)) \<noteq> Panics"
        by (rule check_all_Panics) (use each in auto)
      have "check_all (map ?c (properties_of s)) = Accepted \<longleftrightarrow>
          (\<forall>e \<in> set (properties_of s). \<forall>p x. snd e = AObject p \<longrightarrow> get m (fst e) = Some x \<longrightarrow> conforms p x)"
        using each by simp
      also have "\<dots> \<longleftrightarrow> (\<forall>n p x. get (properties_of s) n = Some (AObject p) \<longrightarrow> get m n = Some x \<longrightarrow> conforms p x)"
        using dp by (auto dest: map_of_SomeD)
      finally show ?thesis
        unfolding validateValue.simps [of s] conforms_object_iff [OF ty]
        using no_panic check_names_spec [OF "1.prems"(1) ty, of m path] check_declared_spec [of s m path]
        by (auto simp: ty AObject simp del: check_all_Accepted)
    qed (simp_all add: validateValue.simps [of s] conforms_object_iff [OF ty] ty)
  qed
qed

text \<open>The check of a Tool call, on documents.\<close>

definition accepted_arguments :: "string \<Rightarrow> string \<Rightarrow> bool" where
  "accepted_arguments schemaDocument arguments \<longleftrightarrow> (\<exists>s v. \<not> blank schemaDocument \<and> \<not> blank arguments \<and>
     parse_json schemaDocument = Some (AObject s) \<and> validateSchema s True = Accepted \<and>
     parse_json arguments = Some v \<and> conforms s v)"

lemma parse_json_keys: "parse_json s = Some v \<Longrightarrow> distinct_keys v"
  using decode_next_keys by (auto simp: parse_json_decode)

lemma decoded_schema:
  assumes "decodeOneJSON J fits_map d = Inr s"
  shows "distinct_keys (AObject (as_map s))" "validateSchema (as_map s) True = Accepted \<Longrightarrow> s = AObject (as_map s)"
proof -
  have s: "parse_json d = Some s" "fits_map s" using assms by (simp_all add: decodeOneJSON_Inr)
  show "distinct_keys (AObject (as_map s))"
    using parse_json_keys [OF s(1)] s(2) by (cases s) auto
  show "validateSchema (as_map s) True = Accepted \<Longrightarrow> s = AObject (as_map s)"
    using s(2) by (cases s) (auto simp: validateSchema.simps)
qed

lemma validateArguments_no_panic: "validateArguments J d args \<noteq> Panics"
  using validateSchema_no_panic validateValue_spec [OF _ decoded_schema(1)] parse_json_keys
  by (auto simp: validateArguments_def decodeOneJSON_Inr split: sum.splits)

lemma validateArguments_accepted:
  "validateArguments J d args = Accepted \<longleftrightarrow> accepted_arguments d args"
proof
  assume "validateArguments J d args = Accepted"
  then obtain s v where s: "decodeOneJSON J fits_map d = Inr s" "validateSchema (as_map s) True = Accepted"
    and v: "decodeOneJSON J (\<lambda>v. True) args = Inr v" "validateValue (as_map s) v ''$arguments'' = Accepted"
    by (auto simp: validateArguments_def split: sum.splits)
  have pv: "\<not> blank args" "parse_json args = Some v" and ps: "\<not> blank d" "parse_json d = Some s"
    using v(1) s(1) by (simp_all add: decodeOneJSON_Inr)
  have "conforms (as_map s) v"
    using validateValue_spec [OF s(2) decoded_schema(1) [OF s(1)] parse_json_keys [OF pv(2)]] v(2) by blast
  then show "accepted_arguments d args"
    unfolding accepted_arguments_def using pv ps s(2) decoded_schema(2) [OF s(1) s(2)] by metis
next
  assume "accepted_arguments d args"
  then obtain s v where a: "\<not> blank d" "\<not> blank args" "parse_json d = Some (AObject s)"
    "validateSchema s True = Accepted" "parse_json args = Some v" "conforms s v"
    by (auto simp: accepted_arguments_def)
  have "decodeOneJSON J fits_map d = Inr (AObject s)" "decodeOneJSON J (\<lambda>v. True) args = Inr v"
    using a by (simp_all add: decodeOneJSON_Inr)
  moreover have "validateValue s v ''$arguments'' = Accepted"
    using validateValue_spec [OF a(4) parse_json_keys [OF a(3)] parse_json_keys [OF a(5)]] a(6) by blast
  ultimately show "validateArguments J d args = Accepted"
    by (simp add: validateArguments_def a(4))
qed

text \<open>
  C13.  Exact acceptance.  Validation never panics, and it accepts arguments exactly when both documents
  decode, the schema is one of the supported subset with an object at its root, and the arguments conform
  to it.  What conforms does not depend on the order in which the entries of a map are visited.
\<close>

theorem validateArguments_exact:
  "validateArguments J schemaDocument arguments \<noteq> Panics \<and>
   (validateArguments J schemaDocument arguments = Accepted \<longleftrightarrow>
     (\<exists>s v. \<not> blank schemaDocument \<and> \<not> blank arguments \<and>
        parse_json schemaDocument = Some (AObject s) \<and> validateSchema s True = Accepted \<and>
        parse_json arguments = Some v \<and> conforms s v))"
  using validateArguments_no_panic validateArguments_accepted [of J schemaDocument arguments]
  by (simp add: accepted_arguments_def)

end
