(* ===== verification/Observability.thy ===== *)
theory Observability
  imports Domain
begin

text \<open>
  internal/observability: the correlation values a context carries and the logger enriched with them.
\<close>

definition WithCorrelation :: "goctx \<Rightarrow> correlation \<Rightarrow> goctx" where
  "WithCorrelation cx c = with_correlation c cx"

text \<open>A context without the value gives the zero \<open>Correlation\<close>, which is also the field's zero.\<close>

definition CorrelationFromContext :: "goctx \<Rightarrow> correlation" where
  "CorrelationFromContext cx = cx_correlation cx"

definition attr :: "string \<Rightarrow> string \<Rightarrow> (string \<times> any) list" where
  "attr k v = (if v = [] then [] else [(k, AString v)])"

text \<open>The attributes that \<open>Logger\<close> adds to the base logger.\<close>

definition Logger_attrs :: "goctx \<Rightarrow> (string \<times> any) list" where
  "Logger_attrs cx = (let c = CorrelationFromContext cx in
     attr ''request_id'' (co_request c) @ attr ''session_id'' (co_session c)
     @ attr ''profile_name'' (co_profile c) @ attr ''channel'' (co_channel c)
     @ attr ''schedule_id'' (co_schedule c))"

end
