(* ===== verification/Tool_Executor.thy ===== *)
theory Tool_Executor
  imports Store Tool_Schema Observability Demo
begin

text \<open>
  internal/tool/executor.go: the one boundary through which Tools run.  \<open>Execute\<close> authorises,
  validates, runs with bounded retries, and records exactly one outcome.
\<close>

section \<open>Tools and the executor\<close>

text \<open>An \<open>InvokableTool\<close> is implemented outside the repository.\<close>

record 'x invokable =
  iv_info :: "goctx \<Rightarrow> 'x \<Rightarrow> (tool_definition \<times> gerror option) \<times> 'x"
  iv_invoke :: "goctx \<Rightarrow> string \<Rightarrow> 'x \<Rightarrow> (string \<times> gerror option) \<times> 'x"

record 'x oryx_tool =
  ot_tool :: "'x invokable option"
  ot_retryable :: bool
  ot_idempotent :: bool
  ot_timeout :: duration

type_synonym 'x lookup = "string \<Rightarrow> 'x oryx_tool option"
type_synonym 'x recorder = "goctx option \<Rightarrow> tool_invocation option \<Rightarrow> 'x wld \<Rightarrow> gerror option \<times> 'x wld"

text \<open>Nil interfaces and pointers are \<open>None\<close>; a logger has no state that the code reads.\<close>

record 'x executor =
  ex_lookup :: "'x lookup option"
  ex_recorder :: "'x recorder option"
  ex_logger :: "unit option"
  ex_now :: "'x wld \<Rightarrow> gotime \<times> 'x wld"
  ex_wait :: "goctx \<Rightarrow> duration \<Rightarrow> 'x wld \<Rightarrow> gerror option \<times> 'x wld"

definition maxToolRetries :: nat where
  "maxToolRetries = 3"

text \<open>The timer is raced against the end of the context.\<close>

definition waitForRetry :: "'x env \<Rightarrow> goctx \<Rightarrow> duration \<Rightarrow> 'x wld \<Rightarrow> gerror option \<times> 'x wld" where
  "waitForRetry E cx d w =
     (let (fired, w1) = outside (env_timer E cx d) (\<lambda>_. EvWait d) w
      in if fired then (None, w1) else ctx_err E cx w1)"

definition newExecutorWithLogger ::
  "'x env \<Rightarrow> 'x lookup \<Rightarrow> 'x recorder \<Rightarrow> 'x executor" where
  "newExecutorWithLogger E lookup recorder =
     \<lparr>ex_lookup = Some lookup, ex_recorder = Some recorder, ex_logger = Some (),
      ex_now = now E, ex_wait = waitForRetry E\<rparr>"

definition NewExecutor ::
  "'x env \<Rightarrow> 'x lookup option \<Rightarrow> 'x recorder option \<Rightarrow> unit option \<Rightarrow> gerror + 'x executor" where
  "NewExecutor E lookup recorder logger = (case (lookup, recorder, logger) of
     (None, _, _) \<Rightarrow> Inl (Errorf ''create tool executor: lookup is nil'')
   | (Some l, None, _) \<Rightarrow> Inl (Errorf ''create tool executor: recorder is nil'')
   | (Some l, Some r, None) \<Rightarrow> Inl (Errorf ''create tool executor: logger is nil'')
   | (Some l, Some r, Some _) \<Rightarrow> Inr (newExecutorWithLogger E l r))"

fun containsExact :: "string list \<Rightarrow> string \<Rightarrow> bool" where
  "containsExact [] wanted = False"
| "containsExact (v # vs) wanted = (if v = wanted then True else containsExact vs wanted)"

definition isRetryable :: "gerror \<Rightarrow> bool" where
  "isRetryable e \<longleftrightarrow> as_retryable e = Some True"

definition marshalText :: "string \<Rightarrow> string" where
  "marshalText s = marshal_string s"

definition normalizedJSON :: "string \<Rightarrow> string" where
  "normalizedJSON raw = (if json_valid raw then raw else marshalText raw)"

definition sanitizeToolError :: "url_parser \<Rightarrow> gerror option \<Rightarrow> gerror option" where
  "sanitizeToolError U err = (case err of None \<Rightarrow> None
     | Some e \<Rightarrow> (let message = SanitizeErrorString U (error_text e)
                  in if message = error_text e then Some e else Some (Errorf message)))"

definition logAttempt ::
  "url_parser \<Rightarrow> goctx \<Rightarrow> string \<Rightarrow> string \<Rightarrow> nat \<Rightarrow> bool \<Rightarrow> bool \<Rightarrow> int \<Rightarrow> gerror option \<Rightarrow> 'x wld \<Rightarrow> 'x wld" where
  "logAttempt U cx sessionID toolName attempt final success durationMS attemptErr w =
     (let c = CorrelationFromContext cx;
          c' = (if co_session c = [] then c\<lparr>co_session := sessionID\<rparr> else c);
          logContext = WithCorrelation cx c';
          attributes = [(''event'', AString ''tool_attempt''), (''tool_name'', AString toolName),
            (''attempt'', ANumber (itoa (int attempt))), (''final_attempt'', ABool final),
            (''success'', ABool success), (''duration_ms'', ANumber (itoa durationMS))]
            @ (case attemptErr of None \<Rightarrow> []
               | Some e \<Rightarrow> [(''error_message'', AString (SanitizeErrorString U (error_text e)))])
      in emit (EvLog ''tool invocation attempt'' (Logger_attrs logContext @ attributes)) w)"

lemma emitted_logAttempt:
  "emitted w [EvLog ''tool invocation attempt''
     (Logger_attrs (WithCorrelation cx (let c = CorrelationFromContext cx in
        if co_session c = [] then c\<lparr>co_session := s\<rparr> else c))
      @ [(''event'', AString ''tool_attempt''), (''tool_name'', AString n),
         (''attempt'', ANumber (itoa (int a))), (''final_attempt'', ABool f),
         (''success'', ABool ok), (''duration_ms'', ANumber (itoa d))]
      @ (case e of None \<Rightarrow> [] | Some e \<Rightarrow> [(''error_message'', AString (SanitizeErrorString U (error_text e)))]))]
     (logAttempt U cx s n a f ok d e w)"
  by (simp add: logAttempt_def Let_def emitted_def)

section \<open>The attempts\<close>

definition invoke_once ::
  "'x oryx_tool \<Rightarrow> 'x invokable \<Rightarrow> goctx \<Rightarrow> string \<Rightarrow> string \<Rightarrow> 'x wld \<Rightarrow> (string \<times> gerror option) \<times> 'x wld" where
  "invoke_once configured impl cx toolName arguments =
     (let attemptContext = with_timeout (ot_timeout configured) cx
      in outside (iv_invoke impl attemptContext arguments) (\<lambda>_. EvToolInvoke toolName arguments attemptContext))"

lemma emitted_invoke_once:
  "invoke_once configured impl cx n args w = (r, w') \<Longrightarrow>
   emitted w [EvToolInvoke n args (with_timeout (ot_timeout configured) cx)] w'"
  unfolding invoke_once_def Let_def by (rule emitted_outside)

text \<open>
  The unbounded \<open>for\<close> of the code.  A further attempt needs \<open>attempt < maxToolRetries\<close>, which
  is the measure.
\<close>

function attempts ::
  "'x env \<Rightarrow> 'x executor \<Rightarrow> goctx \<Rightarrow> string \<Rightarrow> string \<Rightarrow> string \<Rightarrow> 'x oryx_tool \<Rightarrow> 'x invokable \<Rightarrow> nat \<Rightarrow> 'x wld
     \<Rightarrow> (string \<times> gerror option) \<times> 'x wld" where
  "attempts E ex cx sessionID toolName arguments configured impl attempt w =
     (let (attemptStartedAt, w1) = ex_now ex w;
          ((result, err), w2) = invoke_once configured impl cx toolName arguments w1;
          (attemptFinishedAt, w3) = ex_now ex w2;
          attemptDuration = elapsed_ms attemptStartedAt attemptFinishedAt;
          log = logAttempt (env_url_parse E) cx sessionID toolName (attempt + 1)
      in case err of
           None \<Rightarrow> ((result, None), log True True attemptDuration None w3)
         | Some e \<Rightarrow>
             if \<not> (attempt < maxToolRetries \<and> ot_retryable configured \<and> ot_idempotent configured \<and> isRetryable e)
             then ((result, Some (Wrapf (''execute tool '' @ quote toolName @ '': '') e)),
                   log True False attemptDuration (Some e) w3)
             else
               (let (waitErr, w4) = ex_wait ex cx (2 ^ attempt * 10 * millisecond) w3 in
                case waitErr of
                  Some we \<Rightarrow> ((result, Some (Wrapf (''execute tool '' @ quote toolName @ '' retry wait: '') we)),
                              log True False attemptDuration (Some e) w4)
                | None \<Rightarrow>
                    attempts E ex cx sessionID toolName arguments configured impl (attempt + 1)
                      (log False False attemptDuration (Some e) w4)))"
  by pat_completeness auto
termination
  by (relation "measure (\<lambda>(E, ex, cx, s, n, a, c, i, attempt, w). maxToolRetries - attempt)") auto

declare attempts.simps [simp del]

section \<open>One call\<close>

definition execute ::
  "'x env \<Rightarrow> 'x executor \<Rightarrow> 'x lookup \<Rightarrow> goctx \<Rightarrow> string \<Rightarrow> string \<Rightarrow> string list \<Rightarrow> string \<Rightarrow> 'x wld
     \<Rightarrow> (string \<times> gerror option) \<times> 'x wld" where
  "execute E ex lookup cx sessionID toolName allowedTools arguments w =
     (let fail = (\<lambda>e w. (([], Some e), w)) in
      if toolName = [] then fail (Errorf ''execute tool: tool name is required'') w
      else if \<not> containsExact allowedTools toolName
        then fail (Errorf (''execute tool: tool '' @ quote toolName @ '' is not allowed by profile'')) w
      else case lookup toolName of
        None \<Rightarrow> fail (Errorf (''execute tool: tool '' @ quote toolName @ '' is not registered'')) w
      | Some configured \<Rightarrow>
          (case ot_tool configured of
             None \<Rightarrow> fail (Errorf (''execute tool: tool '' @ quote toolName @ '' has no implementation'')) w
           | Some impl \<Rightarrow>
               if ot_timeout configured \<le> 0
               then fail (Errorf (''execute tool: tool '' @ quote toolName @ '' timeout must be positive'')) w
               else
                 (let ((definition, err), w1) =
                        outside (iv_info impl cx) (\<lambda>(d, e). EvToolInfo toolName d e) w
                  in case err of
                       Some e \<Rightarrow> fail (Wrapf (''execute tool: read '' @ quote toolName @ '' metadata: '') e) w1
                     | None \<Rightarrow>
                         if td_name definition \<noteq> toolName
                         then fail (Errorf (''execute tool: metadata name '' @ quote (td_name definition)
                                      @ '' does not match call '' @ quote toolName)) w1
                         else (case validateArguments (env_json_error E) (td_schema definition) arguments of
                                 Rejected e \<Rightarrow> fail (Wrapf (''execute tool '' @ quote toolName @ '': '') e) w1
                               | Panics \<Rightarrow> fail (Errorf ''panic'') w1
                               | Accepted \<Rightarrow>
                                   attempts E ex cx sessionID toolName arguments configured impl 0 w1))))"

text \<open>The row that \<open>Execute\<close> records.\<close>

definition invocation_row ::
  "string \<Rightarrow> string \<Rightarrow> string \<Rightarrow> string \<Rightarrow> gerror option \<Rightarrow> int \<Rightarrow> gotime \<Rightarrow> tool_invocation" where
  "invocation_row sessionID toolName arguments result safeErr duration finishedAt =
     \<lparr>ti_session = sessionID,
      ti_tool = (if toolName = [] then ''<unknown>'' else toolName),
      ti_input = normalizedJSON arguments,
      ti_result = marshalText result,
      ti_success = (safeErr = None),
      ti_error = map_option error_text safeErr,
      ti_duration_ms = duration,
      ti_created = to_utc finishedAt\<rparr>"

definition Execute ::
  "'x env \<Rightarrow> 'x executor option \<Rightarrow> goctx option \<Rightarrow> string \<Rightarrow> string list \<Rightarrow> tool_call \<Rightarrow> 'x wld
     \<Rightarrow> (string \<times> gerror option) \<times> 'x wld" where
  "Execute E executor ctx sessionID allowedTools tcall w = (case executor of
     None \<Rightarrow> (([], Some (Errorf ''execute tool: executor is not initialized'')), w)
   | Some ex \<Rightarrow> (case (ex_lookup ex, ex_recorder ex, ex_logger ex) of
       (Some lookup, Some recorder, Some _) \<Rightarrow> (case ctx of
           None \<Rightarrow> (([], Some (Errorf ''execute tool: context is nil'')), w)
         | Some cx \<Rightarrow>
             (let (startedAt, w1) = ex_now ex w;
                  toolName = trim_space (fc_name (tc_function tcall));
                  arguments = fc_arguments (tc_function tcall);
                  ((result, invokeErr), w2) = execute E ex lookup cx sessionID toolName allowedTools arguments w1;
                  (finishedAt, w3) = ex_now ex w2;
                  duration = elapsed_ms startedAt finishedAt;
                  safeInvokeErr = sanitizeToolError (env_url_parse E) invokeErr;
                  invocation = invocation_row sessionID toolName arguments result safeInvokeErr duration finishedAt;
                  (recordErr0, w4) = recorder (Some (without_cancel cx)) (Some invocation) w3;
                  recordErr = map_option (Wrapf ''record tool invocation: '') recordErr0
              in (case (safeInvokeErr, recordErr) of
                    (Some se, Some re) \<Rightarrow> ((result, Some (Joined [se, re])), w4)
                  | (Some se, None) \<Rightarrow> ((result, Some se), w4)
                  | (None, Some re) \<Rightarrow> ((result, Some re), w4)
                  | (None, None) \<Rightarrow> ((result, None), w4))))
     | _ \<Rightarrow> (([], Some (Errorf ''execute tool: executor is not initialized'')), w)))"

section \<open>What the attempts do\<close>

text \<open>
  The runs that the retry policy allows, as a relation between the number of the attempt, the events
  and the outcome: each attempt invokes the Tool once with the same arguments under the Tool's timeout,
  a retry needs a retryable and idempotent Tool and a retryable error, waits 10 ms doubled for each
  attempt made, and there is no attempt after the fourth.
\<close>

inductive attempt_run :: "'x oryx_tool \<Rightarrow> goctx \<Rightarrow> string \<Rightarrow> string \<Rightarrow> nat \<Rightarrow> event list \<Rightarrow> bool \<Rightarrow> bool"
  for conf cx name args where
  run_success: "attempt_run conf cx name args n
     [EvToolInvoke name args (with_timeout (ot_timeout conf) cx), EvLog msg attrs] True"
| run_failure: "attempt_run conf cx name args n
     [EvToolInvoke name args (with_timeout (ot_timeout conf) cx), EvLog msg attrs] False"
| run_wait_ended: "\<lbrakk>n < maxToolRetries; ot_retryable conf; ot_idempotent conf\<rbrakk> \<Longrightarrow> attempt_run conf cx name args n
     [EvToolInvoke name args (with_timeout (ot_timeout conf) cx), EvWait (2 ^ n * 10 * millisecond),
      EvLog msg attrs] False"
| run_retry: "\<lbrakk>n < maxToolRetries; ot_retryable conf; ot_idempotent conf;
     attempt_run conf cx name args (Suc n) es ok\<rbrakk> \<Longrightarrow> attempt_run conf cx name args n
     (EvToolInvoke name args (with_timeout (ot_timeout conf) cx) # EvWait (2 ^ n * 10 * millisecond)
      # EvLog msg attrs # es) ok"

inductive_cases attempt_run_Nil [elim!]: "attempt_run conf cx name args n [] ok"

text \<open>Every error of a call says that a Tool was being executed.\<close>

definition tool_error :: "gerror option \<Rightarrow> bool" where
  "tool_error err \<longleftrightarrow> (case err of None \<Rightarrow> True | Some e \<Rightarrow> (\<exists>t. error_text e = ''execute tool'' @ t))"

lemma tool_errors [simp]:
  "tool_error None" "tool_error (Some (Wrapf (''execute tool '' @ x) e))"
  "tool_error (Some (Wrapf (''execute tool: '' @ x) e))" "tool_error (Some (Errorf (''execute tool: '' @ x)))"
  by (auto simp: tool_error_def)

text \<open>The clock and the timer that an executor is built with.\<close>

locale executor_clock =
  fixes clock :: "'x wld \<Rightarrow> gotime \<times> 'x wld"
    and pause :: "goctx \<Rightarrow> duration \<Rightarrow> 'x wld \<Rightarrow> gerror option \<times> 'x wld"
  assumes clock_silent: "clock w = (t, w') \<Longrightarrow> emitted w [] w'"
    and pause_event: "pause cx d w = (e, w') \<Longrightarrow> emitted w [EvWait d] w'"
begin

lemma attempts_run:
  assumes "ex_now ex = clock" "ex_wait ex = pause"
    and "attempts E ex cx sid name args conf impl n w = ((result, err), w')"
  shows "(\<exists>es. emitted w es w' \<and> attempt_run conf cx name args n es (err = None)) \<and> tool_error err"
  using assms
proof (induction E ex cx sid name args conf impl n w arbitrary: result err w' rule: attempts.induct)
  case (1 E ex cx sid name args conf impl n w)
  let ?call = "EvToolInvoke name args (with_timeout (ot_timeout conf) cx)"
  obtain t0 w1 where c0: "ex_now ex w = (t0, w1)" by fastforce
  obtain res er w2 where call: "invoke_once conf impl cx name args w1 = ((res, er), w2)"
    by (metis prod.collapse)
  obtain t1 w3 where c1: "ex_now ex w2 = (t1, w3)" by fastforce
  have "emitted w [?call] w3"
    using clock_silent c0 c1 emitted_invoke_once [OF call] "1.prems"(1)
      emitted_trans [of w "[]" w1 "[?call]" w2] emitted_trans [of w "[?call]" w2 "[]" w3]
    by auto
  note w3 = this
  let ?log = "logAttempt (env_url_parse E) cx sid name (n + 1)"
  have log: "\<exists>m a. emitted x [EvLog m a] (?log f ok (elapsed_ms t0 t1) e x)" for f ok e x
    using emitted_logAttempt by blast
  have run: "attempts E ex cx sid name args conf impl n w = (case er of
      None \<Rightarrow> ((res, None), ?log True True (elapsed_ms t0 t1) None w3)
    | Some e \<Rightarrow>
        if \<not> (n < maxToolRetries \<and> ot_retryable conf \<and> ot_idempotent conf \<and> isRetryable e)
        then ((res, Some (Wrapf (''execute tool '' @ quote name @ '': '') e)),
              ?log True False (elapsed_ms t0 t1) (Some e) w3)
        else (let (waitErr, w4) = ex_wait ex cx (2 ^ n * 10 * millisecond) w3 in
          case waitErr of
            Some we \<Rightarrow> ((res, Some (Wrapf (''execute tool '' @ quote name @ '' retry wait: '') we)),
                        ?log True False (elapsed_ms t0 t1) (Some e) w4)
          | None \<Rightarrow> attempts E ex cx sid name args conf impl (n + 1)
                      (?log False False (elapsed_ms t0 t1) (Some e) w4)))"
    by (subst attempts.simps) (simp only: c0 call c1 Let_def prod.case)
  show ?case
  proof (cases er)
    case None
    then have "w' = ?log True True (elapsed_ms t0 t1) None w3" "err = None" "tool_error err"
      using "1.prems"(3) run by simp_all
    then show ?thesis using log [of w3 True True None] emitted_trans [OF w3] run_success by fastforce
  next
    case (Some e)
    show ?thesis
    proof (cases "n < maxToolRetries \<and> ot_retryable conf \<and> ot_idempotent conf \<and> isRetryable e")
      case False
      then have "w' = ?log True False (elapsed_ms t0 t1) (Some e) w3"
          "err = Some (Wrapf (''execute tool '' @ quote name @ '': '') e)"
        using "1.prems"(3) run Some by simp_all
      then have "w' = ?log True False (elapsed_ms t0 t1) (Some e) w3" "err \<noteq> None" "tool_error err"
        by (simp_all only: tool_errors option.distinct not_False_eq_True)
      then show ?thesis using log [of w3 True False "Some e"] emitted_trans [OF w3] run_failure by fastforce
    next
      case True
      obtain we w4 where wt: "ex_wait ex cx (2 ^ n * 10 * millisecond) w3 = (we, w4)" by fastforce
      let ?wait = "EvWait (2 ^ n * 10 * millisecond)"
      have w4: "emitted w [?call, ?wait] w4"
        using pause_event wt "1.prems"(2) emitted_trans [OF w3, of "[?wait]" w4] by auto
      show ?thesis
      proof (cases we)
        case (Some we')
        then have "w' = ?log True False (elapsed_ms t0 t1) (Some e) w4"
            "err = Some (Wrapf (''execute tool '' @ quote name @ '' retry wait: '') we')"
          using "1.prems"(3) run \<open>er = Some e\<close> True wt by simp_all
        then have "w' = ?log True False (elapsed_ms t0 t1) (Some e) w4" "err \<noteq> None" "tool_error err"
          by (simp_all only: tool_errors option.distinct not_False_eq_True)
        then show ?thesis using log [of w4 True False "Some e"] emitted_trans [OF w4] True run_wait_ended
          by fastforce
      next
        case None
        let ?w5 = "?log False False (elapsed_ms t0 t1) (Some e) w4"
        have rec: "attempts E ex cx sid name args conf impl (n + 1) ?w5 = ((result, err), w')"
          using "1.prems"(3) run \<open>er = Some e\<close> True wt None by simp
        have IH: "(\<exists>es. emitted ?w5 es w' \<and> attempt_run conf cx name args (n + 1) es (err = None)) \<and> tool_error err"
          using "1.IH" [OF c0 [symmetric] refl call [symmetric] refl refl c1 [symmetric] refl refl refl
              \<open>er = Some e\<close> _ wt [symmetric] refl None] True "1.prems" rec by simp
        then obtain es where es: "emitted ?w5 es w'" "attempt_run conf cx name args (Suc n) es (err = None)"
          by auto
        obtain m a where "emitted w4 [EvLog m a] ?w5" using log by blast
        then have "emitted w (?call # ?wait # EvLog m a # es) w'"
          using emitted_trans [OF emitted_trans [OF w4] es(1), of "[EvLog m a]"] by simp
        then show ?thesis using run_retry True es(2) IH by blast
      qed
    qed
  qed
qed

end

interpretation executor_timer: executor_clock "now E" "waitForRetry E" for E
proof unfold_locales
  show "now E w = (t, w') \<Longrightarrow> emitted w [] w'" for w t w'
    by (rule emitted_now)
  show "waitForRetry E cx d w = (e, w') \<Longrightarrow> emitted w [EvWait d] w'" for cx d w e w'
    using emitted_trans [of w "[EvWait d]" _ "[]" w']
    by (auto simp: waitForRetry_def split: prod.splits if_splits
      dest!: emitted_outside [where ev = "\<lambda>_. EvWait d"] emitted_ctx_err)
qed

section \<open>Consequences for the events of a run\<close>

lemma attempt_run_invocations:
  assumes "attempt_run conf cx name args n es ok" "n \<le> maxToolRetries"
  shows "1 \<le> count is_tool_invoke es" "count is_tool_invoke es + n \<le> Suc maxToolRetries"
    "2 \<le> count is_tool_invoke es \<Longrightarrow> ot_retryable conf \<and> ot_idempotent conf"
  using assms by (induction rule: attempt_run.induct) auto

lemma attempt_run_calls:
  "attempt_run conf cx name args n es ok \<Longrightarrow> EvToolInvoke n' a cx' \<in> set es \<Longrightarrow>
   n' = name \<and> a = args \<and> cx' = with_timeout (ot_timeout conf) cx"
  by (induction rule: attempt_run.induct) auto

lemma attempt_run_no_insert:
  "attempt_run conf cx name args n es ok \<Longrightarrow> count is_tool_insert es = 0"
  by (induction rule: attempt_run.induct) auto

text \<open>The waits of a run, in order.\<close>

fun waits :: "event list \<Rightarrow> duration list" where
  "waits [] = []"
| "waits (EvWait d # es) = d # waits es"
| "waits (_ # es) = waits es"

lemma waits_append [simp]: "waits (es @ es') = waits es @ waits es'"
  by (induction es rule: waits.induct) auto

lemma waits_inserts: "\<forall>ev \<in> set es. \<exists>r e. ev = EvInsertTool cx r e \<Longrightarrow> waits es = []"
  by (induction es) auto

lemma attempt_run_waits:
  "attempt_run conf cx name args n es ok \<Longrightarrow> n \<le> maxToolRetries \<Longrightarrow>
   \<exists>k. n + k \<le> maxToolRetries \<and> waits es = map (\<lambda>i. 2 ^ i * 10 * millisecond) [n..<n + k]"
proof (induction rule: attempt_run.induct)
  case (run_wait_ended n msg attrs)
  then show ?case by (intro exI [of _ 1]) simp
next
  case (run_retry n es ok msg attrs)
  then obtain k where "Suc n + k \<le> maxToolRetries"
    "waits es = map (\<lambda>i. 2 ^ i * 10 * millisecond) [Suc n..<Suc n + k]" by auto
  then show ?case by (intro exI [of _ "Suc k"]) (simp add: upt_conv_Cons)
qed (auto intro: exI [of _ 0])

section \<open>What one call does\<close>

text \<open>
  A call is refused before the Tool is asked for its metadata, or after it, or its attempts run.  The
  attempts need a Tool that the Profile allows, that is registered under the name with an implementation
  and a timeout, whose metadata carry the name, and arguments that its schema accepts.
\<close>

definition runnable ::
  "'x env \<Rightarrow> 'x lookup \<Rightarrow> string \<Rightarrow> string list \<Rightarrow> string \<Rightarrow> tool_definition \<Rightarrow> 'x oryx_tool \<Rightarrow> bool" where
  "runnable E lookup name allowed args d conf \<longleftrightarrow>
     name \<noteq> [] \<and> name \<in> set allowed \<and> lookup name = Some conf \<and> ot_tool conf \<noteq> None \<and> 0 < ot_timeout conf \<and>
     td_name d = name \<and> validateArguments (env_json_error E) (td_schema d) args = Accepted"

inductive call_run ::
  "'x env \<Rightarrow> 'x lookup \<Rightarrow> goctx \<Rightarrow> string \<Rightarrow> string list \<Rightarrow> string \<Rightarrow> event list \<Rightarrow> bool \<Rightarrow> bool"
  for E lookup cx name allowed args where
  call_refused: "call_run E lookup cx name allowed args [] False"
| call_rejected: "call_run E lookup cx name allowed args [EvToolInfo name d e] False"
| call_attempted: "\<lbrakk>runnable E lookup name allowed args d conf; attempt_run conf cx name args 0 es ok\<rbrakk>
    \<Longrightarrow> call_run E lookup cx name allowed args (EvToolInfo name d None # es) ok"

lemma containsExact_iff [simp]: "containsExact vs x \<longleftrightarrow> x \<in> set vs"
  by (induction vs) auto

lemma call_run_no_insert: "call_run E lookup cx name allowed args es ok \<Longrightarrow> count is_tool_insert es = 0"
  by (induction rule: call_run.induct) (auto simp: attempt_run_no_insert)

context executor_clock
begin

lemma execute_call_run:
  assumes "ex_now ex = clock" "ex_wait ex = pause"
    and run: "execute E ex lookup cx sid name allowed args w = ((result, err), w')"
  shows "(\<exists>es. emitted w es w' \<and> call_run E lookup cx name allowed args es (err = None)) \<and> tool_error err"
proof (cases "name \<noteq> [] \<and> name \<in> set allowed \<and> (\<exists>conf impl. lookup name = Some conf \<and> ot_tool conf = Some impl
    \<and> 0 < ot_timeout conf)")
  case False
  then have "w' = w \<and> err \<noteq> None \<and> tool_error err"
    using run by (auto simp: execute_def Let_def tool_error_def split: if_splits option.splits)
  then show ?thesis using call_refused by fastforce
next
  case True
  then obtain conf impl where ok: "name \<noteq> []" "name \<in> set allowed" "lookup name = Some conf"
    "ot_tool conf = Some impl" "0 < ot_timeout conf" by blast
  obtain d e w1 where info: "outside (iv_info impl cx) (\<lambda>(d, e). EvToolInfo name d e) w = ((d, e), w1)"
    by (metis prod.collapse)
  have w1: "emitted w [EvToolInfo name d e] w1" using emitted_outside [OF info] by simp
  show ?thesis
  proof (cases "e = None \<and> td_name d = name \<and> validateArguments (env_json_error E) (td_schema d) args = Accepted")
    case True
    then have "attempts E ex cx sid name args conf impl 0 w1 = ((result, err), w')"
      using run ok by (simp add: execute_def info)
    then obtain es where "emitted w1 es w'" "attempt_run conf cx name args 0 es (err = None)" "tool_error err"
      using attempts_run assms(1,2) by blast
    moreover have "runnable E lookup name allowed args d conf"
      using ok True by (simp add: runnable_def)
    ultimately show ?thesis using call_attempted emitted_trans [OF w1] True by fastforce
  next
    case False
    then have "w' = w1 \<and> err \<noteq> None \<and> tool_error err"
      using run ok by (auto simp: execute_def info tool_error_def validateArguments_no_panic
        split: if_splits option.splits check.splits)
    then show ?thesis using call_rejected w1 by fastforce
  qed
qed

end

section \<open>Recording the outcome\<close>

lemma sanitize_None [simp]: "sanitizeToolError U None = None" "sanitizeToolError U e = None \<longleftrightarrow> e = None"
  by (auto simp: sanitizeToolError_def Let_def split: option.splits)

lemma sanitize_text:
  "sanitizeToolError U err = Some e \<Longrightarrow> \<exists>e0. err = Some e0 \<and> error_text e = SanitizeErrorString U (error_text e0)"
  by (auto simp: sanitizeToolError_def Let_def split: option.splits if_splits)

lemma not_blank_redacted [simp]: "\<not> blank redactedValue"
  unfolding redactedValue_def by (rule not_blank_Cons) simp_all

lemma not_blank_Sanitize: "\<not> blank s \<Longrightarrow> \<not> blank (SanitizeErrorString U s)"
  using Sanitize_range [of U s] by auto

lemma tool_error_not_blank:
  assumes "tool_error (Some e)"
  shows "\<not> blank (error_text e)"
proof -
  obtain t where "error_text e = CHR ''e'' # t" using assms by (auto simp: tool_error_def)
  then show ?thesis using not_blank_Cons [of "CHR ''e''" t] by simp
qed

text \<open>A row of the executor is valid when the session is named and the clock is set.\<close>

lemma invocation_row_valid:
  assumes "\<not> blank sid" "\<not> is_zero t" "tool_error err" "name = trim_space raw"
  shows "validateToolInvocation (Some (sanitize_invocation U
    (invocation_row sid name args result (sanitizeToolError U err) (elapsed_ms t0 t1) t))) = None"
proof -
  have "\<not> blank ''<unknown>''" by (rule not_blank_Cons) simp_all
  moreover have "name \<noteq> [] \<Longrightarrow> \<not> blank name"
    using assms(4) by (metis blank_def trim_space_idem)
  moreover have "\<not> blank (SanitizeErrorString U (error_text e))" if "sanitizeToolError U err = Some e" for e
    using sanitize_text [OF that] assms(3) tool_error_not_blank not_blank_Sanitize by auto
  ultimately show ?thesis using assms(1,2)
    by (auto simp: validateToolInvocation_def sanitize_invocation_def invocation_row_def not_less split: option.splits)
qed

text \<open>The executor as the client of a recorder and of a clock.\<close>

locale tool_audit = executor_clock clock pause +
    audit_recorder create insert_event accepts stored
  for clock :: "'x wld \<Rightarrow> gotime \<times> 'x wld" and pause
    and create :: "goctx option \<Rightarrow> tool_invocation option \<Rightarrow> 'x wld \<Rightarrow> gerror option \<times> 'x wld"
    and insert_event accepts stored
begin

lemma Execute_events:
  assumes ex: "ex_lookup ex = Some lookup" "ex_recorder ex = Some create" "ex_logger ex = Some u"
      "ex_now ex = clock" "ex_wait ex = pause"
    and run: "Execute E (Some ex) (Some cx) sid allowed tc w = ((result, err), w')"
    and name: "name = trim_space (fc_name (tc_function tc))" and args: "args = fc_arguments (tc_function tc)"
  obtains es err0 t0 t1 recorded wa wb wc where
    "clock w = (t0, wa)"
    "execute E ex lookup cx sid name allowed args wa = ((result, err0), wb)" "clock wb = (t1, wc)"
    "emitted w es wc" "call_run E lookup cx name allowed args es (err0 = None)" "tool_error err0"
    "create (Some (without_cancel cx)) (Some (invocation_row sid name args result
        (sanitizeToolError (env_url_parse E) err0) (elapsed_ms t0 t1) t1)) wc = (recorded, w')"
    "err = None \<longleftrightarrow> err0 = None \<and> recorded = None"
    "recorded = None \<Longrightarrow> err = sanitizeToolError (env_url_parse E) err0"
proof -
  obtain t0 w1 where c0: "clock w = (t0, w1)" by fastforce
  obtain res e w2 where x: "execute E ex lookup cx sid name allowed args w1 = ((res, e), w2)"
    by (metis prod.collapse)
  obtain t1 w3 where c1: "clock w2 = (t1, w3)" by fastforce
  obtain r w4 where c: "create (Some (without_cancel cx)) (Some (invocation_row sid name args res
      (sanitizeToolError (env_url_parse E) e) (elapsed_ms t0 t1) t1)) w3 = (r, w4)" by fastforce
  obtain es where es: "emitted w1 es w2" "call_run E lookup cx name allowed args es (e = None)" "tool_error e"
    using execute_call_run [OF ex(4,5) x] by blast
  have out: "result = res" "w' = w4" "err = None \<longleftrightarrow> e = None \<and> r = None"
      "r = None \<Longrightarrow> err = sanitizeToolError (env_url_parse E) e"
    using run c unfolding Execute_def by (auto simp: ex c0 c1 x c Let_def name [symmetric] args [symmetric] split: option.splits)
  have "emitted w es w3"
    using emitted_trans [OF clock_silent [OF c0] emitted_trans [OF es(1) clock_silent [OF c1]]] by simp
  then show ?thesis using that [OF c0 _ c1 _ es(2,3) _ out(3,4)] x c out by blast
qed

end

interpretation tool_records: tool_audit
  "now E" "waitForRetry E" "ToolInvocationRepository_Create E (Some open_repository)" EvInsertTool
  "\<lambda>r. validateToolInvocation (Some (sanitize_invocation (env_url_parse E) r)) = None"
  "sanitize_invocation (env_url_parse E)" for E
  by unfold_locales

section \<open>Properties of the executor\<close>

text \<open>The executor with the repository of internal/store.\<close>

definition store_executor :: "'x env \<Rightarrow> 'x lookup \<Rightarrow> 'x executor" where
  "store_executor E lookup =
     newExecutorWithLogger E lookup (ToolInvocationRepository_Create E (Some open_repository))"

lemma store_executor_fields [simp]:
  "ex_lookup (store_executor E lookup) = Some lookup"
  "ex_recorder (store_executor E lookup) = Some (ToolInvocationRepository_Create E (Some open_repository))"
  "ex_logger (store_executor E lookup) = Some ()" "ex_now (store_executor E lookup) = now E"
  "ex_wait (store_executor E lookup) = waitForRetry E"
  by (simp_all add: store_executor_def newExecutorWithLogger_def)

lemmas store_executor_events =
  tool_records.Execute_events [OF store_executor_fields _ refl refl]

lemma store_executor_trace:
  assumes "Execute E (Some (store_executor E lookup)) (Some cx) sid allowed tc w = ((result, err), w')"
    "emitted w es w'"
  obtains es1 tail ok where "es = es1 @ tail"
    "call_run E lookup cx (trim_space (fc_name (tc_function tc))) allowed (fc_arguments (tc_function tc)) es1 ok"
    "\<forall>ev \<in> set tail. \<exists>r e. ev = EvInsertTool (without_cancel cx) r e"
proof (rule store_executor_events [OF assms(1)])
  fix es1 e0 t0 t1 r wc
  assume x: "emitted w es1 wc"
    "call_run E lookup cx (trim_space (fc_name (tc_function tc))) allowed (fc_arguments (tc_function tc)) es1 (e0 = None)"
    "ToolInvocationRepository_Create E (Some open_repository) (Some (without_cancel cx))
       (Some (invocation_row sid (trim_space (fc_name (tc_function tc))) (fc_arguments (tc_function tc)) result
         (sanitizeToolError (env_url_parse E) e0) (elapsed_ms t0 t1) t1)) wc = (r, w')"
  obtain tail where tail: "emitted wc tail w'" "\<forall>ev \<in> set tail. \<exists>r e. ev = EvInsertTool (without_cancel cx) r e"
    using tool_rows.create_at_most_one [OF x(3)] by blast
  show thesis
    using that [OF emitted_unique [OF assms(2) emitted_trans [OF x(1) tail(1)]] x(2) tail(2)] .
qed

text \<open>What the row of a call is.\<close>

definition recorded_row :: "url_parser \<Rightarrow> string \<Rightarrow> tool_call \<Rightarrow> string \<Rightarrow> gerror option \<Rightarrow> tool_invocation \<Rightarrow> bool" where
  "recorded_row U sid tc result err row \<longleftrightarrow>
     ti_session row = sid \<and> \<not> blank (ti_tool row) \<and>
     ti_tool row \<in> {trim_space (fc_name (tc_function tc)), ''<unknown>''} \<and>
     json_valid (ti_input row) \<and> ti_result row = marshal_string result \<and>
     (ti_success row \<longleftrightarrow> ti_error row = None) \<and> (ti_success row \<longleftrightarrow> err = None) \<and>
     (\<forall>m. ti_error row = Some m \<longrightarrow> \<not> sensitive_text U m) \<and> 0 \<le> ti_duration_ms row"

lemma invocation_row_recorded:
  assumes "tool_error err" "name = trim_space (fc_name (tc_function tc))"
  shows "recorded_row U sid tc result err (sanitize_invocation U (invocation_row sid name
     (fc_arguments (tc_function tc)) result (sanitizeToolError U err) (elapsed_ms t0 t1) t))"
proof -
  have "\<not> blank ''<unknown>''" by (rule not_blank_Cons) simp_all
  moreover have "name \<noteq> [] \<Longrightarrow> \<not> blank name"
    using assms(2) by (metis blank_def trim_space_idem)
  ultimately show ?thesis using assms(2)
    by (auto simp: recorded_row_def sanitize_invocation_def invocation_row_def normalizedJSON_def marshalText_def
      split: option.splits)
qed

text \<open>A Tool that answers ok, and a lookup that knows it.\<close>

definition demo_tool :: "nat oryx_tool" where
  "demo_tool = \<lparr>ot_tool = Some \<lparr>iv_info = (\<lambda>cx x. ((\<lparr>td_name = ''echo'', td_description = [],
       td_schema = ''{\"type\":\"object\"}'', td_extra = None\<rparr>, None), x)),
     iv_invoke = (\<lambda>cx a x. ((''ok'', None), x))\<rparr>, ot_retryable = True, ot_idempotent = True, ot_timeout = millisecond\<rparr>"

definition demo_lookup :: "nat lookup" where
  "demo_lookup n = (if n = ''echo'' then Some demo_tool else None)"

text \<open>The call of that Tool, evaluated.\<close>

definition demo_run :: "(string \<times> gerror option) \<times> nat wld" where
  "demo_run = Execute demo_env (Some (store_executor demo_env demo_lookup)) (Some demo_ctx) ''s1'' [''echo'']
     (demo_tool_call ''echo'' ''{}'') demo_world"

lemma trim_echo: "trim_space ''echo'' = ''echo''" 
  by (rule trim_space_plain [of _ "CHR ''o''" _ "''ech''"]) simp_all

lemma demo_parse: "scan_tokens ''{\"type\":\"object\"}'' = ([TLBrace, TString ''type'', TColon, TString ''object'', TRBrace], True)"
   "scan_tokens ''{}'' = ([TLBrace, TRBrace], True)"
  by (simp_all add: json_eval)

lemma not_blank_docs: "\<not> blank ''{\"type\":\"object\"}''" "\<not> blank ''{}''"
  by (rule not_blank_Cons; simp)+

lemma demo_arguments: "validateArguments J ''{\"type\":\"object\"}'' ''{}'' = Accepted" 
  by (simp add: validateArguments_def decodeOneJSON_def demo_parse not_blank_docs decode_next_def max_depth_def
    validateSchema.simps validateValue.simps supportedSchemaKeywords_def check_required_def check_additional_def check_enum_def
    check_names_def check_declared_def properties_of_def enum_allows_def)

lemma demo_run_result: "fst demo_run = (''ok'', None) \<and> EvToolInvoke ''echo'' ''{}'' (with_timeout millisecond demo_ctx) \<in> set (w_trace (snd demo_run))"
  unfolding demo_run_def
  by (simp add: Execute_def execute_def now_def silent_def demo_env_def demo_world_def demo_tool_call_def trim_echo 
    demo_lookup_def demo_tool_def outside_def demo_arguments attempts.simps invoke_once_def logAttempt_def Let_def emit_def
   ToolInvocationRepository_Create_def validateToolInvocation_def sanitize_invocation_def invocation_row_def not_blank_demo
   to_utc_def is_zero_def millisecond_def not_less)

lemma demo_run_eq:
  "Execute demo_env (Some (store_executor demo_env demo_lookup)) (Some demo_ctx) ''s1'' [''echo'']
     (demo_tool_call ''echo'' ''{}'') demo_world = ((fst (fst demo_run), snd (fst demo_run)), snd demo_run)"
  by (simp add: demo_run_def)



text \<open>
  C7.  Authorisation.  Whatever the model asks for, a Tool is only ever invoked under the trimmed name
  of the call, when the Profile allows that name exactly, the name is registered with an implementation
  and a positive timeout, the metadata read before the invocation carry that name, and the arguments,
  passed on byte for byte, conform to the metadata's schema; the invocation runs under the Tool's
  timeout.
\<close>

theorem Execute_invokes_only_runnable:
  assumes run: "Execute E (Some (store_executor E lookup)) (Some cx) sid allowed tc w = ((result, err), w')"
    and es: "emitted w es w'" and ev: "EvToolInvoke n a cx' \<in> set es"
  shows "n = trim_space (fc_name (tc_function tc)) \<and> n \<in> set allowed \<and> a = fc_arguments (tc_function tc) \<and>
    (\<exists>conf d. lookup n = Some conf \<and> ot_tool conf \<noteq> None \<and> 0 < ot_timeout conf \<and>
       cx' = with_timeout (ot_timeout conf) cx \<and> EvToolInfo n d None \<in> set es \<and> td_name d = n \<and>
       accepted_arguments (td_schema d) a)"
proof -
  obtain es1 tail ok where x: "es = es1 @ tail"
    "call_run E lookup cx (trim_space (fc_name (tc_function tc))) allowed (fc_arguments (tc_function tc)) es1 ok"
    "\<forall>ev \<in> set tail. \<exists>r e. ev = EvInsertTool (without_cancel cx) r e"
    using store_executor_trace [OF run es] .
  then have "EvToolInvoke n a cx' \<in> set es1" using ev by auto
  with x(2) show ?thesis
    by (cases rule: call_run.cases)
       (auto dest!: attempt_run_calls simp: x(1) runnable_def validateArguments_accepted)
qed

lemma Execute_invokes_only_runnable_witness:
  "(\<exists>conf d. demo_lookup ''echo'' = Some conf \<and> EvToolInfo ''echo'' d None \<in> set (w_trace (snd demo_run)) \<and>
     accepted_arguments (td_schema d) ''{}'')"
  using Execute_invokes_only_runnable [OF demo_run_eq emitted_demo [OF refl] conjunct2 [OF demo_run_result]]
  by blast

text \<open>
  C8.  Bounded retries.  A call makes at most four invocations; it makes a second one only when the Tool
  is declared both retryable and idempotent; and the pauses between them are 10, 20 and 40 ms, in this
  order, cut where the call ended.
\<close>

theorem Execute_retries_bounded:
  assumes run: "Execute E (Some (store_executor E lookup)) (Some cx) sid allowed tc w = ((result, err), w')"
    and es: "emitted w es w'"
  shows "count is_tool_invoke es \<le> 4 \<and>
    (2 \<le> count is_tool_invoke es \<longrightarrow>
       (\<exists>conf. lookup (trim_space (fc_name (tc_function tc))) = Some conf \<and> ot_retryable conf \<and> ot_idempotent conf)) \<and>
    (\<exists>k. waits es = take k [10 * millisecond, 20 * millisecond, 40 * millisecond])"
proof -
  obtain es1 tail ok where x: "es = es1 @ tail"
    "call_run E lookup cx (trim_space (fc_name (tc_function tc))) allowed (fc_arguments (tc_function tc)) es1 ok"
    "\<forall>ev \<in> set tail. \<exists>r e. ev = EvInsertTool (without_cancel cx) r e"
    using store_executor_trace [OF run es] .
  have tail: "count is_tool_invoke tail = 0" "waits (es1 @ tail) = waits es1"
    using x(3) by (auto simp: count_zero waits_inserts)
  from x(2) show ?thesis
  proof (cases rule: call_run.cases)
    case (call_attempted d conf es2)
    obtain k where "k \<le> maxToolRetries" "waits es2 = map (\<lambda>i. 2 ^ i * 10 * millisecond) [0..<k]"
      using attempt_run_waits [OF call_attempted(3)] by auto
    then have "waits es2 = take k [10 * millisecond, 20 * millisecond, 40 * millisecond]"
      by (cases k; cases "k - 1"; cases "k - 2") (auto simp: maxToolRetries_def upt_rec numeral_eq_Suc)
    then show ?thesis
      using attempt_run_invocations [OF call_attempted(3)] call_attempted(1,2) tail
      by (auto simp: x(1) runnable_def maxToolRetries_def)
  qed (use tail in \<open>auto simp: x(1) intro: exI [of _ 0]\<close>)
qed

lemma Execute_retries_bounded_witness:
  "count is_tool_invoke (w_trace (snd demo_run)) \<le> 4"
  using Execute_retries_bounded [OF demo_run_eq emitted_demo [OF refl]] by blast

text \<open>
  C40.  Encoding.  The encoded text of a result decodes to the text, with each byte that is not UTF-8 read
  as the replacement rune; the recorded input is always a JSON document, and is the input itself when that
  was one.
\<close>

theorem marshalText_roundtrip:
  "parse_json (marshalText s) = Some (AString (to_valid_utf8 s)) \<and>
   parse_json (marshalText (to_valid_utf8 s)) = Some (AString (to_valid_utf8 s)) \<and>
   json_valid (normalizedJSON s) \<and>
   normalizedJSON s = (if json_valid s then s else marshal_string s)"
proof -
  have "to_valid_utf8 (to_valid_utf8 s) = to_valid_utf8 s"
    unfolding to_valid_utf8_def by (subst decode_encode_runes) (simp_all add: valid_decode_runes)
  then show ?thesis by (simp add: marshalText_def normalizedJSON_def parse_marshal_string)
qed

end
