(* ===== verification/Provider_Service.thy ===== *)
theory Provider_Service
  imports Store Provider_Registry
begin

text \<open>
  internal/provider/service.go and tool_schema_resolver.go: one model call for a Profile, with its audit
  row.  The model is an interface: an identity \<open>'m\<close> and operations on it; so is the stream that it
  opens, with a state \<open>'s\<close>.
\<close>

section \<open>Interfaces\<close>

record ('m, 's, 'x) model_ops =
  mo_generate :: "'m \<Rightarrow> goctx \<Rightarrow> request \<Rightarrow> 'x wld \<Rightarrow> (response \<times> gerror option) \<times> 'x wld"
  mo_stream :: "'m \<Rightarrow> goctx \<Rightarrow> request \<Rightarrow> 'x wld \<Rightarrow> ('s option \<times> gerror option) \<times> 'x wld"
  mo_recv :: "'s \<Rightarrow> 'x wld \<Rightarrow> (stream_event \<times> gerror option) \<times> 's \<times> 'x wld"
  mo_close :: "'s \<Rightarrow> 'x wld \<Rightarrow> gerror option \<times> 's \<times> 'x wld"

type_synonym 'x resolver = "goctx option \<Rightarrow> string list \<Rightarrow> 'x wld \<Rightarrow> (tool_definition list \<times> gerror option) \<times> 'x wld"
type_synonym 'x llm_recorder = "goctx option \<Rightarrow> llm_call option \<Rightarrow> 'x wld \<Rightarrow> gerror option \<times> 'x wld"

record ('m, 'x) service =
  sv_registry :: "('m, 'x wld) registry option"
  sv_resolver :: "'x resolver option"
  sv_recorder :: "'x llm_recorder option"
  sv_now :: "'x wld \<Rightarrow> gotime \<times> 'x wld"

definition NewService ::
  "'x env \<Rightarrow> ('m, 'x wld) registry option \<Rightarrow> 'x resolver option \<Rightarrow> 'x llm_recorder option \<Rightarrow> gerror + ('m, 'x) service" where
  "NewService E registry resolver recorder = (case registry of
     None \<Rightarrow> Inl (Errorf ''create provider service: registry is nil'')
   | Some r \<Rightarrow> (case recorder of
       None \<Rightarrow> Inl (Errorf ''create provider service: recorder is nil'')
     | Some rec \<Rightarrow> Inr \<lparr>sv_registry = Some r, sv_resolver = resolver, sv_recorder = Some rec, sv_now = now E\<rparr>))"

section \<open>Tool definitions for the model\<close>

text \<open>A source answers with a definition and whether it knows the name.\<close>

type_synonym 'x source = "goctx \<Rightarrow> string \<Rightarrow> 'x \<Rightarrow> (tool_definition \<times> bool) \<times> 'x"

fun resolve_all ::
  "'x source \<Rightarrow> goctx \<Rightarrow> string list \<Rightarrow> tool_definition list \<Rightarrow> 'x wld \<Rightarrow> (tool_definition list \<times> gerror option) \<times> 'x wld" where
  "resolve_all source cx [] definitions w = ((definitions, None), w)"
| "resolve_all source cx (name # names) definitions w =
     (if blank name then (([], Some (Errorf ''resolve tool schemas: tool name is empty'')), w)
      else let ((definition, ok), w1) = outside (source cx name) (\<lambda>_. EvSchemaInfo name) w in
        if \<not> ok \<or> blank (td_name definition)
        then (([], Some (Errorf (''resolve tool schemas: tool '' @ quote name @ '' not found''))), w1)
        else resolve_all source cx names (definitions @ [definition]) w1)"

definition Resolve :: "'x source \<Rightarrow> 'x resolver" where
  "Resolve source ctx names w = (case ctx of
     None \<Rightarrow> (([], Some (Errorf ''resolve tool schemas: context is nil'')), w)
   | Some cx \<Rightarrow> if names = [] then (([], None), w) else resolve_all source cx names [] w)"

definition NewToolSchemaResolver :: "'x source option \<Rightarrow> gerror + 'x resolver" where
  "NewToolSchemaResolver source = (case source of
     None \<Rightarrow> Inl (Errorf ''create tool schema resolver: source is nil'')
   | Some src \<Rightarrow> Inr (Resolve src))"

section \<open>Calling the model\<close>

record call_metadata =
  cl_session :: string
  cl_provider :: string
  cl_model :: string

definition callMetadataFrom :: "string \<Rightarrow> profile \<Rightarrow> call_metadata" where
  "callMetadataFrom sessionID p =
     \<lparr>cl_session = sessionID, cl_provider = pv_name (p_provider p), cl_model = pv_model (p_provider p)\<rparr>"

definition prepareCall ::
  "'x env \<Rightarrow> ('m, 'x) service option \<Rightarrow> goctx option \<Rightarrow> string \<Rightarrow> profile option \<Rightarrow> string \<Rightarrow> 'x wld
     \<Rightarrow> (gerror + ('m, 'x) service \<times> 'x llm_recorder \<times> goctx \<times> profile \<times> 'm \<times> tool_definition list) \<times> 'x wld" where
  "prepareCall E service ctx sessionID selected operation w =
     (let fail = (\<lambda>text w. (Inl (Errorf (operation @ text)), w)) in
      case service of
        None \<Rightarrow> fail '': service is not initialized'' w
      | Some sv \<Rightarrow> (case (sv_registry sv, sv_recorder sv) of
          (Some registry, Some recorder) \<Rightarrow> (case ctx of
              None \<Rightarrow> fail '': context is nil'' w
            | Some cx \<Rightarrow>
                if blank sessionID then fail '': session_id is required'' w
                else (case selected of
                    None \<Rightarrow> fail '': profile is required'' w
                  | Some p \<Rightarrow>
                      if blank (p_name p) then fail '': profile is required'' w
                      else (case Model (Some registry) (p_name p) of
                          None \<Rightarrow> fail ('': model binding for profile '' @ quote (p_name p) @ '' not found'') w
                        | Some chatModel \<Rightarrow>
                            if p_tools p = [] then (Inr (sv, recorder, cx, p, chatModel, []), w)
                            else (case sv_resolver sv of
                                None \<Rightarrow> fail '': tool schema resolver is required'' w
                              | Some resolver \<Rightarrow>
                                  (let ((definitions, err), w1) = resolver (Some cx) (p_tools p) w in
                                   (case safeWrap (env_url_parse E) (operation @ '': resolve tool schemas'') err of
                                      Some e \<Rightarrow> (Inl e, w1)
                                    | None \<Rightarrow> (Inr (sv, recorder, cx, p, chatModel, definitions), w1)))))))
        | _ \<Rightarrow> fail '': service is not initialized'' w))"

text \<open>The row of one outcome.\<close>

definition llm_row :: "call_metadata \<Rightarrow> response option \<Rightarrow> gerror option \<Rightarrow> gerror option \<Rightarrow> int \<Rightarrow> gotime \<Rightarrow> llm_call" where
  "llm_row md resp callErr safeCallErr duration finishedAt =
     (let u = (if callErr = None then map_option rs_usage resp else None) in
      \<lparr>lc_session = cl_session md, lc_provider = cl_provider md, lc_model = cl_model md,
       lc_prompt_tokens = (case u of None \<Rightarrow> 0 | Some u \<Rightarrow> u_prompt u),
       lc_completion_tokens = (case u of None \<Rightarrow> 0 | Some u \<Rightarrow> u_completion u),
       lc_total_tokens = (case u of None \<Rightarrow> 0 | Some u \<Rightarrow> u_total u),
       lc_success = (callErr = None), lc_error = map_option error_text safeCallErr,
       lc_duration_ms = duration, lc_created = to_utc finishedAt\<rparr>)"

definition recordOutcome ::
  "'x env \<Rightarrow> ('m, 'x) service \<Rightarrow> 'x llm_recorder \<Rightarrow> goctx \<Rightarrow> call_metadata \<Rightarrow> gotime \<Rightarrow> response option \<Rightarrow> gerror option \<Rightarrow> 'x wld
     \<Rightarrow> gerror option \<times> 'x wld" where
  "recordOutcome E sv recorder cx md startedAt resp callErr w =
     (let (finishedAt, w1) = sv_now sv w;
          duration = elapsed_ms startedAt finishedAt;
          safeCallErr = safeWrap (env_url_parse E) ''provider call failed'' callErr;
          row = llm_row md resp callErr safeCallErr duration finishedAt;
          (persistErr, w2) = recorder (Some (without_cancel cx)) (Some row) w1;
          safePersistErr = safeWrap (env_url_parse E) ''persist llm call'' persistErr
      in (case (safePersistErr, safeCallErr) of
            (Some pe, Some ce) \<Rightarrow> (Some (Joined [pe, ce]), w2)
          | (Some pe, None) \<Rightarrow> (Some pe, w2)
          | (None, _) \<Rightarrow> (safeCallErr, w2)))"

definition Chat ::
  "'x env \<Rightarrow> ('m, 's, 'x) model_ops \<Rightarrow> ('m, 'x) service option \<Rightarrow> goctx option \<Rightarrow> string \<Rightarrow> profile option \<Rightarrow> message list \<Rightarrow> 'x wld
     \<Rightarrow> (response \<times> gerror option) \<times> 'x wld" where
  "Chat E M service ctx sessionID selected messages w =
     (let (prepared, w1) = prepareCall E service ctx sessionID selected ''provider chat'' w in
      case prepared of
        Inl err \<Rightarrow> ((empty_response, Some err), w1)
      | Inr (sv, recorder, cx, p, chatModel, definitions) \<Rightarrow>
          (let (startedAt, w2) = sv_now sv w1;
               ((response, callErr), w3) =
                 mo_generate M chatModel cx \<lparr>rq_messages = messages, rq_tools = definitions\<rparr> w2;
               (outcomeErr, w4) =
                 recordOutcome E sv recorder cx (callMetadataFrom sessionID p) startedAt (Some response) callErr w3
           in (case outcomeErr of
                 None \<Rightarrow> ((response, None), w4)
               | Some oe \<Rightarrow>
                   if callErr = None then ((response, Some (AuditPersistence oe)), w4)
                   else ((empty_response, Some oe), w4))))"

section \<open>Contracts\<close>

text \<open>A model makes at most one outside call for a generation, and a result needs that call.\<close>

locale model_port =
  fixes generate :: "goctx \<Rightarrow> request \<Rightarrow> 'x wld \<Rightarrow> (response \<times> gerror option) \<times> 'x wld"
  assumes generate_events: "generate cx rq w = ((r, e), w') \<Longrightarrow>
    \<exists>es. emitted w es w' \<and> (es = [EvGenerate cx rq] \<or> es = [] \<and> e \<noteq> None)"

text \<open>Resolving reads metadata and does nothing else.\<close>

locale schema_resolver =
  fixes resolve :: "goctx option \<Rightarrow> string list \<Rightarrow> 'x wld \<Rightarrow> (tool_definition list \<times> gerror option) \<times> 'x wld"
  assumes resolve_events: "resolve ctx names w = ((ds, e), w') \<Longrightarrow>
    \<exists>ns. set ns \<subseteq> set names \<and> emitted w (map EvSchemaInfo ns) w'"
    and resolve_success: "resolve (Some cx) names w = ((ds, None), w') \<Longrightarrow> length ds = length names"

lemma resolve_all_events:
  "resolve_all src cx names ds w = ((ds', e), w') \<Longrightarrow>
   \<exists>ns. set ns \<subseteq> set names \<and> emitted w (map EvSchemaInfo ns) w' \<and> (e = None \<longrightarrow> length ds' = length ds + length names)"
proof (induction src cx names ds w arbitrary: ds' e w' rule: resolve_all.induct)
  case (2 src cx name names ds w)
  show ?case
  proof (cases "blank name")
    case True
    then show ?thesis using "2.prems" by (auto intro: exI [of _ "[]"])
  next
    case False
    obtain d ok w1 where info: "outside (src cx name) (\<lambda>_. EvSchemaInfo name) w = ((d, ok), w1)"
      by (metis prod.collapse)
    have w1: "emitted w (map EvSchemaInfo [name]) w1" using emitted_outside [OF info] by simp
    show ?thesis
    proof (cases "\<not> ok \<or> blank (td_name d)")
      case True
      then have "w' = w1 \<and> e \<noteq> None" using "2.prems" False info by auto
      then show ?thesis using w1 by (intro exI [of _ "[name]"]) auto
    next
      case ok: False
      then have "resolve_all src cx names (ds @ [d]) w1 = ((ds', e), w')"
        using "2.prems" False info by simp
      from "2.IH" [OF False info [symmetric] refl refl ok this]
      obtain ns where "set ns \<subseteq> set names" "emitted w1 (map EvSchemaInfo ns) w'"
        "e = None \<longrightarrow> length ds' = length (ds @ [d]) + length names" by blast
      then show ?thesis using emitted_trans [OF w1, of "map EvSchemaInfo ns"]
        by (intro exI [of _ "name # ns"]) auto
    qed
  qed
qed (auto intro: exI [of _ "[]"])

interpretation metadata_resolver: schema_resolver "Resolve src" for src
proof unfold_locales
  fix ctx names w ds e w'
  assume run: "Resolve src ctx names w = ((ds, e), w')"
  consider "w' = w" | cx where "resolve_all src cx names [] w = ((ds, e), w')"
    using run by (auto simp: Resolve_def split: option.splits if_splits)
  then show "\<exists>ns. set ns \<subseteq> set names \<and> emitted w (map EvSchemaInfo ns) w'"
  proof cases
    case 1
    then show ?thesis by (intro exI [of _ "[]"]) simp
  next
    case 2
    then show ?thesis using resolve_all_events by blast
  qed
next
  fix cx names w ds w'
  assume "Resolve src (Some cx) names w = ((ds, None), w')"
  then show "length ds = length names"
    using resolve_all_events [of src cx names "[]" w ds None w'] by (auto simp: Resolve_def split: if_splits)
qed

section \<open>What one call does\<close>

text \<open>
  A row that the service records is valid when the call was prepared for a named session and a Profile
  that names its Provider and model, the model's token counts are not negative, and the clock is set.
\<close>

lemma llm_row_valid:
  assumes "\<not> blank (cl_session md)" "\<not> blank (cl_provider md)" "\<not> blank (cl_model md)" "\<not> is_zero t"
    and "callErr = None \<Longrightarrow> resp = Some r \<Longrightarrow>
      0 \<le> u_prompt (rs_usage r) \<and> 0 \<le> u_completion (rs_usage r) \<and> 0 \<le> u_total (rs_usage r)"
    and "callErr = None \<Longrightarrow> resp = None \<or> resp = Some r"
  shows "validateLlmCall (Some (llm_row md resp callErr (safeWrap U p callErr) (elapsed_ms t0 t1) t)) = None"
  using assms by (auto simp: validateLlmCall_def llm_row_def Let_def not_less split: option.splits)

definition recorded_call :: "url_parser \<Rightarrow> call_metadata \<Rightarrow> response option \<Rightarrow> bool \<Rightarrow> llm_call \<Rightarrow> bool" where
  "recorded_call U md resp ok row \<longleftrightarrow>
     lc_session row = cl_session md \<and> lc_provider row = cl_provider md \<and> lc_model row = cl_model md \<and>
     lc_success row = ok \<and> (lc_error row = None \<longleftrightarrow> ok) \<and> 0 \<le> lc_duration_ms row \<and>
     (case (ok, resp) of
        (True, Some r) \<Rightarrow> lc_prompt_tokens row = u_prompt (rs_usage r) \<and>
          lc_completion_tokens row = u_completion (rs_usage r) \<and> lc_total_tokens row = u_total (rs_usage r)
      | _ \<Rightarrow> lc_prompt_tokens row = 0 \<and> lc_completion_tokens row = 0 \<and> lc_total_tokens row = 0) \<and>
     (\<forall>m. lc_error row = Some m \<longrightarrow> (\<exists>t. m = ''provider call failed: '' @ t \<and> \<not> sensitive_text U t))"

lemma llm_row_recorded:
  "recorded_call U md resp (callErr = None)
     (llm_row md resp callErr (safeWrap U ''provider call failed'' callErr) (elapsed_ms t0 t1) t)"
  by (auto simp: recorded_call_def llm_row_def Let_def split: option.splits bool.splits dest!: safeWrap_Some)

locale call_audit =
  audit_recorder create insert_event accepts stored
  for clock :: "'x wld \<Rightarrow> gotime \<times> 'x wld"
    and create :: "goctx option \<Rightarrow> llm_call option \<Rightarrow> 'x wld \<Rightarrow> gerror option \<times> 'x wld"
    and insert_event accepts stored +
  assumes clock_silent: "clock w = (t, w') \<Longrightarrow> emitted w [] w'"
begin

lemma recordOutcome_events:
  assumes sv: "sv_now sv = clock"
    and run: "recordOutcome E sv create cx md t0 resp callErr w = (err, w')"
  obtains t1 w1 e where "clock w = (t1, w1)" "emitted w [] w1"
    "create (Some (without_cancel cx)) (Some (llm_row md resp callErr
       (safeWrap (env_url_parse E) ''provider call failed'' callErr) (elapsed_ms t0 t1) t1)) w1 = (e, w')"
    "err = None \<longleftrightarrow> callErr = None \<and> e = None"
    "e = None \<Longrightarrow> err = safeWrap (env_url_parse E) ''provider call failed'' callErr"
    "callErr = None \<Longrightarrow> err = safeWrap (env_url_parse E) ''persist llm call'' e"
proof -
  obtain t1 w1 where c: "clock w = (t1, w1)" by fastforce
  obtain e w2 where r: "create (Some (without_cancel cx)) (Some (llm_row md resp callErr
       (safeWrap (env_url_parse E) ''provider call failed'' callErr) (elapsed_ms t0 t1) t1)) w1 = (e, w2)"
    by fastforce
  obtain pe where pe: "safeWrap (env_url_parse E) ''persist llm call'' e = pe" "pe = None \<longleftrightarrow> e = None"
    by simp
  obtain ce where ce: "safeWrap (env_url_parse E) ''provider call failed'' callErr = ce" "ce = None \<longleftrightarrow> callErr = None"
    by simp
  have "(err, w') = (case (pe, ce) of
      (Some pe, Some ce) \<Rightarrow> (Some (Joined [pe, ce]), w2) | (Some pe, None) \<Rightarrow> (Some pe, w2) | (None, _) \<Rightarrow> (ce, w2))"
    using run [symmetric] by (simp only: recordOutcome_def sv c r [unfolded ce(1)] pe(1) ce(1) Let_def prod.case)
  then have "w' = w2" "err = None \<longleftrightarrow> callErr = None \<and> e = None" "e = None \<Longrightarrow> err = ce" "callErr = None \<Longrightarrow> err = pe"
    using pe(2) ce(2) by (auto split: option.splits)
  note this [folded pe(1) ce(1)]
  with c r clock_silent [OF c] that show ?thesis by blast
qed

end

interpretation call_records: call_audit
  "now E" "LlmCallRepository_Create E (Some open_repository)" EvInsertLlm
  "\<lambda>r. validateLlmCall (Some r) = None" "\<lambda>r. r" for E
  by unfold_locales (rule emitted_now)

section \<open>Preparing a call\<close>

definition store_service ::
  "'x env \<Rightarrow> ('m, 'x wld) registry \<Rightarrow> 'x resolver option \<Rightarrow> ('m, 'x) service" where
  "store_service E registry resolver = \<lparr>sv_registry = Some registry, sv_resolver = resolver,
     sv_recorder = Some (LlmCallRepository_Create E (Some open_repository)), sv_now = now E\<rparr>"

lemma store_service_fields [simp]:
  "sv_registry (store_service E registry resolver) = Some registry"
  "sv_resolver (store_service E registry resolver) = resolver"
  "sv_recorder (store_service E registry resolver) = Some (LlmCallRepository_Create E (Some open_repository))"
  "sv_now (store_service E registry resolver) = now E"
  by (simp_all add: store_service_def)

fun is_schema_read :: "event \<Rightarrow> bool" where
  "is_schema_read (EvSchemaInfo n) = True"
| "is_schema_read _ = False"

lemma prepareCall_ready:
  assumes "prepareCall E (Some sv) (Some cx) sid (Some p) op w = (Inr (sv', rec, cx', p', m, ds), w1)"
  shows "sv' = sv" "cx' = cx" "p' = p" "sv_recorder sv = Some rec" "\<not> blank sid" "\<not> blank (p_name p)"
    "Model (sv_registry sv) (p_name p) = Some m"
  using assms by (auto simp: prepareCall_def Let_def split: option.splits if_splits prod.splits)

lemma prepareCall_reads:
  assumes "sv_resolver sv = Some (Resolve src)"
    and run: "prepareCall E (Some sv) (Some cx) sid (Some p) op w = (r, w1)"
  shows "only is_schema_read w w1"
proof -
  have "w1 = w \<or> (\<exists>ds e. Resolve src (Some cx) (p_tools p) w = ((ds, e), w1))"
    using run assms(1)
    by (auto simp: prepareCall_def Let_def split: option.splits if_splits prod.splits)
  then show ?thesis
  proof
    assume "\<exists>ds e. Resolve src (Some cx) (p_tools p) w = ((ds, e), w1)"
    then obtain ns where "emitted w (map EvSchemaInfo ns) w1" using metadata_resolver.resolve_events by blast
    then show ?thesis unfolding only_def by (intro exI [of _ "map EvSchemaInfo ns"]) (simp add: list_all_iff)
  qed simp
qed

end
