(* ===== verification/Eino_Adapter.thy ===== *)
theory Eino_Adapter
  imports Provider_Service
begin

text \<open>
  internal/provider/eino_adapter.go: the model port on top of a connector of the Eino library.  The
  connector, its reader and the library's message concatenation and schema decoder are parameters; the
  conversions between the two message types and the state of a stream are here.
\<close>

section \<open>The library's data\<close>

text \<open>
  The fields of the library's structs that the adapter names are fields here.  All the others of a
  message or a call (its multi-part contents, for one), which the adapter neither sets nor reads, are
  kept together by name in the field \<open>other\<close>; it is empty when they have their zero values.
\<close>

type_synonym other_fields = "(string \<times> any) list"

record eino_tool_call =
  et_index :: "int option"
  et_id :: string
  et_type :: string
  et_name :: string
  et_arguments :: string
  et_extra :: extra
  et_other :: other_fields

record response_meta =
  rm_finish :: string
  rm_usage :: "usage option"

record eino_message =
  em_role :: string
  em_content :: string
  em_name :: string
  em_tool_calls :: "eino_tool_call list"
  em_tool_call_id :: string
  em_tool_name :: string
  em_reasoning :: string
  em_extra :: extra
  em_meta :: "response_meta option"
  em_other :: other_fields

record 'j tool_info =
  tf_name :: string
  tf_desc :: string
  tf_params :: "'j option"
  tf_extra :: extra

text \<open>
  A connector \<open>'c\<close>, a reader \<open>'r\<close>, a decoded schema \<open>'j\<close>, and the library's functions on
  them; the four role constants of the library.
\<close>

record ('c, 'r, 'j, 'x) eino =
  ei_system :: string
  ei_user :: string
  ei_assistant :: string
  ei_tool :: string
  ei_with_tools :: "'c \<Rightarrow> 'j tool_info list \<Rightarrow> gerror + 'c"
  ei_generate :: "'c \<Rightarrow> goctx \<Rightarrow> eino_message list \<Rightarrow> 'x \<Rightarrow> (eino_message option \<times> gerror option) \<times> 'x"
  ei_stream :: "'c \<Rightarrow> goctx \<Rightarrow> eino_message list \<Rightarrow> 'x \<Rightarrow> ('r option \<times> gerror option) \<times> 'x"
  ei_recv :: "'r \<Rightarrow> 'x \<Rightarrow> (eino_message option \<times> gerror option) \<times> 'x"
  ei_close :: "'r \<Rightarrow> 'x \<Rightarrow> unit \<times> 'x"
  ei_concat :: "eino_message list \<Rightarrow> gerror + eino_message option"
  ei_schema :: "string \<Rightarrow> gerror + 'j"

text \<open>The library's roles are four different non-empty strings.\<close>

definition eino_roles :: "('c, 'r, 'j, 'x) eino \<Rightarrow> bool" where
  "eino_roles L \<longleftrightarrow> distinct [[], ei_system L, ei_user L, ei_assistant L, ei_tool L]"

section \<open>Conversions\<close>

definition toEinoRole :: "('c, 'r, 'j, 'x) eino \<Rightarrow> role \<Rightarrow> gerror + string" where
  "toEinoRole L role =
     (if role = RoleSystem then Inr (ei_system L)
      else if role = RoleUser then Inr (ei_user L)
      else if role = RoleAssistant then Inr (ei_assistant L)
      else if role = RoleTool then Inr (ei_tool L)
      else Inl (Errorf (''unsupported OryxOS message role '' @ quote role)))"

definition fromEinoRole :: "('c, 'r, 'j, 'x) eino \<Rightarrow> string \<Rightarrow> gerror + role" where
  "fromEinoRole L role =
     (if role = ei_system L then Inr RoleSystem
      else if role = ei_user L then Inr RoleUser
      else if role = ei_assistant L then Inr RoleAssistant
      else if role = ei_tool L then Inr RoleTool
      else Inl (Errorf (''unsupported Eino message role '' @ quote role)))"

definition to_eino_call :: "tool_call \<Rightarrow> eino_tool_call" where
  "to_eino_call c = \<lparr>et_index = tc_index c, et_id = tc_id c, et_type = tc_type c,
     et_name = fc_name (tc_function c), et_arguments = fc_arguments (tc_function c), et_extra = tc_extra c,
     et_other = []\<rparr>"

definition from_eino_call :: "eino_tool_call \<Rightarrow> tool_call" where
  "from_eino_call c = \<lparr>tc_index = et_index c, tc_id = et_id c, tc_type = et_type c,
     tc_function = \<lparr>fc_name = et_name c, fc_arguments = et_arguments c\<rparr>, tc_extra = et_extra c\<rparr>"

definition toEinoMessage :: "('c, 'r, 'j, 'x) eino \<Rightarrow> message \<Rightarrow> gerror + eino_message" where
  "toEinoMessage L m = map_sum id (\<lambda>role. \<lparr>em_role = role, em_content = m_content m, em_name = m_name m,
     em_tool_calls = map to_eino_call (m_tool_calls m), em_tool_call_id = m_tool_call_id m,
     em_tool_name = m_tool_name m, em_reasoning = m_reasoning m, em_extra = m_extra m, em_meta = None,
     em_other = []\<rparr>)
     (toEinoRole L (m_role m))"

definition fromEinoMessageWithRoleMode ::
  "('c, 'r, 'j, 'x) eino \<Rightarrow> eino_message option \<Rightarrow> bool \<Rightarrow> gerror + message" where
  "fromEinoMessageWithRoleMode L message allowEmptyRole = (case message of
     None \<Rightarrow> Inl (Errorf ''convert Eino message: message is nil'')
   | Some m \<Rightarrow> map_sum id (\<lambda>role. \<lparr>m_role = role, m_content = em_content m, m_name = em_name m,
       m_tool_calls = map from_eino_call (em_tool_calls m), m_tool_call_id = em_tool_call_id m,
       m_tool_name = em_tool_name m, m_reasoning = em_reasoning m, m_extra = em_extra m\<rparr>)
       (if em_role m \<noteq> [] \<or> \<not> allowEmptyRole then fromEinoRole L (em_role m) else Inr []))"

definition fromEinoMessage :: "('c, 'r, 'j, 'x) eino \<Rightarrow> eino_message option \<Rightarrow> gerror + message" where
  "fromEinoMessage L m = fromEinoMessageWithRoleMode L m False"

definition fromEinoStreamChunk :: "('c, 'r, 'j, 'x) eino \<Rightarrow> eino_message option \<Rightarrow> gerror + message" where
  "fromEinoStreamChunk L m = fromEinoMessageWithRoleMode L m True"

definition fromEinoResponse :: "('c, 'r, 'j, 'x) eino \<Rightarrow> eino_message option \<Rightarrow> gerror + response" where
  "fromEinoResponse L message = map_sum id (\<lambda>converted.
     (case message of
        None \<Rightarrow> empty_response\<lparr>rs_message := converted\<rparr>
      | Some m \<Rightarrow> (case em_meta m of
          None \<Rightarrow> empty_response\<lparr>rs_message := converted\<rparr>
        | Some meta \<Rightarrow>
            (let r = empty_response\<lparr>rs_message := converted, rs_finish := rm_finish meta\<rparr>
             in case rm_usage meta of None \<Rightarrow> r | Some u \<Rightarrow> r\<lparr>rs_usage := u\<rparr>))))
     (fromEinoMessage L message)"

fun toEinoMessages_from :: "('c, 'r, 'j, 'x) eino \<Rightarrow> nat \<Rightarrow> message list \<Rightarrow> gerror + eino_message list" where
  "toEinoMessages_from L i [] = Inr []"
| "toEinoMessages_from L i (m # ms) = (case toEinoMessage L m of
     Inl e \<Rightarrow> Inl (Wrapf (''convert message '' @ itoa (int i) @ '' to Eino: '') e)
   | Inr em \<Rightarrow> map_sum id ((#) em) (toEinoMessages_from L (Suc i) ms))"

definition toEinoMessages :: "('c, 'r, 'j, 'x) eino \<Rightarrow> message list \<Rightarrow> gerror + eino_message list" where
  "toEinoMessages L = toEinoMessages_from L 0"

fun toEinoToolInfos_from :: "('c, 'r, 'j, 'x) eino \<Rightarrow> nat \<Rightarrow> tool_definition list \<Rightarrow> gerror + 'j tool_info list" where
  "toEinoToolInfos_from L i [] = Inr []"
| "toEinoToolInfos_from L i (d # ds) =
     (if blank (td_name d)
      then Inl (Errorf (''convert Tool definition '' @ itoa (int i) @ '' to Eino: name is required''))
      else if td_schema d = [] then
        map_sum id ((#) \<lparr>tf_name = td_name d, tf_desc = td_description d, tf_params = None, tf_extra = td_extra d\<rparr>)
          (toEinoToolInfos_from L (Suc i) ds)
      else (case ei_schema L (td_schema d) of
          Inl e \<Rightarrow> Inl (Wrapf (''convert Tool definition '' @ quote (td_name d) @ '' JSON Schema: '') e)
        | Inr j \<Rightarrow>
            map_sum id ((#) \<lparr>tf_name = td_name d, tf_desc = td_description d, tf_params = Some j, tf_extra = td_extra d\<rparr>)
              (toEinoToolInfos_from L (Suc i) ds)))"

definition toEinoToolInfos :: "('c, 'r, 'j, 'x) eino \<Rightarrow> tool_definition list \<Rightarrow> gerror + 'j tool_info list" where
  "toEinoToolInfos L = toEinoToolInfos_from L 0"

section \<open>The adapter\<close>

record 'c adapter =
  ea_connector :: "'c option"

definition newEinoChatModelAdapter :: "'c option \<Rightarrow> gerror + 'c adapter" where
  "newEinoChatModelAdapter connector = (case connector of
     None \<Rightarrow> Inl (Errorf ''create Eino chat model adapter: connector is nil'')
   | Some c \<Rightarrow> Inr \<lparr>ea_connector = Some c\<rparr>)"

definition wrapEinoChatModel :: "'c option \<Rightarrow> gerror option \<Rightarrow> gerror + 'c adapter" where
  "wrapEinoChatModel connector err = (case err of Some e \<Rightarrow> Inl e | None \<Rightarrow> newEinoChatModelAdapter connector)"

definition prepare ::
  "('c, 'r, 'j, 'x) eino \<Rightarrow> 'c \<Rightarrow> request \<Rightarrow> gerror + 'c \<times> eino_message list" where
  "prepare L connector rq = (case toEinoMessages L (rq_messages rq) of
     Inl e \<Rightarrow> Inl e
   | Inr messages \<Rightarrow> (case toEinoToolInfos L (rq_tools rq) of
       Inl e \<Rightarrow> Inl e
     | Inr tools \<Rightarrow>
         if tools = [] then Inr (connector, messages)
         else (case ei_with_tools L connector tools of
                 Inl e \<Rightarrow> Inl (Wrapf ''bind Eino Tool schemas: '' e)
               | Inr c \<Rightarrow> Inr (c, messages))))"

definition Generate ::
  "('c, 'r, 'j, 'x) eino \<Rightarrow> 'c adapter option \<Rightarrow> goctx option \<Rightarrow> request \<Rightarrow> 'x wld \<Rightarrow> (response \<times> gerror option) \<times> 'x wld" where
  "Generate L adapter ctx rq w = (case Option.bind adapter ea_connector of
     None \<Rightarrow> ((empty_response, Some (Errorf ''generate with Eino adapter: adapter is not initialized'')), w)
   | Some connector \<Rightarrow> (case ctx of
       None \<Rightarrow> ((empty_response, Some (Errorf ''generate with Eino adapter: context is nil'')), w)
     | Some cx \<Rightarrow> (case prepare L connector rq of
       Inl e \<Rightarrow> ((empty_response, Some e), w)
     | Inr (c, messages) \<Rightarrow>
         (let ((message, err), w1) = outside (ei_generate L c cx messages) (\<lambda>_. EvGenerate cx rq) w in
          (case err of
             Some e \<Rightarrow> ((empty_response, Some e), w1)
           | None \<Rightarrow>
               if message = None then ((empty_response, Some (Errorf ''Eino connector returned nil response'')), w1)
               else (case fromEinoResponse L message of
                       Inl e \<Rightarrow> ((empty_response, Some e), w1)
                     | Inr r \<Rightarrow> ((r, None), w1)))))))"

section \<open>The stream\<close>

text \<open>\<open>Stream\<close> refuses a nil reader, so the state holds a reader.\<close>

record 'r eino_stream =
  es_reader :: 'r
  es_chunks :: "eino_message list"
  es_done :: bool
  es_closed :: bool
  es_reader_closed :: bool

definition Stream ::
  "('c, 'r, 'j, 'x) eino \<Rightarrow> 'c adapter option \<Rightarrow> goctx option \<Rightarrow> request \<Rightarrow> 'x wld \<Rightarrow> ('r eino_stream option \<times> gerror option) \<times> 'x wld" where
  "Stream L adapter ctx rq w = (case Option.bind adapter ea_connector of
     None \<Rightarrow> ((None, Some (Errorf ''stream with Eino adapter: adapter is not initialized'')), w)
   | Some connector \<Rightarrow> (case ctx of
       None \<Rightarrow> ((None, Some (Errorf ''stream with Eino adapter: context is nil'')), w)
     | Some cx \<Rightarrow> (case prepare L connector rq of
       Inl e \<Rightarrow> ((None, Some e), w)
     | Inr (c, messages) \<Rightarrow>
         (let ((reader, err), w1) = outside (ei_stream L c cx messages) (\<lambda>_. EvStreamOpen cx rq) w in
          (case err of
             Some e \<Rightarrow> ((None, Some e), w1)
           | None \<Rightarrow> (case reader of
               None \<Rightarrow> ((None, Some (Errorf ''Eino connector returned nil stream'')), w1)
             | Some r \<Rightarrow> ((Some \<lparr>es_reader = r, es_chunks = [], es_done = False, es_closed = False,
                       es_reader_closed = False\<rparr>, None), w1)))))))"

text \<open>The reader is closed the first time only (\<open>sync.Once\<close>).\<close>

definition closeReader :: "('c, 'r, 'j, 'x) eino \<Rightarrow> 'r eino_stream \<Rightarrow> 'x wld \<Rightarrow> 'r eino_stream \<times> 'x wld" where
  "closeReader L st w =
     (if es_reader_closed st then (st, w)
      else (let (u, w1) = outside (ei_close L (es_reader st)) (\<lambda>_. EvStreamClose) w
            in (st\<lparr>es_reader_closed := True\<rparr>, w1)))"

definition finish :: "('c, 'r, 'j, 'x) eino \<Rightarrow> 'r eino_stream \<Rightarrow> 'x wld \<Rightarrow> 'r eino_stream \<times> 'x wld" where
  "finish L st w = closeReader L (st\<lparr>es_done := True\<rparr>) w"

text \<open>\<open>finish\<close> and then a result.\<close>

definition finish_with ::
  "('c, 'r, 'j, 'x) eino \<Rightarrow> stream_event \<Rightarrow> gerror option \<Rightarrow> 'r eino_stream \<Rightarrow> 'x wld
     \<Rightarrow> (stream_event \<times> gerror option) \<times> 'r eino_stream \<times> 'x wld" where
  "finish_with L ev e st w = ((ev, e), finish L st w)"

definition Recv ::
  "('c, 'r, 'j, 'x) eino \<Rightarrow> 'r eino_stream \<Rightarrow> 'x wld \<Rightarrow> (stream_event \<times> gerror option) \<times> 'r eino_stream \<times> 'x wld" where
  "Recv L st w =
     (if es_closed st then ((empty_stream_event, Some (Sentinel ErrClosedPipe)), st, w)
      else if es_done st then ((empty_stream_event, Some (Sentinel EOF)), st, w)
      else
        (let ((chunk, err), w1) = outside (ei_recv L (es_reader st)) (\<lambda>_. EvStreamRecv) w;
             fail = (\<lambda>e st. finish_with L empty_stream_event (Some e) st w1) in
         case err of
           None \<Rightarrow>
             (case chunk of
                None \<Rightarrow> fail (Errorf ''Eino connector returned nil stream chunk'') st
              | Some c \<Rightarrow>
                  (let st1 = st\<lparr>es_chunks := es_chunks st @ [c]\<rparr> in
                   case fromEinoStreamChunk L (Some c) of
                     Inl e \<Rightarrow> fail e st1
                   | Inr delta \<Rightarrow>
                       ((\<lparr>se_kind = StreamEventDelta, se_delta = delta, se_response = None\<rparr>, None), st1, w1)))
         | Some e \<Rightarrow>
             if \<not> errors_is EOF e then fail e st
             else if es_chunks st = [] then fail (Errorf ''Eino connector stream completed without a response'') st
             else (case ei_concat L (es_chunks st) of
                     Inl ce \<Rightarrow> fail (Wrapf ''merge Eino stream response: '' ce) st
                   | Inr message \<Rightarrow>
                       (case fromEinoResponse L message of
                          Inl ve \<Rightarrow> fail ve st
                        | Inr r \<Rightarrow> finish_with L \<lparr>se_kind = StreamEventCompleted, se_delta = empty_message,
                                     se_response = Some r\<rparr> None st w1))))"

definition Close_stream :: "('c, 'r, 'j, 'x) eino \<Rightarrow> 'r eino_stream \<Rightarrow> 'x wld \<Rightarrow> gerror option \<times> 'r eino_stream \<times> 'x wld" where
  "Close_stream L st w = (None, closeReader L (st\<lparr>es_closed := True, es_done := True\<rparr>) w)"

definition eino_ops :: "('c, 'r, 'j, 'x) eino \<Rightarrow> ('c adapter, 'r eino_stream, 'x) model_ops" where
  "eino_ops L = \<lparr>mo_generate = (\<lambda>a cx. Generate L (Some a) (Some cx)),
     mo_stream = (\<lambda>a cx. Stream L (Some a) (Some cx)), mo_recv = Recv L, mo_close = Close_stream L\<rparr>"

lemma eino_ops_fields [simp]:
  "mo_generate (eino_ops L) = (\<lambda>a cx. Generate L (Some a) (Some cx))"
  "mo_stream (eino_ops L) = (\<lambda>a cx. Stream L (Some a) (Some cx))"
  "mo_recv (eino_ops L) = Recv L" "mo_close (eino_ops L) = Close_stream L"
  by (simp_all add: eino_ops_def)

interpretation eino_model: model_port "\<lambda>cx. Generate L (Some adapter) (Some cx)" for L adapter
proof unfold_locales
  fix cx rq w r e w'
  assume "Generate L (Some adapter) (Some cx) rq w = ((r, e), w')"
  then show "\<exists>es. emitted w es w' \<and> (es = [EvGenerate cx rq] \<or> es = [] \<and> e \<noteq> None)"
    by (auto simp: Generate_def Let_def split: option.splits sum.splits prod.splits if_splits
        dest!: emitted_outside)
qed

text \<open>
  What is left of a message of the library after its conversion and back: the metadata, which only a
  response has, and the fields the adapter does not name are gone, in the message and in its calls.
\<close>

definition named_fields :: "eino_message \<Rightarrow> eino_message" where
  "named_fields em = em\<lparr>em_meta := None, em_other := [],
     em_tool_calls := map (\<lambda>c. c\<lparr>et_other := []\<rparr>) (em_tool_calls em)\<rparr>"

lemma from_to_eino_call [simp]: "from_eino_call (to_eino_call c) = c"
  by (simp add: from_eino_call_def to_eino_call_def)

lemma to_from_eino_call [simp]: "to_eino_call (from_eino_call c) = c\<lparr>et_other := []\<rparr>"
  by (simp add: from_eino_call_def to_eino_call_def)

lemma toEinoRole_fromEinoRole:
  assumes "eino_roles L" "fromEinoRole L r = Inr role"
  shows "toEinoRole L role = Inr r"
  using assms by (auto simp: eino_roles_def toEinoRole_def fromEinoRole_def split: if_splits)

lemma fromEinoRole_toEinoRole:
  assumes "eino_roles L" "role \<in> {RoleSystem, RoleUser, RoleAssistant, RoleTool}"
  shows "\<exists>r. toEinoRole L role = Inr r \<and> r \<noteq> [] \<and> fromEinoRole L r = Inr role"
  using assms unfolding eino_roles_def insert_iff
  by (elim disjE) (auto simp: toEinoRole_def fromEinoRole_def)

text \<open>
  C20.  Conversion round trip.  A message converts exactly when its role is one of the four, and converting
  it back gives the message.  In the other direction a message of the library that converts comes back with
  every field the adapter names, calls included, and without its metadata and its other fields.
\<close>

theorem eino_message_roundtrip:
  assumes "eino_roles L"
  shows "(m_role m \<in> {RoleSystem, RoleUser, RoleAssistant, RoleTool} \<longrightarrow>
      (\<exists>em. toEinoMessage L m = Inr em \<and> fromEinoMessage L (Some em) = Inr m \<and> fromEinoStreamChunk L (Some em) = Inr m)) \<and>
    (m_role m \<notin> {RoleSystem, RoleUser, RoleAssistant, RoleTool} \<longrightarrow> (\<exists>e. toEinoMessage L m = Inl e)) \<and>
    (\<forall>em. fromEinoMessage L (Some em) = Inr m \<longrightarrow> toEinoMessage L m = Inr (named_fields em))"
proof -
  have "\<exists>em. toEinoMessage L m = Inr em \<and> fromEinoMessage L (Some em) = Inr m \<and> fromEinoStreamChunk L (Some em) = Inr m"
    if valid: "m_role m \<in> {RoleSystem, RoleUser, RoleAssistant, RoleTool}"
  proof -
    obtain r where "toEinoRole L (m_role m) = Inr r" "r \<noteq> []" "fromEinoRole L r = Inr (m_role m)"
      using fromEinoRole_toEinoRole [OF assms valid] by blast
    then show ?thesis
      by (simp add: toEinoMessage_def fromEinoMessage_def fromEinoStreamChunk_def fromEinoMessageWithRoleMode_def comp_def)
  qed
  moreover have "\<exists>e. toEinoMessage L m = Inl e" if "m_role m \<notin> {RoleSystem, RoleUser, RoleAssistant, RoleTool}"
    using that by (simp add: toEinoMessage_def toEinoRole_def)
  moreover have "toEinoMessage L m = Inr (named_fields em)" if conv: "fromEinoMessage L (Some em) = Inr m" for em
  proof -
    obtain role where role: "fromEinoRole L (em_role em) = Inr role"
      using conv by (cases "fromEinoRole L (em_role em)") (auto simp: fromEinoMessage_def fromEinoMessageWithRoleMode_def)
    then have m: "m = \<lparr>m_role = role, m_content = em_content em, m_name = em_name em,
        m_tool_calls = map from_eino_call (em_tool_calls em), m_tool_call_id = em_tool_call_id em,
        m_tool_name = em_tool_name em, m_reasoning = em_reasoning em, m_extra = em_extra em\<rparr>"
      using conv by (auto simp: fromEinoMessage_def fromEinoMessageWithRoleMode_def)
    then show ?thesis
      using toEinoRole_fromEinoRole [OF assms role] by (simp add: toEinoMessage_def named_fields_def comp_def)
  qed
  ultimately show ?thesis by blast
qed

section \<open>A connector for the examples\<close>

text \<open>It answers every request with ''hi'', in one chunk when it streams.\<close>

definition demo_answer :: eino_message where
  "demo_answer = \<lparr>em_role = ''assistant'', em_content = ''hi'', em_name = [], em_tool_calls = [],
     em_tool_call_id = [], em_tool_name = [], em_reasoning = [], em_extra = None,
     em_meta = Some \<lparr>rm_finish = ''stop'', rm_usage = Some \<lparr>u_prompt = 3, u_completion = 1, u_total = 4\<rparr>\<rparr>, em_other = []\<rparr>"

definition demo_eino :: "(unit, unit, unit, nat) eino" where
  "demo_eino = \<lparr>ei_system = ''system'', ei_user = ''user'', ei_assistant = ''assistant'', ei_tool = ''tool'',
     ei_with_tools = (\<lambda>c ts. Inr c), ei_generate = (\<lambda>c cx ms x. ((Some demo_answer, None), x)),
     ei_stream = (\<lambda>c cx ms x. ((Some (), None), x)),
     ei_recv = (\<lambda>r x. (if even x then (Some demo_answer, None) else (None, Some (Sentinel EOF)), Suc x)),
     ei_close = (\<lambda>r x. ((), x)), ei_concat = (\<lambda>cs. Inr (Some demo_answer)), ei_schema = (\<lambda>s. Inr ())\<rparr>"

lemma demo_eino_roles: "eino_roles demo_eino"
  by (simp add: eino_roles_def demo_eino_def)

theorem eino_message_roundtrip_witness:
  "\<exists>em. toEinoMessage demo_eino (text_message RoleUser ''hi'') = Inr em \<and>
     fromEinoMessage demo_eino (Some em) = Inr (text_message RoleUser ''hi'')"
  using eino_message_roundtrip [OF demo_eino_roles, of "text_message RoleUser ''hi''"] by auto

end
