(* ===== verification/Provider_Stream.thy ===== *)
theory Provider_Stream
  imports Eino_Adapter
begin

text \<open>
  internal/provider/stream.go: a streamed model call whose outcome is audited once, when the stream
  reaches its end, fails or is closed.  A mutex makes each \<open>Recv\<close> and \<open>Close\<close> one step, so a
  use of the stream is a sequence of such calls.
\<close>

section \<open>The audited stream\<close>

record ('m, 's, 'x) audited =
  as_stream :: 's
  as_service :: "('m, 'x) service"
  as_recorder :: "'x llm_recorder"
  as_ctx :: goctx
  as_metadata :: call_metadata
  as_started :: gotime
  as_terminal :: bool
  as_caller_closed :: bool
  as_upstream_closed :: bool
  as_upstream_err :: "gerror option"
  as_close_result :: "gerror option"

definition ChatStream ::
  "'x env \<Rightarrow> ('m, 's, 'x) model_ops \<Rightarrow> ('m, 'x) service option \<Rightarrow> goctx option \<Rightarrow> string \<Rightarrow> profile option \<Rightarrow>
   message list \<Rightarrow> 'x wld \<Rightarrow> (('m, 's, 'x) audited option \<times> gerror option) \<times> 'x wld" where
  "ChatStream E M service ctx sessionID selected messages w =
     (let (prepared, w1) = prepareCall E service ctx sessionID selected ''provider stream'' w in
      case prepared of
        Inl err \<Rightarrow> ((None, Some err), w1)
      | Inr (sv, recorder, cx, p, chatModel, definitions) \<Rightarrow>
          (let (startedAt, w2) = sv_now sv w1;
               ((stream, callErr0), w3) =
                 mo_stream M chatModel cx \<lparr>rq_messages = messages, rq_tools = definitions\<rparr> w2;
               callErr = (if callErr0 = None \<and> stream = None
                          then Some (Errorf ''model returned nil response stream'') else callErr0)
           in (case (callErr, stream) of
                 (None, Some s) \<Rightarrow>
                   ((Some \<lparr>as_stream = s, as_service = sv, as_recorder = recorder, as_ctx = cx,
                      as_metadata = callMetadataFrom sessionID p, as_started = startedAt,
                      as_terminal = False, as_caller_closed = False, as_upstream_closed = False,
                      as_upstream_err = None, as_close_result = None\<rparr>, None), w3)
               | _ \<Rightarrow>
                   (let (oe, w4) =
                      recordOutcome E sv recorder cx (callMetadataFrom sessionID p) startedAt None callErr w3
                    in ((None, oe), w4)))))"

definition closeUpstream ::
  "('m, 's, 'x) model_ops \<Rightarrow> ('m, 's, 'x) audited \<Rightarrow> 'x wld \<Rightarrow> gerror option \<times> ('m, 's, 'x) audited \<times> 'x wld" where
  "closeUpstream M st w =
     (if as_upstream_closed st then (as_upstream_err st, st, w)
      else (let (e, s', w1) = mo_close M (as_stream st) w
            in (e, st\<lparr>as_stream := s', as_upstream_closed := True, as_upstream_err := e\<rparr>, w1)))"

definition joinStreamErrors :: "url_parser \<Rightarrow> gerror option \<Rightarrow> gerror option \<Rightarrow> gerror option" where
  "joinStreamErrors U closeErr outcomeErr =
     (case safeWrap U ''close provider stream'' closeErr of
        None \<Rightarrow> outcomeErr
      | Some ce \<Rightarrow> (case outcomeErr of None \<Rightarrow> Some ce | Some oe \<Rightarrow> Some (Joined [ce, oe])))"

definition record_stream ::
  "'x env \<Rightarrow> ('m, 's, 'x) audited \<Rightarrow> response option \<Rightarrow> gerror option \<Rightarrow> 'x wld \<Rightarrow> gerror option \<times> 'x wld" where
  "record_stream E st = recordOutcome E (as_service st) (as_recorder st) (as_ctx st) (as_metadata st) (as_started st)"

definition fail_stream ::
  "'x env \<Rightarrow> ('m, 's, 'x) model_ops \<Rightarrow> gerror \<Rightarrow> ('m, 's, 'x) audited \<Rightarrow> 'x wld
     \<Rightarrow> (stream_event \<times> gerror option) \<times> ('m, 's, 'x) audited \<times> 'x wld" where
  "fail_stream E M cause st w =
     (let (closeErr, st1, w1) = closeUpstream M (st\<lparr>as_terminal := True\<rparr>) w;
          (outcomeErr, w2) = record_stream E st1 None (Some cause) w1
      in ((empty_stream_event, joinStreamErrors (env_url_parse E) closeErr outcomeErr), st1, w2))"

definition Recv_audited ::
  "'x env \<Rightarrow> ('m, 's, 'x) model_ops \<Rightarrow> ('m, 's, 'x) audited \<Rightarrow> 'x wld
     \<Rightarrow> (stream_event \<times> gerror option) \<times> ('m, 's, 'x) audited \<times> 'x wld" where
  "Recv_audited E M st w =
     (if as_caller_closed st then ((empty_stream_event, Some (Sentinel ErrClosedPipe)), st, w)
      else if as_terminal st then ((empty_stream_event, Some (Sentinel EOF)), st, w)
      else
        (let ((event, recvErr), s', w1) = mo_recv M (as_stream st) w; st = st\<lparr>as_stream := s'\<rparr> in
         case recvErr of
           Some e \<Rightarrow>
             fail_stream E M (if errors_is EOF e then Errorf ''provider stream ended before completed response'' else e)
               st w1
         | None \<Rightarrow>
             if se_kind event = StreamEventDelta then
               (if se_response event \<noteq> None
                then fail_stream E M (Errorf ''provider stream delta contains completed response'') st w1
                else ((event, None), st, w1))
             else if se_kind event = StreamEventCompleted then
               (case se_response event of
                  None \<Rightarrow> fail_stream E M (Errorf ''provider stream completed without response'') st w1
                | Some r \<Rightarrow>
                    (let (closeErr, st1, w2) = closeUpstream M (st\<lparr>as_terminal := True\<rparr>) w1;
                         (oe, w3) = record_stream E st1 (Some r) None w2
                     in (case oe of
                           Some e \<Rightarrow> ((empty_stream_event, Some e), st1, w3)
                         | None \<Rightarrow> ((event, None), st1, w3))))
             else fail_stream E M (Errorf (''provider stream returned unknown event kind '' @ quote (se_kind event)))
                    st w1))"

definition Close_audited ::
  "'x env \<Rightarrow> ('m, 's, 'x) model_ops \<Rightarrow> ('m, 's, 'x) audited \<Rightarrow> 'x wld
     \<Rightarrow> gerror option \<times> ('m, 's, 'x) audited \<times> 'x wld" where
  "Close_audited E M st w =
     (if as_caller_closed st then (as_close_result st, st, w)
      else
        (let (closeErr, st1, w1) = closeUpstream M (st\<lparr>as_caller_closed := True\<rparr>) w in
         if as_terminal st1 then (closeErr, st1\<lparr>as_close_result := closeErr\<rparr>, w1)
         else
           (let (terminalErr, w2) =
                  record_stream E st1 None (Some (Errorf ''provider stream closed before completion'')) w1;
                result = joinStreamErrors (env_url_parse E) closeErr terminalErr
            in (result, st1\<lparr>as_terminal := True, as_close_result := result\<rparr>, w2))))"

section \<open>Uses of a stream\<close>

datatype stream_call = CallRecv | CallClose

datatype stream_result = Received stream_event "gerror option" | ClosedWith "gerror option"

fun audited_call ::
  "'x env \<Rightarrow> ('m, 's, 'x) model_ops \<Rightarrow> stream_call \<Rightarrow> ('m, 's, 'x) audited \<Rightarrow> 'x wld
     \<Rightarrow> stream_result \<times> ('m, 's, 'x) audited \<times> 'x wld" where
  "audited_call E M CallRecv st w = (let ((ev, e), st', w') = Recv_audited E M st w in (Received ev e, st', w'))"
| "audited_call E M CallClose st w = (let (e, st', w') = Close_audited E M st w in (ClosedWith e, st', w'))"

fun audited_calls ::
  "'x env \<Rightarrow> ('m, 's, 'x) model_ops \<Rightarrow> stream_call list \<Rightarrow> ('m, 's, 'x) audited \<Rightarrow> 'x wld
     \<Rightarrow> stream_result list \<times> ('m, 's, 'x) audited \<times> 'x wld" where
  "audited_calls E M [] st w = ([], st, w)"
| "audited_calls E M (c # cs) st w =
     (let (r, st1, w1) = audited_call E M c st w; (rs, st2, w2) = audited_calls E M cs st1 w1
      in (r # rs, st2, w2))"

section \<open>Contracts\<close>

text \<open>What an upstream stream may do outside: read its reader and close it, and nothing else.\<close>

fun is_stream_event :: "event \<Rightarrow> bool" where
  "is_stream_event EvStreamRecv = True"
| "is_stream_event EvStreamClose = True"
| "is_stream_event _ = False"

text \<open>What a call of the stream never changes.\<close>

definition same_call :: "('m, 's, 'x) audited \<Rightarrow> ('m, 's, 'x) audited \<Rightarrow> bool" where
  "same_call st st' \<longleftrightarrow> as_service st' = as_service st \<and> as_recorder st' = as_recorder st \<and>
     as_ctx st' = as_ctx st \<and> as_metadata st' = as_metadata st \<and> as_started st' = as_started st"

lemma same_call_refl [simp]: "same_call st st"
  by (simp add: same_call_def)

lemma same_call_trans: "same_call st st' \<Longrightarrow> same_call st' st'' \<Longrightarrow> same_call st st''"
  by (simp add: same_call_def)

lemma same_call_update [simp]:
  "same_call st (st'\<lparr>as_stream := s\<rparr>) = same_call st st'" "same_call st (st'\<lparr>as_terminal := b\<rparr>) = same_call st st'"
  "same_call st (st'\<lparr>as_caller_closed := b\<rparr>) = same_call st st'"
  "same_call st (st'\<lparr>as_close_result := e\<rparr>) = same_call st st'"
  "same_call (st\<lparr>as_stream := s\<rparr>) st' = same_call st st'" "same_call (st\<lparr>as_terminal := b\<rparr>) st' = same_call st st'"
  "same_call (st\<lparr>as_caller_closed := b\<rparr>) st' = same_call st st'"
  "same_call st (st'\<lparr>as_terminal := b, as_close_result := e\<rparr>) = same_call st st'"
  by (simp_all add: same_call_def)

locale upstream_port =
  fixes M :: "('m, 's, 'x) model_ops"
  assumes recv_events: "mo_recv M s w = (r, s', w') \<Longrightarrow> only is_stream_event w w'"
    and close_events: "mo_close M s w = (e, s', w') \<Longrightarrow> only is_stream_event w w'"
begin

lemma closeUpstream_events:
  assumes "closeUpstream M st w = (e, st', w')"
  shows "only is_stream_event w w'" "as_upstream_closed st'" "same_call st st'"
    "as_terminal st' = as_terminal st" "as_caller_closed st' = as_caller_closed st"
  using assms close_events by (auto simp: closeUpstream_def same_call_def split: if_splits prod.splits)

end

lemma closeReader_events: "closeReader L st w = (st', w') \<Longrightarrow> only is_stream_event w w'"
  by (auto simp: closeReader_def split: if_splits prod.splits dest!: only_outside [where P = is_stream_event])

lemma finish_events: "finish L st w = (st', w') \<Longrightarrow> only is_stream_event w w'"
  by (auto simp: finish_def dest: closeReader_events)

interpretation eino_upstream: upstream_port "eino_ops L" for L
proof unfold_locales
  fix s w r s' w'
  assume run: "mo_recv (eino_ops L) s w = (r, s', w')"
  obtain chunk err w1 where c: "outside (ei_recv L (es_reader s)) (\<lambda>_. EvStreamRecv) w = ((chunk, err), w1)"
    by (metis prod.collapse)
  have "only is_stream_event w w1" using only_outside [OF c] by simp
  moreover have "w' = w \<or> w' = w1 \<or> (\<exists>st st'. finish L st w1 = (st', w'))"
    using run unfolding eino_ops_fields Recv_def
    by (auto simp: c Let_def finish_with_def split: if_splits option.splits sum.splits)
  ultimately show "only is_stream_event w w'" using finish_events only_trans by blast
next
  fix s w e s' w'
  assume "mo_close (eino_ops L) s w = (e, s', w')"
  then show "only is_stream_event w w'"
    by (auto simp: Close_stream_def dest: closeReader_events)
qed

section \<open>The audit of a stream\<close>

text \<open>A stream whose outcome the repository of internal/store records, under a named session and model.\<close>

definition stored_stream :: "'x env \<Rightarrow> ('m, 's, 'x) audited \<Rightarrow> bool" where
  "stored_stream E st \<longleftrightarrow> sv_now (as_service st) = now E \<and>
     as_recorder st = LlmCallRepository_Create E (Some open_repository) \<and>
     \<not> blank (cl_session (as_metadata st)) \<and> \<not> blank (cl_provider (as_metadata st)) \<and>
     \<not> blank (cl_model (as_metadata st)) \<and> (as_caller_closed st \<longrightarrow> as_terminal st)"

definition usage_nonneg :: "response \<Rightarrow> bool" where
  "usage_nonneg r \<longleftrightarrow> 0 \<le> u_prompt (rs_usage r) \<and> 0 \<le> u_completion (rs_usage r) \<and> 0 \<le> u_total (rs_usage r)"

definition counted_responses :: "('m, 's, 'x) model_ops \<Rightarrow> bool" where
  "counted_responses M \<longleftrightarrow> (\<forall>s w ev s' w' r. mo_recv M s w = ((ev, None), s', w') \<longrightarrow> se_response ev = Some r \<longrightarrow>
     usage_nonneg r)"

text \<open>A completed response was delivered after a success row with its token counts was inserted.\<close>

definition delivered :: "'x env \<Rightarrow> 'x wld \<Rightarrow> 'x wld \<Rightarrow> stream_event \<Rightarrow> bool" where
  "delivered E w w' ev \<longleftrightarrow> (\<exists>es cx row md r. emitted w es w' \<and> EvInsertLlm cx row None \<in> set es \<and>
     se_response ev = Some r \<and> recorded_call (env_url_parse E) md (Some r) True row)"

lemma delivered_trans:
  "delivered E w w1 ev \<Longrightarrow> emitted w1 es w' \<Longrightarrow> delivered E w w' ev"
  "emitted w es w1 \<Longrightarrow> delivered E w1 w' ev \<Longrightarrow> delivered E w w' ev"
  unfolding delivered_def using emitted_trans by fastforce+

lemma record_stream_once:
  assumes "stored_stream E st" and clock: "clock_set E"
    and "record_stream E st resp callErr w = (err, w')"
    and "callErr = None \<Longrightarrow> resp = Some r \<and> usage_nonneg r"
  shows "\<exists>row e0. emitted w [EvInsertLlm (without_cancel (as_ctx st)) row e0] w' \<and>
    recorded_call (env_url_parse E) (as_metadata st) resp (callErr = None) row \<and>
    (err = None \<longleftrightarrow> callErr = None \<and> e0 = None)"
proof -
  have sv: "sv_now (as_service st) = now E" using assms(1) by (simp add: stored_stream_def)
  have run: "recordOutcome E (as_service st) (LlmCallRepository_Create E (Some open_repository)) (as_ctx st)
      (as_metadata st) (as_started st) resp callErr w = (err, w')"
    using assms(1,3) by (simp add: record_stream_def stored_stream_def)
  obtain t1 w1 e where x: "now E w = (t1, w1)" "emitted w [] w1"
    "LlmCallRepository_Create E (Some open_repository) (Some (without_cancel (as_ctx st)))
       (Some (llm_row (as_metadata st) resp callErr (safeWrap (env_url_parse E) ''provider call failed'' callErr)
         (elapsed_ms (as_started st) t1) t1)) w1 = (e, w')"
    "err = None \<longleftrightarrow> callErr = None \<and> e = None"
    by (rule call_records.recordOutcome_events [OF sv run]) blast
  have z: "\<not> is_zero t1" using now_not_zero [OF clock x(1)] .
  have "validateLlmCall (Some (llm_row (as_metadata st) resp callErr
      (safeWrap (env_url_parse E) ''provider call failed'' callErr) (elapsed_ms (as_started st) t1) t1)) = None"
    by (rule llm_row_valid) (use assms(1,4) z in \<open>auto simp: stored_stream_def usage_nonneg_def\<close>)
  then obtain e0 where "emitted w1 [EvInsertLlm (without_cancel (as_ctx st)) (llm_row (as_metadata st) resp callErr
      (safeWrap (env_url_parse E) ''provider call failed'' callErr) (elapsed_ms (as_started st) t1) t1) e0] w'"
    "e = None \<longleftrightarrow> e0 = None"
    using llm_rows.create_accepted [OF _ x(3)] by blast
  moreover from emitted_trans [OF x(2) this(1)] have "emitted w [EvInsertLlm (without_cancel (as_ctx st))
      (llm_row (as_metadata st) resp callErr (safeWrap (env_url_parse E) ''provider call failed'' callErr)
        (elapsed_ms (as_started st) t1) t1) e0] w'" by simp
  ultimately show ?thesis using x(4) llm_row_recorded by blast
qed

text \<open>The inserts between two worlds.\<close>

definition inserts :: "nat \<Rightarrow> 'x wld \<Rightarrow> 'x wld \<Rightarrow> bool" where
  "inserts n w w' \<longleftrightarrow> (\<exists>es. emitted w es w' \<and> count is_llm_insert es = n)"

lemma inserts_refl [simp]: "inserts 0 w w"
  unfolding inserts_def by (intro exI [of _ "[]"]) simp

lemma inserts_trans: "inserts m w w' \<Longrightarrow> inserts n w' w'' \<Longrightarrow> inserts (m + n) w w''"
  unfolding inserts_def by (metis emitted_trans count_simps(3))

lemma inserts_stream: "only is_stream_event w w' \<Longrightarrow> inserts 0 w w'"
proof -
  assume "only is_stream_event w w'"
  then obtain es where es: "emitted w es w'" "list_all is_stream_event es" by (auto simp: only_def)
  have "is_stream_event e \<Longrightarrow> \<not> is_llm_insert e" for e by (cases e) auto
  with es show ?thesis by (auto simp: inserts_def count_zero list_all_iff)
qed

lemma inserts_one: "emitted w [EvInsertLlm cx row e] w' \<Longrightarrow> inserts 1 w w'"
  unfolding inserts_def by force

lemma inserts_count: "inserts n w w' \<Longrightarrow> emitted w es w' \<Longrightarrow> count is_llm_insert es = n"
  unfolding inserts_def using emitted_unique by blast

lemma stored_same:
  "stored_stream E st \<Longrightarrow> same_call st st' \<Longrightarrow> (as_caller_closed st' \<Longrightarrow> as_terminal st') \<Longrightarrow> stored_stream E st'"
  by (simp add: stored_stream_def same_call_def)

text \<open>The first step to the terminal state makes the one insert, and no other step makes any.\<close>

definition audit_step :: "'x env \<Rightarrow> ('m, 's, 'x) audited \<Rightarrow> 'x wld \<Rightarrow> ('m, 's, 'x) audited \<Rightarrow> 'x wld \<Rightarrow> bool" where
  "audit_step E st w st' w' \<longleftrightarrow>
     inserts (if as_terminal st' \<and> \<not> as_terminal st then 1 else 0) w w' \<and>
     (as_terminal st \<longrightarrow> as_terminal st') \<and> (as_caller_closed st \<longrightarrow> as_caller_closed st') \<and> stored_stream E st'"

lemma audit_step_trans:
  assumes "audit_step E st w st1 w1" "audit_step E st1 w1 st2 w2"
  shows "audit_step E st w st2 w2"
proof -
  have t: "as_terminal st \<longrightarrow> as_terminal st1" "as_terminal st1 \<longrightarrow> as_terminal st2"
    using assms by (simp_all add: audit_step_def)
  have "inserts ((if as_terminal st1 \<and> \<not> as_terminal st then 1 else 0)
      + (if as_terminal st2 \<and> \<not> as_terminal st1 then 1 else 0)) w w2"
    by (rule inserts_trans [OF conjunct1 [OF assms(1) [unfolded audit_step_def]]
          conjunct1 [OF assms(2) [unfolded audit_step_def]]])
  moreover have "(if as_terminal st1 \<and> \<not> as_terminal st then 1 else 0)
      + (if as_terminal st2 \<and> \<not> as_terminal st1 then 1 else 0) = (if as_terminal st2 \<and> \<not> as_terminal st then 1 else (0::nat))"
    using t by (cases "as_terminal st"; cases "as_terminal st1"; cases "as_terminal st2") simp_all
  ultimately have "inserts (if as_terminal st2 \<and> \<not> as_terminal st then 1 else 0) w w2" by (simp only:)
  then show ?thesis using assms unfolding audit_step_def by blast
qed

context upstream_port
begin

lemma fail_stream_step:
  assumes st: "stored_stream E st" "\<not> as_terminal st" and clock: "clock_set E"
    and run: "fail_stream E M cause st w = ((ev, e), st', w')"
  shows "audit_step E st w st' w' \<and> as_terminal st' \<and> as_upstream_closed st' \<and> e \<noteq> None"
proof -
  obtain ce st1 w1 where c: "closeUpstream M (st\<lparr>as_terminal := True\<rparr>) w = (ce, st1, w1)" by (metis prod_cases3)
  obtain oe w2 where r: "record_stream E st1 None (Some cause) w1 = (oe, w2)" by fastforce
  note cu = closeUpstream_events [OF c]
  have s1: "stored_stream E st1" by (rule stored_same [OF st(1)]) (use cu in auto)
  obtain row e0 where one: "emitted w1 [EvInsertLlm (without_cancel (as_ctx st1)) row e0] w2" "oe \<noteq> None"
    using record_stream_once [OF s1 clock r] by auto
  have "inserts (0 + 1) w w2"
    using inserts_trans [OF inserts_stream [OF cu(1)] inserts_one [OF one(1)]] .
  moreover have "st' = st1" "w' = w2" "e = joinStreamErrors (env_url_parse E) ce oe"
    using run by (simp_all add: fail_stream_def c r)
  ultimately show ?thesis
    using s1 cu st one(2) by (auto simp: audit_step_def joinStreamErrors_def stored_stream_def split: option.splits)
qed

lemma Recv_step:
  assumes st: "stored_stream E st" and clock: "clock_set E"
    and usage: "counted_responses M"
    and run: "Recv_audited E M st w = ((ev, e), st', w')"
  shows "audit_step E st w st' w' \<and> as_caller_closed st' = as_caller_closed st \<and>
    (as_terminal st \<longrightarrow> st' = st \<and> w' = w \<and> e \<noteq> None) \<and>
    (e = None \<longrightarrow> se_kind ev = StreamEventCompleted \<longrightarrow> delivered E w w' ev)"
proof (cases "as_terminal st")
  case True
  then show ?thesis using run st by (auto simp: Recv_audited_def audit_step_def split: if_splits)
next
  case False
  then have open_st: "\<not> as_caller_closed st" using st by (auto simp: stored_stream_def)
  obtain ev0 re s1 w1 where rc: "mo_recv M (as_stream st) w = ((ev0, re), s1, w1)" by (metis prod.collapse)
  let ?st = "st\<lparr>as_stream := s1\<rparr>"
  have s1: "stored_stream E ?st" "\<not> as_terminal ?st" using st False by (simp_all add: stored_stream_def)
  have w1: "inserts 0 w w1" using inserts_stream recv_events rc by blast
  then have pre: "audit_step E st w ?st w1" using s1 False by (simp add: audit_step_def)
  have failed: ?thesis if f: "fail_stream E M cause ?st w1 = ((ev, e), st', w')" for cause
  proof -
    have "audit_step E ?st w1 st' w' \<and> as_terminal st' \<and> as_upstream_closed st' \<and> e \<noteq> None"
      by (rule fail_stream_step [OF s1 clock f])
    moreover have "as_caller_closed st' = as_caller_closed st"
      using f closeUpstream_events(5) by (fastforce simp: fail_stream_def Let_def split: prod.splits)
    ultimately show ?thesis using audit_step_trans [OF pre] False by blast
  qed
  have kinds: "StreamEventCompleted \<noteq> StreamEventDelta"
    by (simp add: StreamEventCompleted_def StreamEventDelta_def)
  show ?thesis
  proof (cases "re = None \<and> (se_kind ev0 = StreamEventDelta \<and> se_response ev0 = None \<or>
      se_kind ev0 = StreamEventCompleted \<and> se_response ev0 \<noteq> None)")
    case bad: False
    then have "\<exists>cause. fail_stream E M cause ?st w1 = ((ev, e), st', w')"
      using run False open_st
      by (auto simp: Recv_audited_def rc Let_def split: option.splits if_splits)
    then show ?thesis using failed by blast
  next
    case True
    then consider (delta) "re = None" "se_kind ev0 = StreamEventDelta" "se_response ev0 = None"
      | (completed) r where "re = None" "se_kind ev0 = StreamEventCompleted" "se_response ev0 = Some r"
      by (cases "se_response ev0") auto
    then show ?thesis
    proof cases
      case delta
      then have "ev = ev0" "e = None" "st' = ?st" "w' = w1"
        using run False open_st by (simp_all add: Recv_audited_def rc)
      then show ?thesis using pre False delta kinds by simp
    next
      case (completed r)
      obtain ce st1 w2 where c: "closeUpstream M (?st\<lparr>as_terminal := True\<rparr>) w1 = (ce, st1, w2)" by (metis prod_cases3)
      obtain oe w3 where r: "record_stream E st1 (Some r) None w2 = (oe, w3)" by fastforce
      note cu = closeUpstream_events [OF c]
      have s2: "stored_stream E st1" by (rule stored_same [OF s1(1)]) (use cu in auto)
      have "usage_nonneg r" using usage rc completed(1,3) unfolding counted_responses_def by blast
      then obtain row e0 where one: "emitted w2 [EvInsertLlm (without_cancel (as_ctx st1)) row e0] w3"
          "recorded_call (env_url_parse E) (as_metadata st1) (Some r) True row" "oe = None \<longleftrightarrow> e0 = None"
        using record_stream_once [OF s2 clock r, of r] by auto
      have out: "st' = st1" "w' = w3" "e = oe" "oe = None \<Longrightarrow> ev = ev0"
        using run False open_st completed kinds by (auto simp: Recv_audited_def rc c r Let_def split: option.splits)
      have "inserts (0 + (0 + 1)) w w3"
        using inserts_trans [OF w1 inserts_trans [OF inserts_stream [OF cu(1)] inserts_one [OF one(1)]]] .
      then have step: "audit_step E st w st' w'"
        using s2 cu False open_st by (simp add: audit_step_def out)
      obtain es1 where "emitted w es1 w2" using w1 cu(1) emitted_trans by (fastforce simp: inserts_def only_def)
      then have all: "emitted w (es1 @ [EvInsertLlm (without_cancel (as_ctx st1)) row e0]) w3"
        using emitted_trans one(1) by blast
      have same: "as_ctx st1 = as_ctx st" "as_metadata st1 = as_metadata st" using cu(3) by (simp_all add: same_call_def)
      have audited: "delivered E w w' ev" if "e = None"
        unfolding delivered_def
      proof (intro exI conjI)
        show "emitted w (es1 @ [EvInsertLlm (without_cancel (as_ctx st1)) row e0]) w'" using all out by simp
        show "EvInsertLlm (without_cancel (as_ctx st)) row None \<in> set (es1 @ [EvInsertLlm (without_cancel (as_ctx st1)) row e0])"
          using that one(3) out(3) same by simp
        show "recorded_call (env_url_parse E) (as_metadata st) (Some r) True row" using one(2) same by simp
      qed (use that out completed in simp)
      show ?thesis using step cu(5) False audited out(1) by simp
    qed
  qed
qed

lemma Close_step:
  assumes st: "stored_stream E st" and clock: "clock_set E"
    and run: "Close_audited E M st w = (e, st', w')"
  shows "audit_step E st w st' w' \<and> as_caller_closed st' \<and> as_terminal st' \<and> e = as_close_result st' \<and>
    (as_caller_closed st \<longrightarrow> st' = st \<and> w' = w)"
proof (cases "as_caller_closed st")
  case True
  then show ?thesis using run st by (auto simp: Close_audited_def audit_step_def stored_stream_def)
next
  case False
  obtain ce st1 w1 where c: "closeUpstream M (st\<lparr>as_caller_closed := True\<rparr>) w = (ce, st1, w1)" by (metis prod_cases3)
  note cu = closeUpstream_events [OF c]
  show ?thesis
  proof (cases "as_terminal st")
    case True
    then have "(ce, st1\<lparr>as_close_result := ce\<rparr>, w1) = (e, st', w')"
      using run False cu(4) by (auto simp: Close_audited_def c)
    then have "e = ce" "st' = st1\<lparr>as_close_result := ce\<rparr>" "w' = w1" by blast+
    moreover have "stored_stream E (st1\<lparr>as_close_result := ce\<rparr>)"
      by (rule stored_same [OF st]) (use cu True in auto)
    ultimately show ?thesis using cu True False inserts_stream by (simp add: audit_step_def)
  next
    case nt: False
    let ?cause = "Errorf ''provider stream closed before completion''"
    obtain te w2 where r: "record_stream E st1 None (Some ?cause) w1 = (te, w2)" by fastforce
    have "record_stream E (st1\<lparr>as_caller_closed := False\<rparr>) None (Some ?cause) w1 = (te, w2)"
      using r by (simp add: record_stream_def)
    moreover have "stored_stream E (st1\<lparr>as_caller_closed := False\<rparr>)"
      by (rule stored_same [OF st]) (use cu in auto)
    ultimately obtain row e0 where one: "emitted w1 [EvInsertLlm (without_cancel (as_ctx st1)) row e0] w2"
      using record_stream_once [OF _ clock] by fastforce
    have out: "w' = w2" "e = as_close_result st'" "as_terminal st'" "as_caller_closed st'" "same_call st1 st'"
      using run False nt cu by (auto simp: Close_audited_def c r Let_def)
    moreover have "inserts (0 + 1) w w2"
      using inserts_trans [OF inserts_stream [OF cu(1)] inserts_one [OF one]] .
    moreover have "stored_stream E st'"
      by (rule stored_same [OF st]) (use cu(3) out in \<open>auto simp: same_call_def\<close>)
    ultimately show ?thesis using nt False by (simp add: audit_step_def)
  qed
qed

end

context upstream_port
begin

lemma audited_call_step:
  assumes st: "stored_stream E st" and clock: "clock_set E" and usage: "counted_responses M"
    and run: "audited_call E M c st w = (r, st', w')"
  shows "audit_step E st w st' w' \<and> (c = CallClose \<longrightarrow> as_terminal st') \<and>
    (\<forall>ev. r = Received ev None \<longrightarrow> se_kind ev = StreamEventCompleted \<longrightarrow> delivered E w w' ev)"
proof (cases c)
  case CallRecv
  obtain ev0 e where rc: "Recv_audited E M st w = ((ev0, e), st', w')" "r = Received ev0 e"
    using run CallRecv by (auto split: prod.splits)
  from Recv_step [OF st clock usage rc(1)] rc(2) CallRecv show ?thesis by simp
next
  case CallClose
  obtain e where cl: "Close_audited E M st w = (e, st', w')" "r = ClosedWith e"
    using run CallClose by (auto split: prod.splits)
  from Close_step [OF st clock cl(1)] cl(2) CallClose show ?thesis by simp
qed

lemma audited_calls_run:
  assumes "stored_stream E st" and clock: "clock_set E" and usage: "counted_responses M"
    and "audited_calls E M calls st w = (rs, st', w')"
  shows "audit_step E st w st' w' \<and> (CallClose \<in> set calls \<longrightarrow> as_terminal st') \<and>
    (\<forall>ev. Received ev None \<in> set rs \<longrightarrow> se_kind ev = StreamEventCompleted \<longrightarrow> delivered E w w' ev)"
  using assms(1,4)
proof (induction calls arbitrary: st w rs)
  case Nil
  then show ?case by (simp add: audit_step_def)
next
  case (Cons c cs)
  obtain r st1 w1 where one: "audited_call E M c st w = (r, st1, w1)" by (metis prod_cases3)
  obtain rs' where rest: "audited_calls E M cs st1 w1 = (rs', st', w')" "rs = r # rs'"
    using Cons.prems(2) one by (auto split: prod.splits)
  note step = audited_call_step [OF Cons.prems(1) clock usage one]
  have st1: "stored_stream E st1" using step by (simp add: audit_step_def)
  note IH = Cons.IH [OF st1 rest(1)]
  obtain es1 where es1: "emitted w es1 w1" using step unfolding audit_step_def inserts_def by blast
  obtain es2 where es2: "emitted w1 es2 w'" using IH unfolding audit_step_def inserts_def by blast
  have "as_terminal st1 \<longrightarrow> as_terminal st'" using IH by (simp add: audit_step_def)
  then show ?case
    using audit_step_trans step IH rest(2) delivered_trans(1) [OF _ es2] delivered_trans(2) [OF es1] by auto
qed

end

text \<open>The library counts tokens, and counts are not negative.\<close>

definition counts_tokens :: "('c, 'r, 'j, 'x) eino \<Rightarrow> bool" where
  "counts_tokens L \<longleftrightarrow> (\<forall>cs m meta u. ei_concat L cs = Inr (Some m) \<longrightarrow> em_meta m = Some meta \<longrightarrow> rm_usage meta = Some u \<longrightarrow>
     0 \<le> u_prompt u \<and> 0 \<le> u_completion u \<and> 0 \<le> u_total u)"

lemma eino_usage:
  assumes "counts_tokens L"
  shows "counted_responses (eino_ops L)"
  unfolding counted_responses_def
proof (intro allI impI)
  fix s w ev s' w' r
  assume run: "mo_recv (eino_ops L) s w = ((ev, None), s', w')" "se_response ev = Some r"
  obtain cs message where m: "ei_concat L cs = Inr message" "fromEinoResponse L message = Inr r"
    using run
    by (auto simp: Recv_def Let_def finish_with_def split: if_splits prod.splits option.splits sum.splits)
  then show "usage_nonneg r" using assms
    by (cases message; cases "fromEinoMessage L message")
       (auto simp: fromEinoResponse_def counts_tokens_def usage_nonneg_def empty_response_def Let_def split: option.splits)
qed

text \<open>
  C6.  A stream is audited exactly once.  However its user mixes \<open>Recv\<close> and \<open>Close\<close>, from a fresh
  stream on there is one inserted call row when the stream has reached its end and none before; closing
  always brings it to its end; and a completed response is only ever delivered after a row that says
  success, with that response's token counts, was inserted without an error.
\<close>

theorem stream_audited_once:
  assumes "audited_calls E (eino_ops L) calls st w = (rs, st', w')" "emitted w es w'"
    and "stored_stream E st" "\<not> as_terminal st" "clock_set E" "counts_tokens L"
  shows "count is_llm_insert es = (if as_terminal st' then 1 else 0) \<and>
    (CallClose \<in> set calls \<longrightarrow> as_terminal st') \<and>
    (\<forall>ev. Received ev None \<in> set rs \<longrightarrow> se_kind ev = StreamEventCompleted \<longrightarrow>
      (\<exists>cx row md r. EvInsertLlm cx row None \<in> set es \<and> se_response ev = Some r \<and>
         recorded_call (env_url_parse E) md (Some r) True row))"
proof -
  note run = eino_upstream.audited_calls_run [OF assms(3,5) eino_usage [OF assms(6)] assms(1)]
  have "count is_llm_insert es = (if as_terminal st' then 1 else 0)"
    using run assms(4) inserts_count [OF _ assms(2)] by (auto simp: audit_step_def)
  moreover have "\<exists>cx row md r. EvInsertLlm cx row None \<in> set es \<and> se_response ev = Some r \<and>
      recorded_call (env_url_parse E) md (Some r) True row"
    if "Received ev None \<in> set rs" "se_kind ev = StreamEventCompleted" for ev
  proof -
    have "delivered E w w' ev" using run that by blast
    then show ?thesis unfolding delivered_def using emitted_unique [OF assms(2)] by blast
  qed
  ultimately show ?thesis using run by blast
qed

section \<open>The audit of a synchronous call\<close>

text \<open>Between the two worlds of an outcome there is at most the insert of its row.\<close>

lemma recordOutcome_insert:
  assumes "sv_now sv = now E"
    and "recordOutcome E sv (LlmCallRepository_Create E (Some open_repository)) cx md t0 resp callErr w = (err, w')"
  shows "(\<exists>row e0. emitted w [EvInsertLlm (without_cancel cx) row e0] w' \<and>
      recorded_call (env_url_parse E) md resp (callErr = None) row \<and> (err = None \<longleftrightarrow> callErr = None \<and> e0 = None)) \<or>
    emitted w [] w' \<and> err \<noteq> None"
proof -
  obtain t1 w1 e where x: "emitted w [] w1"
    "LlmCallRepository_Create E (Some open_repository) (Some (without_cancel cx))
       (Some (llm_row md resp callErr (safeWrap (env_url_parse E) ''provider call failed'' callErr)
         (elapsed_ms t0 t1) t1)) w1 = (e, w')"
    "err = None \<longleftrightarrow> callErr = None \<and> e = None"
    by (rule call_records.recordOutcome_events [OF assms]) blast
  show ?thesis using x(2)
  proof (cases rule: llm_rows.create_emits)
    case 1
    have "emitted w [] w'" using emitted_trans [OF x(1) 1(2)] by simp
    moreover have "err \<noteq> None" using x(3) 1(1) by simp
    ultimately show ?thesis by blast
  next
    case (2 e0)
    let ?row = "llm_row md resp callErr (safeWrap (env_url_parse E) ''provider call failed'' callErr) (elapsed_ms t0 t1) t1"
    have "emitted w [EvInsertLlm (without_cancel cx) ?row e0] w'"
      using emitted_trans [OF x(1) 2(2)] by (simp only: append_Nil option.sel)
    moreover have "err = None \<longleftrightarrow> callErr = None \<and> e0 = None" using x(3) 2(3) by simp
    ultimately show ?thesis using llm_row_recorded by blast
  qed
qed

lemma schema_reads_no_call:
  "list_all is_schema_read es \<Longrightarrow> count is_model_call es = 0 \<and> count is_llm_insert es = 0"
proof -
  have "is_schema_read e \<Longrightarrow> \<not> is_model_call e \<and> \<not> is_llm_insert e" for e by (cases e) auto
  then show "list_all is_schema_read es \<Longrightarrow> count is_model_call es = 0 \<and> count is_llm_insert es = 0"
    by (auto simp: count_zero list_all_iff)
qed

lemma Chat_run:
  assumes run: "Chat E (eino_ops L) (Some (store_service E registry (Some (Resolve src)))) (Some cx) sid (Some p) messages w
      = ((resp, err), w')"
  shows "\<exists>reads calls rows. emitted w (reads @ calls @ rows) w' \<and> list_all is_schema_read reads \<and>
    length calls \<le> 1 \<and> list_all is_model_call calls \<and> length rows \<le> 1 \<and> list_all is_llm_insert rows \<and>
    (err = None \<longrightarrow> (\<exists>ds row. calls = [EvGenerate cx \<lparr>rq_messages = messages, rq_tools = ds\<rparr>] \<and>
       rows = [EvInsertLlm (without_cancel cx) row None] \<and>
       recorded_call (env_url_parse E) (callMetadataFrom sid p) (Some resp) True row)) \<and>
    ((\<exists>e. err = Some (AuditPersistence e)) \<longrightarrow> length calls = 1 \<and> (\<forall>cx' row. EvInsertLlm cx' row None \<notin> set rows)) \<and>
    (err \<noteq> None \<longrightarrow> (\<nexists>e. err = Some (AuditPersistence e)) \<longrightarrow> resp = empty_response)"
proof -
  let ?sv = "store_service E registry (Some (Resolve src))"
  obtain pr w1 where pr: "prepareCall E (Some ?sv) (Some cx) sid (Some p) ''provider chat'' w = (pr, w1)" by fastforce
  obtain reads where reads: "emitted w reads w1" "list_all is_schema_read reads"
    using prepareCall_reads [OF _ pr] by (auto simp: only_def)
  show ?thesis
  proof (cases pr)
    case (Inl e)
    have "e \<noteq> AuditPersistence e'" for e'
      using pr Inl by (auto simp: prepareCall_def Let_def safeWrap_def split: option.splits if_splits prod.splits)
    moreover have "resp = empty_response" "err = Some e" "w' = w1" using run pr Inl by (simp_all add: Chat_def)
    ultimately show ?thesis using reads by (intro exI [of _ reads] exI [of _ "[]"]) simp
  next
    case (Inr x)
    obtain sv rec cx' p' m ds where x: "x = (sv, rec, cx', p', m, ds)" by (metis prod_cases6)
    note ready = prepareCall_ready [OF pr [unfolded Inr x]]
    have eqs: "sv = ?sv" "rec = LlmCallRepository_Create E (Some open_repository)" "cx' = cx" "p' = p"
      using ready by simp_all
    obtain t0 w2 where c: "now E w1 = (t0, w2)" by fastforce
    let ?rq = "\<lparr>rq_messages = messages, rq_tools = ds\<rparr>"
    obtain r ce w3 where g: "Generate L (Some m) (Some cx) ?rq w2 = ((r, ce), w3)" by (metis prod.collapse)
    obtain oe w4 where o: "recordOutcome E ?sv (LlmCallRepository_Create E (Some open_repository)) cx
        (callMetadataFrom sid p) t0 (Some r) ce w3 = (oe, w4)" by fastforce
    have out: "w' = w4" "err = (case oe of None \<Rightarrow> None | Some oe \<Rightarrow> if ce = None then Some (AuditPersistence oe) else Some oe)"
        "resp = (if oe = None \<or> ce = None then r else empty_response)"
      using run pr Inr x eqs c g o by (auto simp: Chat_def split: option.splits if_splits)
    obtain calls where calls: "emitted w2 calls w3" "calls = [EvGenerate cx ?rq] \<or> calls = [] \<and> ce \<noteq> None"
      using eino_model.generate_events [OF g] by blast
    obtain rows where rows: "emitted w3 rows w4" "length rows \<le> 1" "list_all is_llm_insert rows"
        "oe = None \<longrightarrow> ce = None \<and> (\<exists>row. rows = [EvInsertLlm (without_cancel cx) row None] \<and>
           recorded_call (env_url_parse E) (callMetadataFrom sid p) (Some r) True row)"
        "ce = None \<and> oe \<noteq> None \<longrightarrow> (\<forall>cx' row. EvInsertLlm cx' row None \<notin> set rows)"
    proof -
      from recordOutcome_insert [OF _ o] consider
          row e0 where "emitted w3 [EvInsertLlm (without_cancel cx) row e0] w4"
            "recorded_call (env_url_parse E) (callMetadataFrom sid p) (Some r) (ce = None) row"
            "oe = None \<longleftrightarrow> ce = None \<and> e0 = None"
        | "emitted w3 [] w4" "oe \<noteq> None" by auto
      then show thesis
      proof cases
        case (1 row e0)
        then show ?thesis by (intro that [OF 1(1)]) auto
      next
        case 2
        then show ?thesis by (intro that [OF 2(1)]) auto
      qed
    qed
    have not_audit: "oe \<noteq> Some (AuditPersistence e)" if "ce \<noteq> None" for e
      using o that by (auto simp: recordOutcome_def safeWrap_def Let_def split: prod.splits option.splits)
    have "emitted w (reads @ calls @ rows) w'"
      using emitted_trans [OF reads(1) emitted_trans [OF emitted_now [OF c] emitted_trans [OF calls(1) rows(1)]]] out(1)
      by simp
    then show ?thesis
      using reads(2) calls(2) rows(2-5) out(2,3) not_audit
      by (intro exI [of _ reads] exI [of _ calls] exI [of _ rows]) (auto split: option.splits if_splits)
  qed
qed

text \<open>
  C5.  A synchronous call is audited.  It reads Tool metadata, then calls the model at most once, then
  inserts at most one row.  Success means that the model was called with the messages and the definitions,
  and that the row that says so, with the response's token counts, was inserted; a persistence error means
  that the model had answered but no row says so; and any other error hides the response.
\<close>

theorem Chat_audited:
  assumes run: "Chat E (eino_ops L) (Some (store_service E registry (Some (Resolve src)))) (Some cx) sid (Some p) messages w
      = ((resp, err), w')"
  shows "\<exists>reads calls rows. emitted w (reads @ calls @ rows) w' \<and> list_all is_schema_read reads \<and>
    length calls \<le> 1 \<and> list_all is_model_call calls \<and> length rows \<le> 1 \<and> list_all is_llm_insert rows \<and>
    (err = None \<longrightarrow> (\<exists>ds row. calls = [EvGenerate cx \<lparr>rq_messages = messages, rq_tools = ds\<rparr>] \<and>
       rows = [EvInsertLlm (without_cancel cx) row None] \<and>
       recorded_call (env_url_parse E) (callMetadataFrom sid p) (Some resp) True row)) \<and>
    ((\<exists>e. err = Some (AuditPersistence e)) \<longrightarrow> length calls = 1 \<and> (\<forall>cx' row. EvInsertLlm cx' row None \<notin> set rows)) \<and>
    (err \<noteq> None \<longrightarrow> (\<nexists>e. err = Some (AuditPersistence e)) \<longrightarrow> resp = empty_response)"
  by (rule Chat_run [OF run])

section \<open>Examples\<close>

lemma demo_counts_tokens: "counts_tokens demo_eino"
  by (simp add: counts_tokens_def demo_eino_def demo_answer_def)

definition demo_models :: "(unit adapter, nat wld) registry" where
  "demo_models = \<lparr>rg_factories = [], rg_models = [(''main'', \<lparr>ea_connector = Some ()\<rparr>)]\<rparr>"

definition demo_source :: "nat source" where
  "demo_source cx name x = ((\<lparr>td_name = name, td_description = [], td_schema = ''{}'', td_extra = None\<rparr>, True), x)"

definition demo_service :: "(unit adapter, nat) service" where
  "demo_service = store_service demo_env demo_models (Some (Resolve demo_source))"

definition demo_audited :: "(unit adapter, unit eino_stream, nat) audited" where
  "demo_audited = \<lparr>as_stream = \<lparr>es_reader = (), es_chunks = [], es_done = False, es_closed = False,
       es_reader_closed = False\<rparr>, as_service = demo_service,
     as_recorder = LlmCallRepository_Create demo_env (Some open_repository), as_ctx = demo_ctx,
     as_metadata = callMetadataFrom ''s1'' demo_profile, as_started = \<lparr>t_ns = 1, t_zone = 0\<rparr>,
     as_terminal = False, as_caller_closed = False, as_upstream_closed = False,
     as_upstream_err = None, as_close_result = None\<rparr>"

lemma demo_audited_stored: "stored_stream demo_env demo_audited" "\<not> as_terminal demo_audited"
  by (simp_all add: stored_stream_def demo_audited_def demo_service_def callMetadataFrom_def not_blank_demo not_blank_names)

theorem stream_audited_once_witness:
  "\<exists>rs st' w' es. audited_calls demo_env (eino_ops demo_eino) [CallRecv, CallRecv, CallClose] demo_audited demo_world
     = (rs, st', w') \<and> emitted demo_world es w' \<and> count is_llm_insert es = 1"
proof -
  obtain rs st' w' where run: "audited_calls demo_env (eino_ops demo_eino) [CallRecv, CallRecv, CallClose]
      demo_audited demo_world = (rs, st', w')" by (metis prod_cases3)
  have es: "emitted demo_world (w_trace w') w'" by (simp add: emitted_demo)
  from stream_audited_once [OF run es demo_audited_stored demo_clock_set demo_counts_tokens] run es
  show ?thesis by auto
qed

theorem Chat_audited_witness:
  "\<exists>resp err w' reads calls rows. Chat demo_env (eino_ops demo_eino) (Some (store_service demo_env demo_models
       (Some (Resolve demo_source)))) (Some demo_ctx) ''s1'' (Some demo_profile) [text_message RoleUser ''hi''] demo_world
     = ((resp, err), w') \<and> emitted demo_world (reads @ calls @ rows) w' \<and> length calls \<le> 1 \<and> length rows \<le> 1"
proof -
  obtain resp err w' where run: "Chat demo_env (eino_ops demo_eino) (Some (store_service demo_env demo_models
      (Some (Resolve demo_source)))) (Some demo_ctx) ''s1'' (Some demo_profile) [text_message RoleUser ''hi''] demo_world
      = ((resp, err), w')" by (metis prod.collapse)
  from Chat_audited [OF run] run show ?thesis by blast
qed

end
