(* ===== verification/React_Loop.thy ===== *)
theory React_Loop
  imports Prompt_Builder Tool_Executor Provider_Stream
begin

text \<open>
  internal/runtime/react_loop.go: one user message, then at most as many rounds of model call and Tool
  calls as the Profile allows.  The three collaborators are interfaces, here functions.
\<close>

section \<open>The loop\<close>

type_synonym 'x chat_service =
  "goctx \<Rightarrow> string \<Rightarrow> profile \<Rightarrow> message list \<Rightarrow> 'x wld \<Rightarrow> (response \<times> gerror option) \<times> 'x wld"
type_synonym 'x tool_executor =
  "goctx \<Rightarrow> string \<Rightarrow> string list \<Rightarrow> tool_call \<Rightarrow> 'x wld \<Rightarrow> (string \<times> gerror option) \<times> 'x wld"
type_synonym 'x prompt_source =
  "goctx \<Rightarrow> session \<Rightarrow> profile \<Rightarrow> string \<Rightarrow> 'x wld \<Rightarrow> (gerror + message list) \<times> 'x wld"

record 'x react_loop =
  rl_chat :: "'x chat_service option"
  rl_executor :: "'x tool_executor option"
  rl_prompts :: "'x prompt_source option"

definition NewReActLoop ::
  "'x chat_service option \<Rightarrow> 'x tool_executor option \<Rightarrow> 'x prompt_source option \<Rightarrow> gerror + 'x react_loop" where
  "NewReActLoop chat executor prompts =
     (if chat = None then Inl (Errorf ''create react loop: chat service is nil'')
      else if executor = None then Inl (Errorf ''create react loop: tool executor is nil'')
      else if prompts = None then Inl (Errorf ''create react loop: prompt builder is nil'')
      else Inr \<lparr>rl_chat = chat, rl_executor = executor, rl_prompts = prompts\<rparr>)"

definition modelResponseAvailable :: "gerror \<Rightarrow> bool" where
  "modelResponseAvailable err \<longleftrightarrow> as_response_available err = Some True"

text \<open>Appending through a session pointer that is not nil.\<close>

definition append_message :: "message \<Rightarrow> session \<Rightarrow> session" where
  "append_message m s = the (Session_Append m (Some s))"

lemma append_message_fields [simp]:
  "s_id (append_message m s) = s_id s" "s_messages (append_message m s) = s_messages s @ [m]"
  by (simp_all add: append_message_def Session_Append_def)

definition tool_message :: "tool_call \<Rightarrow> string \<Rightarrow> message" where
  "tool_message c result = (text_message RoleTool result)
     \<lparr>m_tool_call_id := tc_id c, m_tool_name := fc_name (tc_function c)\<rparr>"

text \<open>The Tool calls of one response, in order, up to the first that fails.\<close>

fun run_calls ::
  "'x tool_executor \<Rightarrow> goctx \<Rightarrow> profile \<Rightarrow> tool_call list \<Rightarrow> session \<Rightarrow> 'x wld \<Rightarrow> gerror option \<times> session \<times> 'x wld" where
  "run_calls executor cx p [] s w = (None, s, w)"
| "run_calls executor cx p (c # cs) s w =
     (let ((result, executeErr), w1) = executor cx (s_id s) (p_tools p) c w;
          s1 = append_message (tool_message c result) s
      in case executeErr of
           Some e \<Rightarrow> (Some e, s1, w1)
         | None \<Rightarrow> run_calls executor cx p cs s1 w1)"

text \<open>The iterations that are left.\<close>

primrec iterations ::
  "nat \<Rightarrow> 'x env \<Rightarrow> 'x chat_service \<Rightarrow> 'x tool_executor \<Rightarrow> 'x prompt_source \<Rightarrow> goctx \<Rightarrow> profile \<Rightarrow> string \<Rightarrow> session \<Rightarrow>
   'x wld \<Rightarrow> (string \<times> gerror option) \<times> session \<times> 'x wld" where
  "iterations 0 E chat executor prompts cx p userMessage s w = (([], Some (Sentinel ErrMaxIterations)), s, w)"
| "iterations (Suc n) E chat executor prompts cx p userMessage s w =
     (let (ended, w1) = ctx_err E cx w in
      case ended of
        Some e \<Rightarrow> (([], Some e), s, w1)
      | None \<Rightarrow>
          (let (built, w2) = prompts cx s p userMessage w1 in
           case built of
             Inl e \<Rightarrow> (([], Some (Wrapf ''build prompt: '' e)), s, w2)
           | Inr messages \<Rightarrow>
               (let ((response, chatErr), w3) = chat cx (s_id s) p messages w2 in
                case chatErr of
                  Some e \<Rightarrow>
                    (([], Some e),
                     (if modelResponseAvailable e then append_message (rs_message response) s else s), w3)
                | None \<Rightarrow>
                    (let s1 = append_message (rs_message response) s in
                     if m_tool_calls (rs_message response) = []
                     then ((m_content (rs_message response), None), s1, w3)
                     else
                       (let (callErr, s2, w4) = run_calls executor cx p (m_tool_calls (rs_message response)) s1 w3 in
                        case callErr of
                          Some e \<Rightarrow> (([], Some e), s2, w4)
                        | None \<Rightarrow> iterations n E chat executor prompts cx p userMessage s2 w4)))))"

definition Run ::
  "'x env \<Rightarrow> 'x react_loop option \<Rightarrow> goctx option \<Rightarrow> session option \<Rightarrow> string \<Rightarrow> profile option \<Rightarrow> 'x wld
     \<Rightarrow> (string \<times> gerror option) \<times> session option \<times> 'x wld" where
  "Run E loop ctx current userMessage selected w =
     (let failed = (([], Some (Errorf ''run react loop: loop is not initialized'')), current, w);
          refused = (\<lambda>reason. (([], Some (Errorf (''run react loop: '' @ reason))), current, w)) in
      case loop of
        None \<Rightarrow> failed
      | Some l \<Rightarrow> (case (rl_chat l, rl_executor l, rl_prompts l) of
          (Some chat, Some executor, Some prompts) \<Rightarrow> (case ctx of
              None \<Rightarrow> refused ''context is nil''
            | Some cx \<Rightarrow> (case current of
                None \<Rightarrow> refused ''session is required''
              | Some s \<Rightarrow>
                  if blank (s_id s) then refused ''session is required''
                  else (case selected of
                      None \<Rightarrow> refused ''profile is required''
                    | Some p \<Rightarrow>
                        if blank (p_name p) then refused ''profile is required''
                        else if st_max_iterations (p_settings p) \<le> 0
                        then refused ''max_iterations must be positive''
                        else
                          (let (result, s', w') =
                             iterations (nat (st_max_iterations (p_settings p))) E chat executor prompts cx p
                               userMessage (append_message (text_message RoleUser userMessage) s) w
                           in (result, Some s', w')))))
        | _ \<Rightarrow> failed))"

section \<open>The conversation that a run leaves\<close>

text \<open>
  Tool messages that answer the first calls of an assistant message, in order and by their ids; and a
  number of whole rounds, each a message with calls and an answer to every one of them.
\<close>

definition answers :: "message \<Rightarrow> message list \<Rightarrow> bool" where
  "answers m ts \<longleftrightarrow> map (\<lambda>t. (m_role t, m_tool_call_id t, m_tool_name t)) ts =
     map (\<lambda>c. (RoleTool, tc_id c, fc_name (tc_function c))) (take (length ts) (m_tool_calls m))"

inductive rounds :: "nat \<Rightarrow> message list \<Rightarrow> bool" where
  rounds_none: "rounds 0 []"
| rounds_more: "\<lbrakk>m_tool_calls m \<noteq> []; answers m ts; length ts = length (m_tool_calls m); rounds n ms\<rbrakk>
    \<Longrightarrow> rounds (Suc n) (m # ts @ ms)"

lemma run_calls_answers:
  assumes "run_calls executor cx p cs s w = (err, s', w')"
  shows "\<exists>ts. s_id s' = s_id s \<and> s_messages s' = s_messages s @ ts \<and>
    map (\<lambda>t. (m_role t, m_tool_call_id t, m_tool_name t)) ts =
      map (\<lambda>c. (RoleTool, tc_id c, fc_name (tc_function c))) (take (length ts) cs) \<and>
    (err = None \<longrightarrow> length ts = length cs)"
  using assms
proof (induction cs arbitrary: s w)
  case (Cons c cs)
  obtain r e w1 where x: "executor cx (s_id s) (p_tools p) c w = ((r, e), w1)" by (metis prod.collapse)
  let ?s1 = "append_message (tool_message c r) s"
  show ?case
  proof (cases e)
    case (Some e')
    then have "s' = ?s1" "err = Some e'" using Cons.prems x by simp_all
    then show ?thesis by (intro exI [of _ "[tool_message c r]"]) (simp add: tool_message_def)
  next
    case None
    then have "run_calls executor cx p cs ?s1 w1 = (err, s', w')" using Cons.prems x by simp
    from Cons.IH [OF this] obtain ts where "s_id s' = s_id s" "s_messages s' = s_messages s @ tool_message c r # ts"
      "map (\<lambda>t. (m_role t, m_tool_call_id t, m_tool_name t)) ts =
        map (\<lambda>c. (RoleTool, tc_id c, fc_name (tc_function c))) (take (length ts) cs)"
      "err = None \<longrightarrow> length ts = length cs" by auto
    then show ?thesis by (intro exI [of _ "tool_message c r # ts"]) (simp add: tool_message_def)
  qed
qed simp

text \<open>
  How a run of at most \<open>n\<close> iterations can end: with an answer, with the iterations used up, or with
  an error, after which the last message may have calls that were not answered.
\<close>

definition cycle_end :: "nat \<Rightarrow> nat \<Rightarrow> string \<Rightarrow> gerror option \<Rightarrow> message list \<Rightarrow> bool" where
  "cycle_end n k content err rest \<longleftrightarrow>
     (case err of
        None \<Rightarrow> k < n \<and> (\<exists>m. rest = [m] \<and> m_tool_calls m = [] \<and> m_content m = content)
      | Some e \<Rightarrow> content = [] \<and>
          (k = n \<and> rest = [] \<and> e = Sentinel ErrMaxIterations \<or>
           k < n \<and> (rest = [] \<or> (\<exists>m ts. rest = m # ts \<and> answers m ts))))"

lemma answers_Nil [simp]: "answers m []"
  by (simp add: answers_def)

lemma iterations_conversation:
  assumes "iterations n E chat executor prompts cx p u s w = ((content, err), s', w')"
  shows "\<exists>k full rest. s_id s' = s_id s \<and> s_messages s' = s_messages s @ full @ rest \<and> rounds k full \<and>
    cycle_end n k content err rest"
  using assms
proof (induction n arbitrary: s w)
  case 0
  then show ?case by (intro exI [of _ 0] exI [of _ "[]"]) (auto simp: cycle_end_def rounds_none)
next
  case (Suc n)
  have stopped: ?case if "content = []" "err = Some e" "s' = s \<or> (\<exists>m. s' = append_message m s)" for e
    using that(3)
  proof (elim disjE exE)
    assume "s' = s"
    then show ?thesis using that(1,2) rounds_none
      by (intro exI [of _ 0] exI [of _ "[]"]) (simp add: cycle_end_def)
  next
    fix m assume "s' = append_message m s"
    then show ?thesis using that(1,2) rounds_none
      by (intro exI [of _ 0] exI [of _ "[]"] exI [of _ "[m]"]) (simp add: cycle_end_def)
  qed
  obtain ended w1 where c: "ctx_err E cx w = (ended, w1)" by fastforce
  obtain built w2 where b: "prompts cx s p u w1 = (built, w2)" by fastforce
  show ?case
  proof (cases "ended = None \<and> (\<exists>messages. built = Inr messages)")
    case False
    then show ?thesis using Suc.prems c b stopped by (auto split: option.splits sum.splits)
  next
    case True
    then obtain messages where ready: "ended = None" "built = Inr messages" by blast
    obtain r ce w3 where ch: "chat cx (s_id s) p messages w2 = ((r, ce), w3)" by (metis prod.collapse)
    show ?thesis
    proof (cases ce)
      case (Some e)
      then have "content = []" "err = Some e" "s' = s \<or> (\<exists>m. s' = append_message m s)"
        using Suc.prems c b ch ready by (auto split: if_splits)
      then show ?thesis by (rule stopped)
    next
      case None
      let ?m = "rs_message r" and ?s1 = "append_message (rs_message r) s"
      show ?thesis
      proof (cases "m_tool_calls ?m = []")
        case True
        then have "content = m_content ?m" "err = None" "s' = ?s1" using Suc.prems c b ch ready None by simp_all
        then show ?thesis using True rounds_none
          by (intro exI [of _ 0] exI [of _ "[]"] exI [of _ "[?m]"]) (simp add: cycle_end_def)
      next
        case calls: False
        obtain xe s2 w4 where x: "run_calls executor cx p (m_tool_calls ?m) ?s1 w3 = (xe, s2, w4)" by (metis prod_cases3)
        from run_calls_answers [OF x] obtain ts where ts: "s_id s2 = s_id s" "s_messages s2 = s_messages s @ ?m # ts"
          "answers ?m ts" "xe = None \<longrightarrow> length ts = length (m_tool_calls ?m)" by (auto simp: answers_def)
        show ?thesis
        proof (cases xe)
          case (Some e)
          then have "content = []" "err = Some e" "s' = s2" using Suc.prems c b ch ready None calls x by simp_all
          then show ?thesis using ts rounds_none
            by (intro exI [of _ 0] exI [of _ "[]"] exI [of _ "?m # ts"]) (auto simp: cycle_end_def)
        next
          case answered: None
          then have "iterations n E chat executor prompts cx p u s2 w4 = ((content, err), s', w')"
            using Suc.prems c b ch ready None calls x by simp
          from Suc.IH [OF this] obtain k full rest where IH: "s_id s' = s_id s2"
            "s_messages s' = s_messages s2 @ full @ rest" "rounds k full" "cycle_end n k content err rest" by blast
          have "rounds (Suc k) (?m # ts @ full)" using rounds_more [OF calls ts(3) _ IH(3)] ts(4) answered by simp
          moreover have "cycle_end (Suc n) (Suc k) content err rest"
            using IH(4) by (auto simp: cycle_end_def split: option.splits)
          ultimately show ?thesis using IH(1,2) ts(1,2)
            by (intro exI [of _ "Suc k"] exI [of _ "?m # ts @ full"] exI [of _ rest]) simp
        qed
      qed
    qed
  qed
qed

lemma Run_starts:
  assumes "Run E (Some \<lparr>rl_chat = Some chat, rl_executor = Some executor, rl_prompts = Some prompts\<rparr>)
      (Some cx) (Some s) u (Some p) w = ((content, err), s', w')"
  obtains (refused) "content = []" "\<exists>reason. err = Some (Errorf (''run react loop: '' @ reason))" "s' = Some s" "w' = w"
    | (runs) s1 where "\<not> blank (s_id s)" "\<not> blank (p_name p)" "0 < st_max_iterations (p_settings p)" "s' = Some s1"
      "iterations (nat (st_max_iterations (p_settings p))) E chat executor prompts cx p u
         (append_message (text_message RoleUser u) s) w = ((content, err), s1, w')"
proof -
  obtain r s1 w1 where i: "iterations (nat (st_max_iterations (p_settings p))) E chat executor prompts cx p u
      (append_message (text_message RoleUser u) s) w = (r, s1, w1)" by (metis prod_cases3)
  show thesis
    using assms runs [of s1] refused by (auto simp: Run_def i Let_def not_le split: if_splits)
qed

text \<open>
  C3.  The conversation a run leaves.  The user's message is appended once and nothing before it changes.
  After it come whole rounds, fewer than the Profile's iterations unless these were used up: an assistant
  message with Tool calls and, in the order of the calls, one Tool message for every call with its id and
  name.  A run that succeeds ends with a message without calls, whose text it returns; the error for too
  many iterations means that every iteration was a whole round; and after any other error the last
  message may have calls whose answers are missing, at the end only.  A refused run changes nothing.
\<close>

theorem Run_conversation:
  assumes run: "Run E (Some \<lparr>rl_chat = Some chat, rl_executor = Some executor, rl_prompts = Some prompts\<rparr>)
      (Some cx) (Some s) u (Some p) w = ((content, err), Some s', w')"
  shows "s_id s' = s_id s \<and>
    (s' = s \<and> content = [] \<and> (\<exists>reason. err = Some (Errorf (''run react loop: '' @ reason))) \<or>
     (\<exists>k full rest. s_messages s' = s_messages s @ [text_message RoleUser u] @ full @ rest \<and> rounds k full \<and>
        cycle_end (nat (st_max_iterations (p_settings p))) k content err rest))"
  using run
proof (cases rule: Run_starts)
  case (runs s1)
  from iterations_conversation [OF runs(5)] runs(4) show ?thesis by auto
qed auto

section \<open>What a run does outside\<close>

text \<open>
  A monitor of the trace: a Tool may run only while the last model call has been recorded as successful.
  A new model call, or a row that was not inserted or says failure, takes the permission away.
\<close>

fun permits :: "bool \<Rightarrow> event \<Rightarrow> bool" where
  "permits b (EvGenerate cx rq) = False"
| "permits b (EvStreamOpen cx rq) = False"
| "permits b (EvInsertLlm cx row err) = (err = None \<and> lc_success row)"
| "permits b _ = b"

primrec guarded :: "bool \<Rightarrow> event list \<Rightarrow> bool" where
  "guarded b [] = True"
| "guarded b (e # es) = ((is_tool_invoke e \<longrightarrow> b) \<and> guarded (permits b e) es)"

lemma guarded_append [simp]: "guarded b (es @ es') \<longleftrightarrow> guarded b es \<and> guarded (foldl permits b es) es'"
  by (induction es arbitrary: b) auto

fun is_memory_read :: "event \<Rightarrow> bool" where
  "is_memory_read (EvMemoryRead n) = True"
| "is_memory_read _ = False"

fun is_tool_side :: "event \<Rightarrow> bool" where
  "is_tool_side (EvToolInfo n d e) = True"
| "is_tool_side (EvToolInvoke n a cx) = True"
| "is_tool_side (EvInsertTool cx r e) = True"
| "is_tool_side (EvWait d) = True"
| "is_tool_side (EvLog m a) = True"
| "is_tool_side _ = False"

fun is_session_event :: "event \<Rightarrow> bool" where
  "is_session_event (EvSessionResolve n) = True"
| "is_session_event (EvSessionSave cx sid ms) = True"
| "is_session_event _ = False"

definition no_model_or_tool :: "event \<Rightarrow> bool" where
  "no_model_or_tool e \<longleftrightarrow> \<not> is_model_call e \<and> \<not> is_llm_insert e \<and> \<not> is_tool_invoke e \<and> \<not> is_session_event e"

lemma no_model_or_tool_kinds:
  "is_memory_read e \<Longrightarrow> no_model_or_tool e" "is_schema_read e \<Longrightarrow> no_model_or_tool e"
  by (cases e; simp add: no_model_or_tool_def)+

lemma tool_side_kinds: "is_tool_side e \<Longrightarrow> \<not> is_model_call e \<and> \<not> is_session_event e \<and> permits b e = b"
  by (cases e) simp_all

lemma permits_other: "no_model_or_tool e \<Longrightarrow> permits b e = b"
  by (cases e) (simp_all add: no_model_or_tool_def)

lemma quiet_trace:
  "list_all no_model_or_tool es \<Longrightarrow> guarded b es \<and> foldl permits b es = b \<and> count is_model_call es = 0 \<and>
     count is_tool_invoke es = 0 \<and> count is_session_event es = 0"
proof (induction es arbitrary: b)
  case (Cons e es)
  then have "permits b e = b" "\<not> is_model_call e" "\<not> is_tool_invoke e" "\<not> is_session_event e"
    using permits_other [of e b] by (simp_all add: no_model_or_tool_def)
  then show ?case using Cons by simp
qed simp

lemma tool_trace:
  "list_all is_tool_side es \<Longrightarrow> guarded True es \<and> foldl permits b es = b \<and> count is_model_call es = 0 \<and>
     count is_session_event es = 0"
  by (induction es arbitrary: b) (auto simp: tool_side_kinds)

text \<open>The contracts of the three collaborators.\<close>

locale prompt_port =
  fixes build :: "'x prompt_source"
  assumes build_reads: "build cx s p u w = (r, w') \<Longrightarrow> only is_memory_read w w'"

locale chat_port =
  fixes chat :: "'x chat_service"
  assumes chat_audited: "chat cx sid p ms w = ((r, err), w') \<Longrightarrow>
    \<exists>es. emitted w es w' \<and> count is_model_call es \<le> 1 \<and> count is_tool_invoke es = 0 \<and>
      count is_session_event es = 0 \<and> (err = None \<longrightarrow> (\<forall>b. foldl permits b es))"

fun allowed_event :: "string list \<Rightarrow> event \<Rightarrow> bool" where
  "allowed_event allowed (EvToolInvoke n a cx) = (n \<in> set allowed)"
| "allowed_event allowed _ = True"

definition tools_allowed :: "string list \<Rightarrow> event list \<Rightarrow> bool" where
  "tools_allowed allowed es \<longleftrightarrow> list_all (allowed_event allowed) es"

lemma tools_allowed_simps [simp]:
  "tools_allowed allowed []" "tools_allowed allowed (xs @ ys) \<longleftrightarrow> tools_allowed allowed xs \<and> tools_allowed allowed ys"
  by (simp_all add: tools_allowed_def)

lemma tools_allowed_none: "count is_tool_invoke es = 0 \<Longrightarrow> tools_allowed allowed es"
proof -
  have "\<not> is_tool_invoke e \<Longrightarrow> allowed_event allowed e" for e by (cases e) simp_all
  then show "count is_tool_invoke es = 0 \<Longrightarrow> tools_allowed allowed es"
    by (simp add: tools_allowed_def count_zero list_all_iff)
qed

locale tool_port =
  fixes execute_tool :: "'x tool_executor"
  assumes execute_side: "execute_tool cx sid allowed c w = ((r, err), w') \<Longrightarrow>
    \<exists>es. emitted w es w' \<and> list_all is_tool_side es \<and> tools_allowed allowed es"

locale react_ports = prompt_port build + chat_port chat + tool_port execute_tool
  for build :: "'x prompt_source" and chat :: "'x chat_service" and execute_tool :: "'x tool_executor"
begin

lemma run_calls_trace:
  assumes "run_calls execute_tool cx p cs s w = (err, s', w')"
  shows "\<exists>es. emitted w es w' \<and> list_all is_tool_side es \<and> tools_allowed (p_tools p) es"
  using assms
proof (induction cs arbitrary: s w)
  case Nil
  then show ?case by (auto intro: exI [of _ "[]"])
next
  case (Cons c cs)
  obtain r e w1 where x: "execute_tool cx (s_id s) (p_tools p) c w = ((r, e), w1)" by (metis prod.collapse)
  obtain es where es: "emitted w es w1" "list_all is_tool_side es" "tools_allowed (p_tools p) es"
    using execute_side [OF x] by blast
  show ?case
  proof (cases e)
    case (Some e')
    then show ?thesis using Cons.prems x es by auto
  next
    case None
    then have "run_calls execute_tool cx p cs (append_message (tool_message c r) s) w1 = (err, s', w')"
      using Cons.prems x by simp
    from Cons.IH [OF this] obtain es' where "emitted w1 es' w'" "list_all is_tool_side es'" "tools_allowed (p_tools p) es'"
      by blast
    then show ?thesis using es emitted_trans [OF es(1)] by (intro exI [of _ "es @ es'"]) simp
  qed
qed

lemma iterations_trace:
  assumes "iterations n E chat execute_tool build cx p u s w = (r, s', w')"
  shows "\<exists>es. emitted w es w' \<and> count is_model_call es \<le> n \<and> (\<forall>b. guarded b es) \<and> tools_allowed (p_tools p) es \<and>
    count is_session_event es = 0"
  using assms
proof (induction n arbitrary: s w)
  case 0
  then show ?case by (auto intro!: exI [of _ "[]"])
next
  case (Suc n)
  obtain ended w1 where c: "ctx_err E cx w = (ended, w1)" by fastforce
  obtain built w2 where b: "build cx s p u w1 = (built, w2)" by fastforce
  obtain es0 where es0: "emitted w1 es0 w2" "list_all no_model_or_tool es0"
    using build_reads [OF b] no_model_or_tool_kinds(1) unfolding only_def by (metis list.pred_mono_strong)
  note q = quiet_trace [OF es0(2)]
  have w2: "emitted w es0 w2" using emitted_trans [OF emitted_ctx_err [OF c] es0(1)] by simp
  show ?case
  proof (cases "ended = None \<and> (\<exists>messages. built = Inr messages)")
    case False
    then have "w' = w1 \<or> w' = w2" using Suc.prems c b by (auto split: option.splits sum.splits)
    then consider "w' = w1" | "w' = w2" by blast
    then show ?thesis
    proof cases
      case 1
      then show ?thesis using emitted_ctx_err [OF c] by (intro exI [of _ "[]"]) simp
    next
      case 2
      then show ?thesis using w2 q tools_allowed_none by (intro exI [of _ es0]) simp
    qed
  next
    case True
    then obtain messages where ready: "ended = None" "built = Inr messages" by blast
    obtain rs ce w3 where ch: "chat cx (s_id s) p messages w2 = ((rs, ce), w3)" by (metis prod.collapse)
    obtain es1 where es1: "emitted w2 es1 w3" "count is_model_call es1 \<le> 1" "count is_tool_invoke es1 = 0"
        "count is_session_event es1 = 0" "ce = None \<longrightarrow> (\<forall>b. foldl permits b es1)"
      using chat_audited [OF ch] by blast
    have g1: "guarded b es1" for b
    proof -
      have "list_all (\<lambda>e. \<not> is_tool_invoke e) es1" using es1(3) by (simp add: count_zero list_all_iff)
      then show ?thesis by (induction es1 arbitrary: b) auto
    qed
    have w3: "emitted w (es0 @ es1) w3" using emitted_trans [OF w2 es1(1)] .
    have so_far: "count is_model_call (es0 @ es1) \<le> 1 \<and> (\<forall>b. guarded b (es0 @ es1)) \<and> tools_allowed (p_tools p) (es0 @ es1) \<and>
        count is_session_event (es0 @ es1) = 0"
      using q es1 g1 tools_allowed_none by simp
    show ?thesis
    proof (cases "ce = None \<and> m_tool_calls (rs_message rs) \<noteq> []")
      case False
      then have "w' = w3" using Suc.prems c b ch ready by (auto split: option.splits)
      then show ?thesis using w3 so_far by (intro exI [of _ "es0 @ es1"]) auto
    next
      case calls: True
      obtain xe s2 w4 where x: "run_calls execute_tool cx p (m_tool_calls (rs_message rs))
          (append_message (rs_message rs) s) w3 = (xe, s2, w4)" by (metis prod_cases3)
      obtain es2 where es2: "emitted w3 es2 w4" "list_all is_tool_side es2" "tools_allowed (p_tools p) es2"
        using run_calls_trace [OF x] by blast
      have g2: "foldl permits b (es0 @ es1)" "guarded True es2" "count is_model_call es2 = 0" "count is_session_event es2 = 0" for b
        using es1(5) calls tool_trace [OF es2(2)] by simp_all
      have w4: "emitted w ((es0 @ es1) @ es2) w4" using emitted_trans [OF w3 es2(1)] .
      have upto: "count is_model_call ((es0 @ es1) @ es2) \<le> 1" "\<forall>b. guarded b ((es0 @ es1) @ es2)"
          "tools_allowed (p_tools p) ((es0 @ es1) @ es2)" "count is_session_event ((es0 @ es1) @ es2) = 0"
        using so_far g2 es2(3) guarded_append [of _ "es0 @ es1" es2] by (simp_all del: foldl_append append_assoc)
      show ?thesis
      proof (cases xe)
        case (Some e)
        then have "w' = w4" using Suc.prems c b ch ready calls x by simp
        then show ?thesis using w4 upto by (intro exI [of _ "(es0 @ es1) @ es2"]) simp
      next
        case None
        then have "iterations n E chat execute_tool build cx p u s2 w4 = (r, s', w')"
          using Suc.prems c b ch ready calls x by simp
        from Suc.IH [OF this] obtain es3 where es3: "emitted w4 es3 w'" "count is_model_call es3 \<le> n"
          "\<forall>b. guarded b es3" "tools_allowed (p_tools p) es3" "count is_session_event es3 = 0" by blast
        have "count is_model_call (((es0 @ es1) @ es2) @ es3) \<le> Suc n"
          using upto(1) es3(2) by (simp only: count_simps)
        moreover have "guarded b (((es0 @ es1) @ es2) @ es3)" for b
          using upto(2) es3(3) guarded_append [of b "(es0 @ es1) @ es2" es3] by blast
        moreover have "count is_session_event (((es0 @ es1) @ es2) @ es3) = 0"
          using upto(4) es3(5) by (simp only: count_simps)
        ultimately show ?thesis
          using emitted_trans [OF w4 es3(1)] upto(3) es3(4) tools_allowed_simps(2) by blast
      qed
    qed
  qed
qed

end

section \<open>The loop on the components of the program\<close>

definition build_port :: "'x env \<Rightarrow> 'x prompt_builder \<Rightarrow> 'x prompt_source" where
  "build_port E b cx s p u = Build E (Some (b\<lparr>pb_now := Some (now E)\<rparr>)) (Some cx) (Some s) (Some p) u"

definition chat_service_port ::
  "'x env \<Rightarrow> ('c, 'r, 'j, 'x) eino \<Rightarrow> ('c adapter, 'x wld) registry \<Rightarrow> 'x source \<Rightarrow> 'x chat_service" where
  "chat_service_port E L registry src cx sid p ms =
     Chat E (eino_ops L) (Some (store_service E registry (Some (Resolve src)))) (Some cx) sid (Some p) ms"

definition execute_port :: "'x env \<Rightarrow> 'x lookup \<Rightarrow> 'x tool_executor" where
  "execute_port E lookup cx = Execute E (Some (store_executor E lookup)) (Some cx)"

interpretation runtime_prompts: prompt_port "build_port E b" for E b
proof unfold_locales
  fix cx s p u w r w'
  assume "build_port E b cx s p u w = (r, w')"
  then have "Build E (Some (b\<lparr>pb_now := Some (now E)\<rparr>)) (Some cx) (Some s) (Some p) u w = (r, w')"
    by (simp add: build_port_def)
  then show "only is_memory_read w w'"
  proof (cases rule: Build_gates)
    case refused
    then show ?thesis unfolding only_def by (intro exI [of _ "[]"]) simp
  next
    case (ready boot skills memory clock w1)
    have start: "only is_memory_read w w1"
      unfolding only_def using emitted_ctx_err [OF ready(1)] by (intro exI [of _ "[]"]) simp
    from ready(8) have "only is_memory_read w1 w'"
    proof (cases rule: compose_prompt_parts)
      case (unread mem e w2)
      then show ?thesis using only_outside [OF unread(1), of is_memory_read] by simp
    next
      case (read mem w2 history current t)
      have "clock = now E" using ready(6) by simp
      then have "only is_memory_read w2 w'"
        unfolding only_def using emitted_now read(2) by (intro exI [of _ "[]"]) simp
      then show ?thesis using only_trans only_outside [OF read(1), of is_memory_read] by fastforce
    qed
    with start show ?thesis by (rule only_trans)
  qed
qed

interpretation provider_chat: chat_port "chat_service_port E L registry src" for E L registry src
proof unfold_locales
  fix cx sid p ms w r err w'
  assume "chat_service_port E L registry src cx sid p ms w = ((r, err), w')"
  then have run: "Chat E (eino_ops L) (Some (store_service E registry (Some (Resolve src)))) (Some cx) sid (Some p) ms w
      = ((r, err), w')" by (simp add: chat_service_port_def)
  obtain reads calls rows where x: "emitted w (reads @ calls @ rows) w'" "list_all is_schema_read reads"
    "length calls \<le> 1" "list_all is_model_call calls" "list_all is_llm_insert rows"
    "err = None \<longrightarrow> (\<exists>row. rows = [EvInsertLlm (without_cancel cx) row None] \<and>
       recorded_call (env_url_parse E) (callMetadataFrom sid p) (Some r) True row)"
    using Chat_run [OF run] by blast
  have kinds: "is_model_call e \<Longrightarrow> \<not> is_tool_invoke e \<and> \<not> is_session_event e"
    "is_llm_insert e \<Longrightarrow> \<not> is_tool_invoke e \<and> \<not> is_model_call e \<and> \<not> is_session_event e" for e
    by (cases e; simp)+
  have "count is_tool_invoke calls = 0" "count is_tool_invoke rows = 0" "count is_model_call rows = 0"
    "count is_session_event calls = 0" "count is_session_event rows = 0"
    using x(4,5) kinds by (auto simp: count_zero list_all_iff)
  moreover have "count is_model_call calls \<le> 1" using x(3) by (simp add: count_def le_trans [OF length_filter_le])
  moreover have "count is_model_call reads = 0" "count is_tool_invoke reads = 0" "count is_session_event reads = 0"
    using quiet_trace [of reads] x(2) no_model_or_tool_kinds(2) list.pred_mono_strong by metis+
  moreover have "foldl permits b (reads @ calls @ rows)" if "err = None" for b
    using x(6) that by (auto simp: recorded_call_def)
  ultimately show "\<exists>es. emitted w es w' \<and> count is_model_call es \<le> 1 \<and> count is_tool_invoke es = 0 \<and>
      count is_session_event es = 0 \<and> (err = None \<longrightarrow> (\<forall>b. foldl permits b es))"
    using x(1) by (intro exI [of _ "reads @ calls @ rows"]) simp
qed

lemma attempt_run_side:
  "attempt_run conf cx name args n es ok \<Longrightarrow> name \<in> set allowed \<Longrightarrow> list_all is_tool_side es \<and> tools_allowed allowed es"
  by (induction rule: attempt_run.induct) (auto simp: tools_allowed_def)

lemma call_run_side:
  "call_run E lookup cx name allowed args es ok \<Longrightarrow> list_all is_tool_side es \<and> tools_allowed allowed es"
proof (induction rule: call_run.induct)
  case (call_attempted d conf es ok)
  then have "name \<in> set allowed" by (simp add: runnable_def)
  with attempt_run_side [OF call_attempted(2)] show ?case by (simp add: tools_allowed_def)
qed (simp_all add: tools_allowed_def)

interpretation runtime_tools: tool_port "execute_port E lookup" for E lookup
proof unfold_locales
  fix cx sid allowed c w r err w'
  assume "execute_port E lookup cx sid allowed c w = ((r, err), w')"
  then have run: "Execute E (Some (store_executor E lookup)) (Some cx) sid allowed c w = ((r, err), w')"
    by (simp add: execute_port_def)
  obtain es1 wc rows where x: "emitted w es1 wc" "list_all is_tool_side es1" "tools_allowed allowed es1"
    "emitted wc rows w'" "\<forall>ev \<in> set rows. \<exists>row e. ev = EvInsertTool (without_cancel cx) row e"
    by (rule store_executor_events [OF run]) (metis call_run_side tool_rows.create_at_most_one)
  have "list_all is_tool_side rows \<and> tools_allowed allowed rows"
    using x(5) by (auto simp: tools_allowed_def list_all_iff)
  with x(2,3) emitted_trans [OF x(1,4)] show "\<exists>es. emitted w es w' \<and> list_all is_tool_side es \<and> tools_allowed allowed es"
    by (intro exI [of _ "es1 @ rows"]) simp
qed

interpretation runtime_ports: react_ports "build_port E b" "chat_service_port E L registry src" "execute_port E lookup"
  for E b L registry src lookup
  by unfold_locales

definition oryx_loop ::
  "'x env \<Rightarrow> ('c, 'r, 'j, 'x) eino \<Rightarrow> ('c adapter, 'x wld) registry \<Rightarrow> 'x source \<Rightarrow> 'x lookup \<Rightarrow> 'x prompt_builder \<Rightarrow>
   'x react_loop" where
  "oryx_loop E L registry src lookup b = \<lparr>rl_chat = Some (chat_service_port E L registry src),
     rl_executor = Some (execute_port E lookup), rl_prompts = Some (build_port E b)\<rparr>"

lemma oryx_loop_trace:
  assumes "Run E (Some (oryx_loop E L registry src lookup b)) (Some cx) (Some s) u (Some p) w = ((content, err), s', w')"
  shows "\<exists>es. emitted w es w' \<and> count is_model_call es \<le> nat (st_max_iterations (p_settings p)) \<and> guarded False es \<and>
    tools_allowed (p_tools p) es \<and> count is_session_event es = 0"
  using assms unfolding oryx_loop_def
proof (cases rule: Run_starts)
  case refused
  then show ?thesis by (intro exI [of _ "[]"]) simp
next
  case (runs s1)
  from runtime_ports.iterations_trace [OF runs(5)] show ?thesis by blast
qed

text \<open>
  A run is bounded and guarded.  With the Provider service, the executor and the prompt builder of
  the program, a run makes at most as many model calls as the Profile has iterations; it invokes only
  Tools that the Profile names; and it never invokes a Tool unless the model call before it has a row
  that says success and that the database accepted.
\<close>

theorem Run_guarded:
  assumes "Run E (Some (oryx_loop E L registry src lookup b)) (Some cx) (Some s) u (Some p) w = ((content, err), s', w')"
    and "emitted w es w'"
  shows "count is_model_call es \<le> nat (st_max_iterations (p_settings p)) \<and> guarded False es \<and> tools_allowed (p_tools p) es"
  using oryx_loop_trace [OF assms(1)] emitted_unique [OF assms(2)] by blast

section \<open>Examples\<close>

definition demo_loop :: "nat react_loop" where
  "demo_loop = oryx_loop demo_env demo_eino demo_models demo_source demo_lookup demo_builder"

theorem Run_guarded_witness:
  "\<exists>r s' w'. Run demo_env (Some demo_loop) (Some demo_ctx) (Some demo_session) ''hi'' (Some demo_profile) demo_world = (r, s', w') \<and>
     count is_model_call (w_trace w') \<le> 10 \<and> guarded False (w_trace w')"
proof -
  obtain content err s' w' where run: "Run demo_env (Some demo_loop) (Some demo_ctx) (Some demo_session) ''hi''
      (Some demo_profile) demo_world = ((content, err), s', w')" by (metis prod.collapse)
  from Run_guarded [OF run [unfolded demo_loop_def] emitted_demo [OF refl]] run show ?thesis by auto
qed

theorem Run_conversation_witness:
  "\<exists>r s' w'. Run demo_env (Some demo_loop) (Some demo_ctx) (Some demo_session) ''hi'' (Some demo_profile) demo_world
     = (r, Some s', w') \<and> s_id s' = ''s1''"
proof -
  obtain content err t w' where run: "Run demo_env (Some demo_loop) (Some demo_ctx) (Some demo_session) ''hi''
      (Some demo_profile) demo_world = ((content, err), t, w')" by (metis prod.collapse)
  moreover from run obtain s' where "t = Some s'"
    unfolding demo_loop_def oryx_loop_def by (cases rule: Run_starts) auto
  ultimately have run: "Run demo_env (Some demo_loop) (Some demo_ctx) (Some demo_session) ''hi''
      (Some demo_profile) demo_world = ((content, err), Some s', w')" by simp
  from Run_conversation [OF run [unfolded demo_loop_def oryx_loop_def]] run
  show ?thesis by (auto simp: demo_session_def)
qed

end
