(* ===== verification/Agent_Service.thy ===== *)
theory Agent_Service
  imports React_Loop Observability
begin

text \<open>
  internal/runtime/agent_service.go and types.go: the one entry point of the command line, the Web API
  and the scheduler.  It resolves the Profile and the session, runs the loop and saves the session.
\<close>

section \<open>Requests and collaborators\<close>

record agent_request =
  ar_profile :: string
  ar_channel :: string
  ar_user :: string
  ar_session :: string
  ar_message :: string
  ar_stateless :: bool

record agent_response =
  ap_session :: string
  ap_content :: string

definition empty_agent_response :: agent_response where
  "empty_agent_response = \<lparr>ap_session = [], ap_content = []\<rparr>"

text \<open>The session service is outside code: a state \<open>'x\<close> that it reads and writes.\<close>

record 'x session_service =
  ss_resolve :: "goctx \<Rightarrow> agent_request \<Rightarrow> string \<Rightarrow> 'x \<Rightarrow> (session option \<times> gerror option) \<times> 'x"
  ss_save :: "goctx \<Rightarrow> session \<Rightarrow> 'x \<Rightarrow> gerror option \<times> 'x"

type_synonym profile_resolver = "string \<Rightarrow> profile option"
type_synonym 'x agent_loop =
  "goctx \<Rightarrow> session \<Rightarrow> string \<Rightarrow> profile \<Rightarrow> 'x wld \<Rightarrow> (string \<times> gerror option) \<times> session \<times> 'x wld"

record 'x agent_service =
  as_profiles :: "profile_resolver option"
  as_sessions :: "'x session_service option"
  as_loop :: "'x agent_loop option"

definition NewAgentService ::
  "profile_resolver option \<Rightarrow> 'x session_service option \<Rightarrow> 'x agent_loop option \<Rightarrow> gerror + 'x agent_service" where
  "NewAgentService profiles sessions loop =
     (if profiles = None then Inl (Errorf ''create agent service: profile resolver is nil'')
      else if sessions = None then Inl (Errorf ''create agent service: session service is nil'')
      else if loop = None then Inl (Errorf ''create agent service: react loop is nil'')
      else Inr \<lparr>as_profiles = profiles, as_sessions = sessions, as_loop = loop\<rparr>)"

definition safeRuntimeWrap :: "url_parser \<Rightarrow> string \<Rightarrow> gerror option \<Rightarrow> gerror option" where
  "safeRuntimeWrap U prefix cause = (case cause of
     None \<Rightarrow> None
   | Some e \<Rightarrow>
       (let message = SanitizeErrorString U (error_text e) in
        if message \<noteq> error_text e then Some (Errorf (prefix @ '': '' @ message))
        else Some (Wrapf (prefix @ '': '') e)))"

lemma safeRuntimeWrap_None [simp]: "safeRuntimeWrap U p c = None \<longleftrightarrow> c = None" "safeRuntimeWrap U p None = None"
  by (auto simp: safeRuntimeWrap_def Let_def split: option.splits)

section \<open>Invoke\<close>

definition run_and_save ::
  "'x env \<Rightarrow> 'x session_service \<Rightarrow> 'x agent_loop \<Rightarrow> goctx \<Rightarrow> agent_request \<Rightarrow> profile \<Rightarrow> session \<Rightarrow> 'x wld
     \<Rightarrow> (agent_response \<times> gerror option) \<times> 'x wld" where
  "run_and_save E sessions loop cx request selected current w =
     (let correlation = (CorrelationFromContext cx)
            \<lparr>co_session := s_id current, co_profile := p_name selected, co_channel := ar_channel request\<rparr>;
          runContext = WithCorrelation cx correlation;
          ((content, runErr), current', w1) = loop runContext current (ar_message request) selected w;
          (saveErr, w2) = outside (ss_save sessions (without_cancel runContext) current')
            (\<lambda>_. EvSessionSave (without_cancel runContext) (s_id current') (s_messages current')) w1;
          response = \<lparr>ap_session = s_id current', ap_content = content\<rparr>;
          safeRunErr = safeRuntimeWrap (env_url_parse E) ''invoke agent: run'' runErr;
          safeSaveErr = safeRuntimeWrap (env_url_parse E) ''invoke agent: save session'' saveErr
      in (case (safeRunErr, safeSaveErr) of
            (Some re, Some se) \<Rightarrow> ((response, Some (Joined [re, se])), w2)
          | (Some re, None) \<Rightarrow> ((response, Some re), w2)
          | (None, Some se) \<Rightarrow> ((response, Some se), w2)
          | (None, None) \<Rightarrow> ((response, None), w2)))"

definition Invoke ::
  "'x env \<Rightarrow> 'x agent_service option \<Rightarrow> goctx option \<Rightarrow> agent_request \<Rightarrow> 'x wld
     \<Rightarrow> (agent_response \<times> gerror option) \<times> 'x wld" where
  "Invoke E service ctx request w =
     (let fail = (\<lambda>text w. ((empty_agent_response, Some (Errorf (''invoke agent: '' @ text))), w)) in
      case service of
        None \<Rightarrow> fail ''service is not initialized'' w
      | Some sv \<Rightarrow> (case (as_profiles sv, as_sessions sv, as_loop sv) of
          (Some profiles, Some sessions, Some loop) \<Rightarrow> (case ctx of
              None \<Rightarrow> fail ''context is nil'' w
            | Some cx \<Rightarrow>
                (let profileName = trim_space (ar_profile request) in
                 if profileName = [] then fail ''profile_name is required'' w
                 else if blank (ar_message request) then fail ''message is required'' w
                 else (case profiles profileName of
                     None \<Rightarrow> fail (''profile '' @ quote profileName @ '' not found'') w
                   | Some selected \<Rightarrow>
                       (let ((current, err), w1) =
                              outside (ss_resolve sessions cx request (p_name selected))
                                (\<lambda>_. EvSessionResolve (p_name selected)) w in
                        case safeRuntimeWrap (env_url_parse E) ''invoke agent: resolve session'' err of
                          Some e \<Rightarrow> ((empty_agent_response, Some e), w1)
                        | None \<Rightarrow> (case current of
                            None \<Rightarrow> fail ''session service returned an invalid session'' w1
                          | Some s \<Rightarrow>
                              if blank (s_id s) then fail ''session service returned an invalid session'' w1
                              else run_and_save E sessions loop cx request selected s w1)))))
        | _ \<Rightarrow> fail ''service is not initialized'' w))"

section \<open>The loop as a collaborator\<close>

definition loop_port :: "'x env \<Rightarrow> 'x react_loop \<Rightarrow> 'x agent_loop" where
  "loop_port E loop cx s u p w =
     (let (r, s', w') = Run E (Some loop) (Some cx) (Some s) u (Some p) w
      in (r, (case s' of None \<Rightarrow> s | Some t \<Rightarrow> t), w'))"

text \<open>A loop keeps the session's identity, only appends to it, and leaves resolving and saving alone.\<close>

locale loop_contract =
  fixes run_loop :: "'x agent_loop"
  assumes loop_appends: "run_loop cx s u p w = (r, s', w') \<Longrightarrow>
      s_id s' = s_id s \<and> (\<exists>new. s_messages s' = s_messages s @ new)"
    and loop_trace: "run_loop cx s u p w = (r, s', w') \<Longrightarrow>
      \<exists>es. emitted w es w' \<and> count is_session_event es = 0"
begin

lemma run_and_save_once:
  assumes run: "run_and_save E sessions run_loop cx request selected s w = ((response, err), w')"
  obtains es content runErr saveErr new c w1 s1 where
    "c = (CorrelationFromContext cx)\<lparr>co_session := s_id s, co_profile := p_name selected, co_channel := ar_channel request\<rparr>"
    "run_loop (WithCorrelation cx c) s (ar_message request) selected w = ((content, runErr), s1, w1)"
    "emitted w es w1" "count is_session_event es = 0" "s_id s1 = s_id s" "s_messages s1 = s_messages s @ new"
    "emitted w (es @ [EvSessionSave (without_cancel (WithCorrelation cx c)) (s_id s) (s_messages s @ new)]) w'"
    "response = \<lparr>ap_session = s_id s, ap_content = content\<rparr>" "err = None \<longleftrightarrow> runErr = None \<and> saveErr = None"
    "fst (ss_save sessions (without_cancel (WithCorrelation cx c)) s1 (w_ext w1)) = saveErr"
proof -
  let ?c = "(CorrelationFromContext cx)\<lparr>co_session := s_id s, co_profile := p_name selected, co_channel := ar_channel request\<rparr>"
  let ?cx = "WithCorrelation cx ?c"
  obtain content runErr s1 w1 where l: "run_loop ?cx s (ar_message request) selected w = ((content, runErr), s1, w1)"
    by (metis prod.collapse)
  obtain saveErr w2 where sv: "outside (ss_save sessions (without_cancel ?cx) s1)
      (\<lambda>_. EvSessionSave (without_cancel ?cx) (s_id s1) (s_messages s1)) w1 = (saveErr, w2)" by fastforce
  obtain es where es: "emitted w es w1" "count is_session_event es = 0" using loop_trace [OF l] by blast
  obtain new where new: "s_id s1 = s_id s" "s_messages s1 = s_messages s @ new" using loop_appends [OF l] by blast
  obtain re where re: "safeRuntimeWrap (env_url_parse E) ''invoke agent: run'' runErr = re" "re = None \<longleftrightarrow> runErr = None"
    by simp
  obtain se where se: "safeRuntimeWrap (env_url_parse E) ''invoke agent: save session'' saveErr = se"
    "se = None \<longleftrightarrow> saveErr = None" by simp
  have out: "response = \<lparr>ap_session = s_id s1, ap_content = content\<rparr>" "w' = w2"
      "err = None \<longleftrightarrow> runErr = None \<and> saveErr = None"
    using run re(2) se(2) by (auto simp: run_and_save_def l sv re(1) se(1) Let_def split: option.splits)
  have "emitted w (es @ [EvSessionSave (without_cancel ?cx) (s_id s) (s_messages s @ new)]) w'"
    using emitted_trans [OF es(1) emitted_outside [OF sv]] out(2) new by simp
  moreover have "fst (ss_save sessions (without_cancel ?cx) s1 (w_ext w1)) = saveErr"
    using ext_outside [OF sv] by simp
  ultimately show thesis using that [OF refl l es new] out new(1) by simp
qed

end

lemma loop_port_run:
  assumes "loop_port E (oryx_loop E L registry src lookup b) cx s u p w = ((content, err), s', w')"
  shows "Run E (Some (oryx_loop E L registry src lookup b)) (Some cx) (Some s) u (Some p) w = ((content, err), Some s', w')"
proof -
  obtain r t w1 where run: "Run E (Some (oryx_loop E L registry src lookup b)) (Some cx) (Some s) u (Some p) w = (r, t, w1)"
    by (metis prod_cases3)
  obtain c e where r: "r = (c, e)" by fastforce
  have "\<exists>s1. t = Some s1" using run [unfolded r oryx_loop_def] by (cases rule: Run_starts) auto
  then show ?thesis using assms run by (auto simp: loop_port_def)
qed

interpretation oryx_run: loop_contract "loop_port E (oryx_loop E L registry src lookup b)"
  for E L registry src lookup b
proof unfold_locales
  fix cx s u p w r s' w'
  assume port: "loop_port E (oryx_loop E L registry src lookup b) cx s u p w = (r, s', w')"
  obtain content err where r: "r = (content, err)" by fastforce
  note run = loop_port_run [OF port [unfolded r]]
  from run show "s_id s' = s_id s \<and> (\<exists>new. s_messages s' = s_messages s @ new)"
    unfolding oryx_loop_def
  proof (cases rule: Run_starts)
    case (runs s1)
    from iterations_conversation [OF runs(5)] runs(4) show ?thesis by auto
  qed auto
  from oryx_loop_trace [OF run] show "\<exists>es. emitted w es w' \<and> count is_session_event es = 0" by blast
qed

section \<open>The service of the program\<close>

definition oryx_service ::
  "'x env \<Rightarrow> profile_registry \<Rightarrow> 'x session_service \<Rightarrow> 'x react_loop \<Rightarrow> 'x agent_service" where
  "oryx_service E profiles sessions loop = \<lparr>as_profiles = Some (Get (Some profiles)), as_sessions = Some sessions,
     as_loop = Some (loop_port E loop)\<rparr>"

lemma Invoke_cases:
  assumes "Invoke E (Some (oryx_service E profiles sessions loop)) (Some cx) request w = ((response, err), w')"
  obtains (refused) es where "emitted w es w'" "es = [] \<or> (\<exists>n. es = [EvSessionResolve n])" "err \<noteq> None"
      "response = empty_agent_response"
    | (invoked) p s w1 where "Get (Some profiles) (trim_space (ar_profile request)) = Some p"
      "emitted w [EvSessionResolve (p_name p)] w1" "\<not> blank (s_id s)" "\<not> blank (ar_message request)"
      "run_and_save E sessions (loop_port E loop) cx request p s w1 = ((response, err), w')"
proof (cases "trim_space (ar_profile request) = [] \<or> blank (ar_message request) \<or>
    Get (Some profiles) (trim_space (ar_profile request)) = None")
  case True
  then have "w' = w \<and> err \<noteq> None \<and> response = empty_agent_response"
    using assms by (auto simp: Invoke_def oryx_service_def Let_def split: if_splits option.splits)
  then show thesis using refused [of "[]"] by simp
next
  case False
  then obtain p where p: "trim_space (ar_profile request) \<noteq> []" "\<not> blank (ar_message request)"
    "Get (Some profiles) (trim_space (ar_profile request)) = Some p" by auto
  obtain current e w1 where r: "outside (ss_resolve sessions cx request (p_name p)) (\<lambda>_. EvSessionResolve (p_name p)) w
      = ((current, e), w1)" by (metis prod.collapse)
  have w1: "emitted w [EvSessionResolve (p_name p)] w1" using emitted_outside [OF r] .
  have rest: "(case safeRuntimeWrap (env_url_parse E) ''invoke agent: resolve session'' e of
      Some e \<Rightarrow> ((empty_agent_response, Some e), w1)
    | None \<Rightarrow> (case current of
        None \<Rightarrow> ((empty_agent_response, Some (Errorf ''invoke agent: session service returned an invalid session'')), w1)
      | Some s \<Rightarrow> if blank (s_id s)
          then ((empty_agent_response, Some (Errorf ''invoke agent: session service returned an invalid session'')), w1)
          else run_and_save E sessions (loop_port E loop) cx request p s w1)) = ((response, err), w')"
    using assms p by (simp add: Invoke_def oryx_service_def r Let_def)
  show thesis
  proof (cases "e = None \<and> (\<exists>s. current = Some s \<and> \<not> blank (s_id s))")
    case False
    obtain re where re: "safeRuntimeWrap (env_url_parse E) ''invoke agent: resolve session'' e = re" "re = None \<longleftrightarrow> e = None"
      by simp
    have "w' = w1 \<and> err \<noteq> None \<and> response = empty_agent_response"
      using rest [unfolded re(1)] re(2) False by (auto split: option.splits if_splits)
    then show thesis using refused w1 by blast
  next
    case True
    then show thesis using rest p w1 invoked by auto
  qed
qed

text \<open>The context of a run carries the names that its log records are found by.\<close>

definition run_context :: "goctx \<Rightarrow> session \<Rightarrow> profile \<Rightarrow> agent_request \<Rightarrow> goctx" where
  "run_context cx s p request = WithCorrelation cx ((CorrelationFromContext cx)
     \<lparr>co_session := s_id s, co_profile := p_name p, co_channel := ar_channel request\<rparr>)"

text \<open>What an invocation appends to the conversation: nothing, or the user's message and the rounds of a run.\<close>

definition appended :: "profile \<Rightarrow> agent_request \<Rightarrow> string \<Rightarrow> gerror option \<Rightarrow> message list \<Rightarrow> bool" where
  "appended p request content runErr new \<longleftrightarrow> new = [] \<and> runErr \<noteq> None \<or>
     (\<exists>k full rest. new = [text_message RoleUser (ar_message request)] @ full @ rest \<and> rounds k full \<and>
        cycle_end (nat (st_max_iterations (p_settings p))) k content runErr rest)"

lemma oryx_invoked:
  assumes "run_and_save E sessions (loop_port E (oryx_loop E L registry src lookup b)) cx request p s w = ((response, err), w')"
  obtains es content runErr saveErr new x where
    "emitted w (es @ [EvSessionSave (without_cancel (run_context cx s p request)) (s_id s) (s_messages s @ new)]) w'"
    "count is_session_event es = 0" "response = \<lparr>ap_session = s_id s, ap_content = content\<rparr>"
    "err = None \<longleftrightarrow> runErr = None \<and> saveErr = None"
    "fst (ss_save sessions (without_cancel (run_context cx s p request))
       \<lparr>s_id = s_id s, s_messages = s_messages s @ new\<rparr> x) = saveErr"
    "appended p request content runErr new"
    "count is_model_call es \<le> nat (st_max_iterations (p_settings p))" "guarded False es" "tools_allowed (p_tools p) es"
proof (rule oryx_run.run_and_save_once [OF assms])
  fix es content runErr saveErr new c w1 s1
  assume c: "c = (CorrelationFromContext cx)\<lparr>co_session := s_id s, co_profile := p_name p, co_channel := ar_channel request\<rparr>"
    and l: "loop_port E (oryx_loop E L registry src lookup b) (WithCorrelation cx c) s (ar_message request) p w
      = ((content, runErr), s1, w1)"
    and es: "emitted w es w1" "count is_session_event es = 0"
    and s1: "s_id s1 = s_id s" "s_messages s1 = s_messages s @ new"
    and out: "emitted w (es @ [EvSessionSave (without_cancel (WithCorrelation cx c)) (s_id s) (s_messages s @ new)]) w'"
      "response = \<lparr>ap_session = s_id s, ap_content = content\<rparr>" "err = None \<longleftrightarrow> runErr = None \<and> saveErr = None"
      "fst (ss_save sessions (without_cancel (WithCorrelation cx c)) s1 (w_ext w1)) = saveErr"
  have "s1 = \<lparr>s_id = s_id s, s_messages = s_messages s @ new\<rparr>" using s1 by simp
  note saved = out(4) [unfolded this c, folded run_context_def]
  note run = loop_port_run [OF l]
  have "appended p request content runErr new"
    using run unfolding oryx_loop_def
  proof (cases rule: Run_starts)
    case refused
    then show ?thesis using s1 by (auto simp: appended_def)
  next
    case (runs s2)
    from iterations_conversation [OF runs(5)] runs(4) s1 show ?thesis by (auto simp: appended_def)
  qed
  moreover have "count is_model_call es \<le> nat (st_max_iterations (p_settings p)) \<and> guarded False es \<and> tools_allowed (p_tools p) es"
    using oryx_loop_trace [OF run] emitted_unique [OF es(1)] by blast
  ultimately show thesis
    using that [OF out(1) [unfolded c, folded run_context_def] es(2) out(2,3) saved] by blast
qed

text \<open>
  C2.  One invocation, one save.  An invocation that is refused, before or after the session is looked up,
  makes no other outside call.  Every other one saves the session exactly once, as its last outside call,
  whether the run succeeded or failed, under a context that the caller's cancellation no longer reaches
  and that names the session, the Profile and the channel; what it saves is the conversation the session
  had with the user's message and whole rounds appended; and it reports no error exactly when the run and
  the save succeeded.
\<close>

theorem Invoke_saves_once:
  assumes run: "Invoke E (Some (oryx_service E profiles sessions (oryx_loop E L registry src lookup b))) (Some cx) request w
      = ((response, err), w')"
    and es: "emitted w es w'"
  shows "(es = [] \<or> (\<exists>n. es = [EvSessionResolve n])) \<and> err \<noteq> None \<and> response = empty_agent_response \<or>
    (\<exists>p s new content front runErr saveErr x.
       Get (Some profiles) (trim_space (ar_profile request)) = Some p \<and>
       es = EvSessionResolve (p_name p) # front @
         [EvSessionSave (without_cancel (run_context cx s p request)) (s_id s) (s_messages s @ new)] \<and>
       count is_session_event front = 0 \<and> response = \<lparr>ap_session = s_id s, ap_content = content\<rparr> \<and>
       (err = None \<longleftrightarrow> runErr = None \<and> saveErr = None) \<and>
       fst (ss_save sessions (without_cancel (run_context cx s p request))
         \<lparr>s_id = s_id s, s_messages = s_messages s @ new\<rparr> x) = saveErr \<and>
       (appended p request content runErr new))"
  using run
proof (cases rule: Invoke_cases)
  case (refused es')
  then show ?thesis using emitted_unique [OF es] by blast
next
  case (invoked p s w1)
  show ?thesis
  proof (rule oryx_invoked [OF invoked(5)])
    fix front content runErr saveErr new y
    assume x: "emitted w1 (front @ [EvSessionSave (without_cancel (run_context cx s p request)) (s_id s) (s_messages s @ new)]) w'"
      "count is_session_event front = 0" "response = \<lparr>ap_session = s_id s, ap_content = content\<rparr>"
      "err = None \<longleftrightarrow> runErr = None \<and> saveErr = None"
      "fst (ss_save sessions (without_cancel (run_context cx s p request))
        \<lparr>s_id = s_id s, s_messages = s_messages s @ new\<rparr> y) = saveErr"
      "appended p request content runErr new"
    have "es = EvSessionResolve (p_name p) # front @
        [EvSessionSave (without_cancel (run_context cx s p request)) (s_id s) (s_messages s @ new)]"
      using emitted_unique [OF es emitted_trans [OF invoked(2) x(1)]] by simp
    with invoked(1) x(2-6) show ?thesis by blast
  qed
qed

text \<open>
  C1.  End to end.  Whatever the model and the Tools do, one invocation for a Profile makes at most as many
  model calls as the Profile has iterations, invokes only Tools that the Profile names, and invokes none
  unless the model call before it has a success row in the database.
\<close>

theorem Invoke_guarded:
  assumes run: "Invoke E (Some (oryx_service E profiles sessions (oryx_loop E L registry src lookup b))) (Some cx) request w
      = ((response, err), w')"
    and es: "emitted w es w'"
    and p: "Get (Some profiles) (trim_space (ar_profile request)) = Some p"
  shows "count is_model_call es \<le> nat (st_max_iterations (p_settings p)) \<and> guarded False es \<and> tools_allowed (p_tools p) es"
  using run
proof (cases rule: Invoke_cases)
  case (refused es')
  then have "es = [] \<or> (\<exists>n. es = [EvSessionResolve n])" using emitted_unique [OF es] by blast
  then show ?thesis by (auto simp: tools_allowed_def)
next
  case (invoked p' s w1)
  then have "p' = p" using p by simp
  note run_p = invoked(5) [unfolded this]
  show ?thesis
  proof (rule oryx_invoked [OF run_p])
    fix front content runErr saveErr new
    assume x: "emitted w1 (front @ [EvSessionSave (without_cancel (run_context cx s p request)) (s_id s) (s_messages s @ new)]) w'"
      "count is_model_call front \<le> nat (st_max_iterations (p_settings p))" "guarded False front" "tools_allowed (p_tools p) front"
    have "es = [EvSessionResolve (p_name p')] @ front @
        [EvSessionSave (without_cancel (run_context cx s p request)) (s_id s) (s_messages s @ new)]"
      using emitted_unique [OF es emitted_trans [OF invoked(2) x(1)]] by simp
    then show ?thesis using x(2-4) by (simp add: tools_allowed_def)
  qed
qed

section \<open>Examples\<close>

definition demo_profiles :: profile_registry where
  "demo_profiles = newRegistry [(''main'', demo_profile)] [''main'']"

definition demo_sessions :: "nat session_service" where
  "demo_sessions = \<lparr>ss_resolve = (\<lambda>cx request name x. ((Some demo_session, None), x)), ss_save = (\<lambda>cx s x. (None, x))\<rparr>"

definition demo_request :: agent_request where
  "demo_request = \<lparr>ar_profile = ''main'', ar_channel = ''cli'', ar_user = ''u'', ar_session = ''s1'', ar_message = ''hi'',
     ar_stateless = False\<rparr>"

definition demo_invocation :: "(agent_response \<times> gerror option) \<times> nat wld" where
  "demo_invocation = Invoke demo_env (Some (oryx_service demo_env demo_profiles demo_sessions
     (oryx_loop demo_env demo_eino demo_models demo_source demo_lookup demo_builder))) (Some demo_ctx) demo_request demo_world"

lemma demo_invocation_eq:
  "Invoke demo_env (Some (oryx_service demo_env demo_profiles demo_sessions
     (oryx_loop demo_env demo_eino demo_models demo_source demo_lookup demo_builder))) (Some demo_ctx) demo_request demo_world
   = ((fst (fst demo_invocation), snd (fst demo_invocation)), snd demo_invocation)"
  by (simp add: demo_invocation_def)

lemma demo_found: "Get (Some demo_profiles) (trim_space (ar_profile demo_request)) = Some demo_profile"
  by (simp add: Get_def demo_profiles_def newRegistry_def demo_request_def demo_trims)

theorem Invoke_guarded_witness:
  "count is_model_call (w_trace (snd demo_invocation)) \<le> 10 \<and> guarded False (w_trace (snd demo_invocation))"
  using Invoke_guarded [OF demo_invocation_eq emitted_demo [OF refl] demo_found] by simp

theorem Invoke_saves_once_witness:
  "count is_session_event (w_trace (snd demo_invocation)) \<le> 2"
  using Invoke_saves_once [OF demo_invocation_eq emitted_demo [OF refl]] by auto

end
