(* ===== verification/Pagination.thy ===== *)
theory Pagination
  imports Domain "HOL-Library.Word" "HOL-Library.Signed_Division"
begin

text \<open>
  internal/web/api/pagination.go and time.go: the query parameters of a page, read into a 64-bit
  register, and the number of pages.
\<close>

unbundle bit_operations_syntax

section \<open>Reading a query parameter\<close>

definition defaultPage :: int where "defaultPage = 1"
definition defaultPageSize :: int where "defaultPageSize = 20"
definition maxPage :: int where "maxPage = 10000"
definition maxPageSize :: int where "maxPageSize = 100"

text \<open>\<open>url.Values\<close> and a \<open>map[string]any\<close> of details, keyed lists.\<close>

type_synonym url_values = "(string \<times> string list) list"
type_synonym details = "(string \<times> any) list"

definition paginationDetails :: "string \<Rightarrow> string \<Rightarrow> details" where
  "paginationDetails field rule = [(''field'', AString field), (''rule'', AString rule)]"

definition isUnsignedDecimal :: "string \<Rightarrow> bool" where
  "isUnsignedDecimal value \<longleftrightarrow> list_all (\<lambda>c. 0x30 \<le> byte c \<and> byte c \<le> 0x39) value"

text \<open>The loop over the digits; \<open>None\<close> when the next step would not fit 64 bits.\<close>

fun parse_digits :: "string \<Rightarrow> 64 word \<Rightarrow> 64 word option" where
  "parse_digits [] parsed = Some parsed"
| "parse_digits (c # cs) parsed =
     (let digit = word_of_nat (byte c - 0x30) in
      if (NOT 0 - digit) div 10 < parsed then None
      else parse_digits cs (parsed * 10 + digit))"

definition parsePaginationValue :: "url_values \<Rightarrow> string \<Rightarrow> int \<Rightarrow> int \<Rightarrow> details + int" where
  "parsePaginationValue values field defaultValue maximum = (case map_of values field of
     None \<Rightarrow> Inr defaultValue
   | Some raw \<Rightarrow>
       if length raw \<noteq> 1 then Inl (paginationDetails field ''duplicate'')
       else let value = hd raw in
         if value = [] \<or> \<not> isUnsignedDecimal value then Inl (paginationDetails field ''invalid_format'')
         else (case parse_digits value 0 of
             None \<Rightarrow> Inl (paginationDetails field ''out_of_range'')
           | Some parsed \<Rightarrow>
               if parsed = 0 \<or> word_of_int maximum < parsed then Inl (paginationDetails field ''out_of_range'')
               else Inr (sint parsed)))"

definition parsePagination :: "url_values \<Rightarrow> details + int \<times> int" where
  "parsePagination values = (case parsePaginationValue values ''page'' defaultPage maxPage of
     Inl details \<Rightarrow> Inl details
   | Inr page \<Rightarrow> (case parsePaginationValue values ''page_size'' defaultPageSize maxPageSize of
       Inl details \<Rightarrow> Inl details
     | Inr pageSize \<Rightarrow> Inr (page, pageSize)))"

section \<open>Pages\<close>

text \<open>\<open>Items\<close> is \<open>None\<close> for a nil slice.\<close>

record 'i page_result =
  pg_items :: "'i list option"
  pg_page :: int
  pg_page_size :: int
  pg_total :: int
  pg_total_pages :: int

definition validPage :: "'i page_result \<Rightarrow> bool" where
  "validPage page \<longleftrightarrow> 1 \<le> pg_page page \<and> pg_page page \<le> maxPage \<and> 1 \<le> pg_page_size page \<and>
     pg_page_size page \<le> maxPageSize \<and> 0 \<le> pg_total page"

text \<open>Both divisions truncate towards zero.\<close>

definition totalPages :: "int \<Rightarrow> int \<Rightarrow> int" where
  "totalPages tot pageSize =
     (let pages = tot sdiv pageSize in if tot smod pageSize \<noteq> 0 then pages + 1 else pages)"

definition FormatTimeUTC :: "gotime \<Rightarrow> string" where
  "FormatTimeUTC t = format_rfc3339 (to_utc t)"

section \<open>The register holds the number\<close>

definition decimal :: "string \<Rightarrow> nat \<Rightarrow> nat" where
  "decimal cs n = foldl (\<lambda>n c. n * 10 + (byte c - 0x30)) n cs"

lemma decimal_simps [simp]: "decimal [] n = n" "decimal (c # cs) n = decimal cs (n * 10 + (byte c - 0x30))"
  by (simp_all add: decimal_def)

lemma decimal_mono: "n \<le> decimal cs n"
proof (induction cs arbitrary: n)
  case (Cons c cs)
  have "n \<le> n * 10 + (byte c - 0x30)" by simp
  also have "\<dots> \<le> decimal cs (n * 10 + (byte c - 0x30))" by (rule Cons)
  finally show ?case by simp
qed simp

lemma digit_guard:
  assumes "d \<le> 9"
  shows "(NOT 0 - word_of_nat d) div 10 < (parsed :: 64 word) \<longleftrightarrow> 2 ^ 64 \<le> unat parsed * 10 + d"
    and "unat parsed * 10 + d < 2 ^ 64 \<Longrightarrow> unat (parsed * 10 + word_of_nat d) = unat parsed * 10 + d"
proof -
  have d: "unat (word_of_nat d :: 64 word) = d" using assms by (simp add: unat_of_nat)
  have top: "unat (NOT (0::64 word)) = 2 ^ 64 - 1" by (simp add: unsigned_minus_1_eq_mask mask_eq_exp_minus_1)
  have "(word_of_nat d :: 64 word) \<le> NOT 0" by (simp only: word_le_nat_alt d top) (use assms in simp)
  then have "unat (NOT 0 - word_of_nat d :: 64 word) = 2 ^ 64 - 1 - d" by (simp only: unat_sub top d)
  then have "unat ((NOT 0 - word_of_nat d :: 64 word) div 10) = (2 ^ 64 - 1 - d) div 10" by (simp add: unat_div)
  then show "(NOT 0 - word_of_nat d) div 10 < (parsed :: 64 word) \<longleftrightarrow> 2 ^ 64 \<le> unat parsed * 10 + d"
    using assms by (simp add: word_less_nat_alt) linarith
  assume small: "unat parsed * 10 + d < 2 ^ 64"
  then have "unat (parsed * 10) = unat parsed * 10" by (simp add: unat_word_ariths)
  then show "unat (parsed * 10 + word_of_nat d) = unat parsed * 10 + d"
    using small by (simp add: unat_word_ariths d)
qed

lemma parse_digits_decimal:
  assumes "isUnsignedDecimal cs"
  shows "parse_digits cs parsed =
    (if decimal cs (unat parsed) < 2 ^ 64 then Some (word_of_nat (decimal cs (unat parsed))) else None)"
  using assms
proof (induction cs arbitrary: parsed)
  case Nil
  then show ?case using unsigned_less [of parsed] by simp
next
  case (Cons c cs)
  let ?d = "byte c - 0x30"
  have d: "?d \<le> 9" and cs: "isUnsignedDecimal cs" using Cons.prems by (auto simp: isUnsignedDecimal_def)
  show ?case
  proof (cases "2 ^ 64 \<le> unat parsed * 10 + ?d")
    case True
    then have "2 ^ 64 \<le> decimal cs (unat parsed * 10 + ?d)" using decimal_mono le_trans by blast
    moreover have "parse_digits (c # cs) parsed = None"
      using True digit_guard(1) [OF d, of parsed] by (simp add: Let_def)
    ultimately show ?thesis by simp
  next
    case False
    then have "parse_digits (c # cs) parsed = parse_digits cs (parsed * 10 + word_of_nat ?d)"
      using digit_guard(1) [OF d, of parsed] by (simp add: Let_def)
    then show ?thesis using Cons.IH [OF cs] digit_guard(2) [OF d, of parsed] False by simp
  qed
qed

text \<open>
  C36.  A page parameter is exact.  A parameter that is present is accepted exactly when it is given once,
  as decimal digits whose number, however long, lies between 1 and the maximum; then the result is that
  number.  The register never wraps around into the range.
\<close>

theorem parsePaginationValue_exact:
  assumes "0 < maximum" "maximum < 2 ^ 63"
  shows "parsePaginationValue values field defaultValue maximum = Inr n \<longleftrightarrow>
    (case map_of values field of
       None \<Rightarrow> n = defaultValue
     | Some raw \<Rightarrow> \<exists>value. raw = [value] \<and> value \<noteq> [] \<and> isUnsignedDecimal value \<and>
         n = int (decimal value 0) \<and> 1 \<le> n \<and> n \<le> maximum)"
proof (cases "\<exists>value. map_of values field = Some [value] \<and> value \<noteq> [] \<and> isUnsignedDecimal value")
  case False
  then show ?thesis
    by (auto simp: parsePaginationValue_def Let_def length_Suc_conv split: option.splits)
next
  case True
  then obtain ds where v: "map_of values field = Some [ds]" "ds \<noteq> []" "isUnsignedDecimal ds" by blast
  let ?n = "decimal ds 0"
  have parsed: "parse_digits ds 0 = (if ?n < 2 ^ 64 then Some (word_of_nat ?n) else None)"
    using parse_digits_decimal [OF v(3), of 0] by simp
  have unat_max: "unat (word_of_int maximum :: 64 word) = nat maximum"
    using assms by (simp add: unat_eq_nat_uint uint_word_of_int)
  show ?thesis
  proof (cases "?n < 2 ^ 64")
    case small: True
    have u: "unat (word_of_nat ?n :: 64 word) = ?n" using small by (simp add: unat_of_nat)
    then have zero: "(word_of_nat ?n :: 64 word) = 0 \<longleftrightarrow> ?n = 0" by (metis unat_0 unat_eq_zero)
    have le: "(word_of_int maximum :: 64 word) < word_of_nat ?n \<longleftrightarrow> maximum < int ?n"
      using assms by (simp only: word_less_nat_alt u unat_max) linarith
    have "sint (word_of_nat ?n :: 64 word) = int ?n" if "int ?n \<le> maximum"
    proof -
      have "int ?n < 2 ^ 63" using that assms by simp
      then show ?thesis by (simp add: signed_of_nat signed_take_bit_int_eq_self)
    qed
    then show ?thesis using v parsed small zero le
      by (auto simp: parsePaginationValue_def Let_def)
  next
    case False
    then have "maximum < int ?n" using assms by simp
    then show ?thesis using v parsed False by (auto simp: parsePaginationValue_def Let_def)
  qed
qed

text \<open>
  The number of pages.  For a valid page it is the least number of pages of that size that hold all
  items; it is at most the number of items, so that it fits 64 bits when that does.
\<close>

theorem totalPages_least:
  assumes "validPage page"
  shows "pg_total page \<le> totalPages (pg_total page) (pg_page_size page) * pg_page_size page \<and>
    (\<forall>k. pg_total page \<le> k * pg_page_size page \<longrightarrow> totalPages (pg_total page) (pg_page_size page) \<le> k) \<and>
    0 \<le> totalPages (pg_total page) (pg_page_size page) \<and>
    totalPages (pg_total page) (pg_page_size page) \<le> pg_total page"
proof -
  let ?t = "pg_total page" and ?s = "pg_page_size page"
  have s: "0 < ?s" "0 \<le> ?t" using assms by (simp_all add: validPage_def)
  have div: "?t sdiv ?s = ?t div ?s" "?t smod ?s = ?t mod ?s"
    using s by (simp_all add: signed_divide_int_def signed_modulo_int_def sgn_if minus_div_mult_eq_mod)
  have eq: "?t = ?s * (?t div ?s) + ?t mod ?s" by simp
  have m: "0 \<le> ?t mod ?s" "?t mod ?s < ?s" using s by simp_all
  have "?t * 1 \<le> ?t * ?s" using s by (intro mult_left_mono) simp_all
  then have enough: "?t \<le> ?t * ?s" by simp
  show ?thesis
  proof (cases "?t mod ?s = 0")
    case True
    then have p: "totalPages ?t ?s = ?t div ?s" by (simp add: totalPages_def div)
    have e: "?t = ?s * (?t div ?s)" using eq True by simp
    have least: "?t div ?s \<le> k" if "?t \<le> k * ?s" for k
      using that s zdiv_mono1 [of ?t "k * ?s" ?s] by simp
    have "?t div ?s \<le> ?t" using least [OF enough] .
    then show ?thesis using p e least s by (simp add: mult.commute pos_imp_zdiv_nonneg_iff)
  next
    case False
    then have p: "totalPages ?t ?s = ?t div ?s + 1" by (simp add: totalPages_def div)
    have "(?t div ?s + 1) * ?s = ?s * (?t div ?s) + ?s" by (simp add: algebra_simps)
    then have e: "?t \<le> (?t div ?s + 1) * ?s" using eq m(2) by linarith
    have least: "?t div ?s + 1 \<le> k" if "?t \<le> k * ?s" for k
    proof (rule ccontr)
      assume "\<not> ?t div ?s + 1 \<le> k"
      then have "k * ?s \<le> (?t div ?s) * ?s" using s by simp
      moreover have "0 < ?t mod ?s" using m(1) False by linarith
      moreover have "(?t div ?s) * ?s = ?s * (?t div ?s)" by (rule mult.commute)
      ultimately show False using that eq by linarith
    qed
    have "?t div ?s + 1 \<le> ?t" using least [OF enough] .
    then show ?thesis using p e least s by (simp add: pos_imp_zdiv_nonneg_iff)
  qed
qed

theorem parsePaginationValue_exact_witness:
  "parsePaginationValue [(''page'', [''42''])] ''page'' defaultPage maxPage = Inr 42"
proof -
  have bounds: "0 < maxPage" "maxPage < 2 ^ 63" by (simp_all add: maxPage_def)
  show ?thesis
    by (subst parsePaginationValue_exact [OF bounds]) (simp add: isUnsignedDecimal_def maxPage_def)
qed

theorem totalPages_least_witness:
  "41 \<le> totalPages 41 20 * 20 \<and> totalPages 41 20 \<le> 3"
proof -
  let ?page = "\<lparr>pg_items = None, pg_page = 1, pg_page_size = 20, pg_total = 41, pg_total_pages = 0\<rparr> :: unit page_result"
  have "validPage ?page" by (simp add: validPage_def maxPage_def maxPageSize_def)
  from totalPages_least [OF this] show ?thesis by auto
qed

end
