(* ===== verification/Http_Observer.thy ===== *)
theory Http_Observer
  imports Observability Paths "HOL-Library.Product_Lexorder"
begin

text \<open>
  internal/observability/observer.go: readiness and per-route counters behind a mutex, so each operation
  is one step.  A \<open>uint64\<close> counter and an \<open>int64\<close> duration are 64-bit words, whose
  addition wraps.
\<close>

section \<open>The observer\<close>

type_synonym http_request_key = "string \<times> string \<times> int"

record http_request_snapshot =
  hr_method :: string
  hr_route :: string
  hr_status :: int
  hr_count :: "64 word"
  hr_duration :: "64 word"

record observer =
  ob_ready :: bool
  ob_requests :: "(http_request_key \<times> http_request_snapshot) list"

record observer_snapshot =
  os_ready :: bool
  os_requests :: "http_request_snapshot list"

definition NewObserver :: observer where
  "NewObserver = \<lparr>ob_ready = False, ob_requests = []\<rparr>"

definition zero_request :: http_request_snapshot where
  "zero_request = \<lparr>hr_method = [], hr_route = [], hr_status = 0, hr_count = 0, hr_duration = 0\<rparr>"

definition ObserveHTTP :: "string \<Rightarrow> string \<Rightarrow> int \<Rightarrow> duration \<Rightarrow> observer \<Rightarrow> observer" where
  "ObserveHTTP meth route status elapsed ob =
     (let key = (meth, route, status);
          request = (case map_of (ob_requests ob) key of None \<Rightarrow> zero_request | Some r \<Rightarrow> r);
          request = request\<lparr>hr_method := meth, hr_route := route, hr_status := status,
            hr_count := hr_count request + 1, hr_duration := hr_duration request + word_of_int elapsed\<rparr>
      in ob\<lparr>ob_requests := put key request (ob_requests ob)\<rparr>)"

definition SetReady :: "bool \<Rightarrow> observer \<Rightarrow> observer" where
  "SetReady ready ob = ob\<lparr>ob_ready := ready\<rparr>"

definition request_key :: "http_request_snapshot \<Rightarrow> http_request_key" where
  "request_key r = (hr_method r, hr_route r, hr_status r)"

text \<open>The map's order does not matter: its keys are sorted, by method, route and status.\<close>

definition Observer_Snapshot :: "observer \<Rightarrow> observer_snapshot" where
  "Observer_Snapshot ob = \<lparr>os_ready = ob_ready ob, os_requests = sort_key request_key (map snd (ob_requests ob))\<rparr>"

lemma distinct_key_sort: "distinct (map f xs) \<Longrightarrow> distinct (map f (sort_key f xs))"
  by (simp add: distinct_map)

section \<open>The counters count\<close>

datatype observation = Observed string string int duration | Readiness bool

fun observe :: "observation \<Rightarrow> observer \<Rightarrow> observer" where
  "observe (Observed m r s d) ob = ObserveHTTP m r s d ob"
| "observe (Readiness b) ob = SetReady b ob"

fun of_key :: "http_request_key \<Rightarrow> observation \<Rightarrow> bool" where
  "of_key k (Observed m r s d) = (k = (m, r, s))"
| "of_key k (Readiness b) = False"

fun elapsed :: "observation \<Rightarrow> duration" where
  "elapsed (Observed m r s d) = d"
| "elapsed (Readiness b) = 0"

definition aggregate :: "observation list \<Rightarrow> http_request_key \<Rightarrow> http_request_snapshot" where
  "aggregate es k = (case k of (m, r, s) \<Rightarrow> \<lparr>hr_method = m, hr_route = r, hr_status = s,
     hr_count = of_nat (length (filter (of_key k) es)),
     hr_duration = word_of_int (sum_list (map elapsed (filter (of_key k) es)))\<rparr>)"

definition counted :: "observation list \<Rightarrow> observer \<Rightarrow> bool" where
  "counted es ob \<longleftrightarrow> distinct (map fst (ob_requests ob)) \<and>
     (\<forall>k. map_of (ob_requests ob) k = (if filter (of_key k) es = [] then None else Some (aggregate es k)))"

lemma counted_new: "counted [] NewObserver"
  by (simp add: counted_def NewObserver_def)

lemma counted_observe:
  assumes "counted es ob"
  shows "counted (es @ [e]) (observe e ob)"
proof (cases e)
  case (Readiness b)
  then show ?thesis using assms by (simp add: counted_def SetReady_def aggregate_def)
next
  case (Observed m r s d)
  let ?k = "(m, r, s)"
  let ?old = "case map_of (ob_requests ob) ?k of None \<Rightarrow> zero_request | Some r \<Rightarrow> r"
  have old: "hr_count ?old = of_nat (length (filter (of_key ?k) es))"
      "hr_duration ?old = word_of_int (sum_list (map elapsed (filter (of_key ?k) es)))"
    using assms by (auto simp: counted_def zero_request_def aggregate_def)
  have new: "ob_requests (observe e ob) = put ?k (aggregate (es @ [e]) ?k) (ob_requests ob)"
  proof -
    have upd: "x\<lparr>hr_method := m, hr_route := r, hr_status := s, hr_count := c, hr_duration := t\<rparr>
        = \<lparr>hr_method = m, hr_route = r, hr_status = s, hr_count = c, hr_duration = t\<rparr>" for x :: http_request_snapshot and c t
      by (cases x) simp
    show ?thesis
      by (simp only: Observed observe.simps ObserveHTTP_def Let_def upd old) (simp add: aggregate_def add.commute)
  qed
  have ek: "of_key k e \<longleftrightarrow> k = ?k" for k by (simp add: Observed)
  have other: "aggregate (es @ [e]) k = aggregate es k" if "k \<noteq> ?k" for k
    using that by (simp add: ek aggregate_def)
  show ?thesis
    unfolding counted_def new
  proof (intro conjI allI)
    show "distinct (map fst (put ?k (aggregate (es @ [e]) ?k) (ob_requests ob)))"
      using assms by (simp add: counted_def distinct_put)
    fix k
    have "map_of (ob_requests ob) k = (if filter (of_key k) es = [] then None else Some (aggregate es k))"
      using assms unfolding counted_def by blast
    then show "map_of (put ?k (aggregate (es @ [e]) ?k) (ob_requests ob)) k =
        (if filter (of_key k) (es @ [e]) = [] then None else Some (aggregate (es @ [e]) k))"
      using other [of k] by (simp add: ek)
  qed
qed

lemma counted_fold: "counted es ob \<Longrightarrow> counted (es @ es') (fold observe es' ob)"
proof (induction es' arbitrary: es ob)
  case (Cons e es')
  from Cons.IH [OF counted_observe [OF Cons.prems]] show ?case by simp
qed simp

text \<open>
  C39.  The observer counts.  After any sequence of observations and readiness changes, the snapshot has one
  entry for every method, route and status that was observed and for no other, in their order; its count
  is the number of these observations and its duration their sum, both modulo 2 to the 64th.
\<close>

theorem Snapshot_counts:
  "distinct (map request_key (os_requests (Observer_Snapshot (fold observe es NewObserver)))) \<and>
   sorted (map request_key (os_requests (Observer_Snapshot (fold observe es NewObserver)))) \<and>
   set (os_requests (Observer_Snapshot (fold observe es NewObserver))) =
     aggregate es ` {k. filter (of_key k) es \<noteq> []}"
proof -
  let ?ob = "fold observe es NewObserver"
  have c: "counted es ?ob" using counted_fold [OF counted_new, of es] by simp
  have key: "request_key (aggregate es k) = k" for k
    by (simp add: aggregate_def request_key_def split: prod.splits)
  have entry: "v = aggregate es k \<and> filter (of_key k) es \<noteq> []" if "(k, v) \<in> set (ob_requests ?ob)" for k v
  proof -
    have "map_of (ob_requests ?ob) k = Some v" using that c unfolding counted_def by (blast intro: map_of_is_SomeI)
    moreover have "map_of (ob_requests ?ob) k = (if filter (of_key k) es = [] then None else Some (aggregate es k))"
      using c unfolding counted_def by blast
    ultimately show ?thesis by (metis option.distinct(1) option.inject)
  qed
  have "request_key v = k" if "(k, v) \<in> set (ob_requests ?ob)" for k v
    using entry [OF that] key [of k] by simp
  then have "map (request_key \<circ> snd) (ob_requests ?ob) = map fst (ob_requests ?ob)"
    by (intro map_cong [OF refl]) auto
  then have "map request_key (map snd (ob_requests ?ob)) = map fst (ob_requests ?ob)" by simp
  then have "distinct (map request_key (map snd (ob_requests ?ob)))"
    using c by (simp only: counted_def)
  then have "distinct (map request_key (sort_key request_key (map snd (ob_requests ?ob))))"
    by (rule distinct_key_sort)
  moreover have "set (map snd (ob_requests ?ob)) = aggregate es ` {k. filter (of_key k) es \<noteq> []}"
  proof (intro set_eqI iffI)
    fix v assume "v \<in> aggregate es ` {k. filter (of_key k) es \<noteq> []}"
    then obtain k where "v = aggregate es k" "filter (of_key k) es \<noteq> []" by blast
    moreover have "map_of (ob_requests ?ob) k = (if filter (of_key k) es = [] then None else Some (aggregate es k))"
      using c unfolding counted_def by blast
    ultimately have "map_of (ob_requests ?ob) k = Some v" by metis
    then show "v \<in> set (map snd (ob_requests ?ob))" by (force dest: map_of_SomeD)
  qed (use entry in force)
  ultimately show ?thesis by (simp add: Observer_Snapshot_def)
qed

end
