(* ===== verification/Web_Api.thy ===== *)
theory Web_Api
  imports Pagination Http_Observer Demo
begin

text \<open>
  internal/web/api/result.go, internal/web/middleware and internal/web/handlers.go: the response envelope,
  the chain of middleware around every handler, and the two handlers of the foundation server.  The
  router, the writer and the JSON encoder of the gin library are outside: a request is the context
  record below, whose fields are what the library keeps and the sources read or set.
\<close>

section \<open>The context of one request\<close>

record 'd envelope =
  ev_code :: string
  ev_message :: string
  ev_data :: "'d option"
  ev_details :: "details option"
  ev_request_id :: string

text \<open>
  \<open>hc_ctx\<close> is the context of the request, \<open>None\<close> for a nil request; \<open>hc_response\<close> is what
  \<open>c.JSON\<close> wrote.  The n-th reading of 16 random bytes gives \<open>hc_random n\<close>, \<open>None\<close> when
  it fails; the n-th reading of the clock gives \<open>hc_clock n\<close>.
\<close>

record 'd http_context =
  hc_ctx :: "goctx option"
  hc_request_id :: string
  hc_method :: string
  hc_route :: string
  hc_body_limit :: "int option"
  hc_has_body :: bool
  hc_headers :: "(string \<times> string) list"
  hc_written :: bool
  hc_status :: int
  hc_response :: "(int \<times> 'd envelope) option"
  hc_aborted :: bool
  hc_random :: "nat \<Rightarrow> string option"
  hc_reads :: nat
  hc_clock :: "nat \<Rightarrow> gotime"
  hc_ticks :: nat
  hc_observer :: observer
  hc_log :: "(string \<times> (string \<times> any) list) list"

text \<open>A handler returns or panics; either way it leaves a context.\<close>

datatype 'c go_result = Returned (left: 'c) | Panicked (left: 'c)

definition request_context :: "'d http_context \<Rightarrow> goctx" where
  "request_context c = (case hc_ctx c of None \<Rightarrow> background | Some cx \<Rightarrow> cx)"

section \<open>Request identifiers\<close>

definition EncodeToString :: "string \<Rightarrow> string" where
  "EncodeToString bytes = concat (map (\<lambda>b. hex 2 (byte b)) bytes)"

definition read_random :: "'d http_context \<Rightarrow> string option \<times> 'd http_context" where
  "read_random c = (hc_random c (hc_reads c), c\<lparr>hc_reads := Suc (hc_reads c)\<rparr>)"

definition emergencyRequestIDFrom :: "string option \<Rightarrow> string option" where
  "emergencyRequestIDFrom bytes = map_option (\<lambda>bs. ''req_'' @ EncodeToString bs) bytes"

definition newRequestID :: "string option \<Rightarrow> string option" where
  "newRequestID bytes = map_option (\<lambda>bs. ''req_'' @ EncodeToString bs) bytes"

definition id_character :: "char \<Rightarrow> bool" where
  "id_character c \<longleftrightarrow> (byte c \<ge> 0x61 \<and> byte c \<le> 0x7A) \<or> (byte c \<ge> 0x41 \<and> byte c \<le> 0x5A) \<or>
     (byte c \<ge> 0x30 \<and> byte c \<le> 0x39) \<or> c = CHR ''.'' \<or> c = CHR ''_'' \<or> c = CHR ''-''"

definition validRequestID :: "string \<Rightarrow> bool" where
  "validRequestID v \<longleftrightarrow> length v \<noteq> 0 \<and> length v \<le> 128 \<and> list_all id_character v"

text \<open>\<open>None\<close> is the panic of a random source that fails.\<close>

definition ensureRequestID :: "'d http_context \<Rightarrow> string option \<times> 'd http_context" where
  "ensureRequestID c =
     (let cx = request_context c; correlation = CorrelationFromContext cx in
      if co_request correlation \<noteq> [] then (Some (co_request correlation), c)
      else let (bytes, c1) = read_random c in
        (case emergencyRequestIDFrom bytes of
           None \<Rightarrow> (None, c1)
         | Some requestID \<Rightarrow>
             (Some requestID,
              (if hc_ctx c = None then c1
               else c1\<lparr>hc_ctx := Some (WithCorrelation cx (correlation\<lparr>co_request := requestID\<rparr>))\<rparr>))))"

section \<open>The envelope\<close>

definition errorDescriptors :: "(int \<times> (string \<times> string) list) list" where
  "errorDescriptors =
     [(400, [(''invalid_request'', ''invalid request''), (''invalid_argument'', ''invalid argument'')]),
      (404, [(''not_found'', ''not found'')]),
      (405, [(''method_not_allowed'', ''method not allowed'')]),
      (409, [(''conflict'', ''conflict'')]),
      (413, [(''payload_too_large'', ''payload too large'')]),
      (429, [(''rate_limited'', ''rate limited'')]),
      (500, [(''internal'', ''internal server error'')]),
      (501, [(''not_implemented'', ''not implemented'')]),
      (503, [(''not_ready'', ''service not ready'')])]"

definition detailRules :: "string list" where
  "detailRules = [''required'', ''invalid_format'', ''out_of_range'', ''duplicate'', ''too_large'']"

text \<open>The expression \<open>^[a-z][a-z0-9_]{0,63}$\<close>.\<close>

definition detailFieldPattern :: "string \<Rightarrow> bool" where
  "detailFieldPattern s = (case s of
     [] \<Rightarrow> False
   | c # cs \<Rightarrow> byte c \<ge> 0x61 \<and> byte c \<le> 0x7A \<and> length cs \<le> 63 \<and>
       list_all (\<lambda>c. (byte c \<ge> 0x61 \<and> byte c \<le> 0x7A) \<or> (byte c \<ge> 0x30 \<and> byte c \<le> 0x39) \<or> c = CHR ''_'') cs)"

definition validSuccessDescriptor :: "int \<Rightarrow> string \<Rightarrow> string \<Rightarrow> bool" where
  "validSuccessDescriptor status code message \<longleftrightarrow>
     (status = 200 \<and> code = ''ok'' \<and> message = ''ok'') \<or> (status = 201 \<and> code = ''created'' \<and> message = ''created'')"

definition validErrorDescriptor :: "int \<Rightarrow> string \<Rightarrow> string \<Rightarrow> bool" where
  "validErrorDescriptor status code message = (case map_of errorDescriptors status of
     None \<Rightarrow> False
   | Some messages \<Rightarrow> map_of messages code = Some message)"

text \<open>A map has its keys once, so its size is the length of the list.\<close>

definition validateDetails :: "details option \<Rightarrow> details option \<times> bool" where
  "validateDetails ds = (case ds of
     None \<Rightarrow> (None, True)
   | Some m \<Rightarrow>
       if length m \<noteq> 2 then (None, False)
       else (case (map_of m ''field'', map_of m ''rule'') of
           (Some (AString field), Some (AString rule)) \<Rightarrow>
             if \<not> detailFieldPattern field then (None, False)
             else if rule \<notin> set detailRules then (None, False)
             else (Some [(''field'', AString field), (''rule'', AString rule)], True)
         | _ \<Rightarrow> (None, False)))"

definition write_result :: "int \<Rightarrow> 'd envelope \<Rightarrow> 'd http_context \<Rightarrow> 'd http_context go_result" where
  "write_result status result c =
     (if hc_written c then Returned c
      else let (requestID, c1) = ensureRequestID c in
        (case requestID of
           None \<Rightarrow> Panicked c1
         | Some requestID \<Rightarrow>
             Returned (c1\<lparr>hc_headers := put ''X-Request-ID'' requestID (hc_headers c1), hc_written := True,
               hc_status := status, hc_response := Some (status, result\<lparr>ev_request_id := requestID\<rparr>)\<rparr>)))"

definition result_of :: "string \<Rightarrow> string \<Rightarrow> 'd option \<Rightarrow> details option \<Rightarrow> 'd envelope" where
  "result_of code message d ds =
     \<lparr>ev_code = code, ev_message = message, ev_data = d, ev_details = ds, ev_request_id = []\<rparr>"

definition writeInternalFallback :: "'d http_context \<Rightarrow> 'd http_context go_result" where
  "writeInternalFallback = write_result 500 (result_of ''internal'' ''internal server error'' None None)"

definition Success :: "int \<Rightarrow> string \<Rightarrow> string \<Rightarrow> 'd \<Rightarrow> 'd http_context \<Rightarrow> 'd http_context go_result" where
  "Success status code message d c =
     (if \<not> validSuccessDescriptor status code message then writeInternalFallback c
      else write_result status (result_of code message (Some d) None) c)"

definition Page :: "int \<Rightarrow> string \<Rightarrow> string \<Rightarrow> 'i page_result \<Rightarrow> 'i page_result http_context
    \<Rightarrow> 'i page_result http_context go_result" where
  "Page status code message page c =
     (if \<not> validSuccessDescriptor status code message \<or> status \<noteq> 200 \<or> \<not> validPage page then writeInternalFallback c
      else
        (let page1 = (if pg_items page = None then page\<lparr>pg_items := Some []\<rparr> else page);
             page2 = page1\<lparr>pg_total_pages := totalPages (pg_total page1) (pg_page_size page1)\<rparr>
         in write_result status (result_of code message (Some page2) None) c))"

definition Error :: "int \<Rightarrow> string \<Rightarrow> string \<Rightarrow> details option \<Rightarrow> 'd http_context \<Rightarrow> 'd http_context go_result" where
  "Error status code message ds c =
     (if \<not> validErrorDescriptor status code message then writeInternalFallback c
      else let (safeDetails, ok) = validateDetails ds in
        if \<not> ok then writeInternalFallback c
        else write_result status (result_of code message None safeDetails) c)"

section \<open>Middleware\<close>

type_synonym 'd handler = "'d http_context \<Rightarrow> 'd http_context go_result"

definition RequestID :: "'d handler \<Rightarrow> 'd handler" where
  "RequestID Next c =
     (let (requestID, c1) =
            (if validRequestID (hc_request_id c) then (Some (hc_request_id c), c)
             else let (bytes, c1) = read_random c in (newRequestID bytes, c1))
      in case requestID of
           None \<Rightarrow> Panicked c1
         | Some requestID \<Rightarrow>
             Next (c1\<lparr>hc_headers := put ''X-Request-ID'' requestID (hc_headers c1),
               hc_ctx := Some (WithCorrelation (request_context c1) (no_correlation\<lparr>co_request := requestID\<rparr>))\<rparr>))"

text \<open>A limit that is not positive panics when the server is built.\<close>

definition RequestBodyLimit :: "int \<Rightarrow> ('d handler \<Rightarrow> 'd handler) option" where
  "RequestBodyLimit limit =
     (if limit \<le> 0 then None
      else Some (\<lambda>Next c. Next (if hc_has_body c then c\<lparr>hc_body_limit := Some limit\<rparr> else c)))"

definition tick :: "'d http_context \<Rightarrow> gotime \<times> 'd http_context" where
  "tick c = (hc_clock c (hc_ticks c), c\<lparr>hc_ticks := Suc (hc_ticks c)\<rparr>)"

definition log_record :: "string \<Rightarrow> (string \<times> any) list \<Rightarrow> 'd http_context \<Rightarrow> 'd http_context" where
  "log_record msg attrs c = c\<lparr>hc_log := hc_log c @ [(msg, Logger_attrs (request_context c) @ attrs)]\<rparr>"

text \<open>A panic below passes through: the code after \<open>c.Next()\<close> is not deferred.\<close>

definition AccessObservation :: "'d handler \<Rightarrow> 'd handler" where
  "AccessObservation Next c =
     (let (started, c1) = tick c in
      case Next c1 of
        Panicked c2 \<Rightarrow> Panicked c2
      | Returned c2 \<Rightarrow>
          (let route = (if hc_route c2 = [] then ''unmatched'' else hc_route c2);
               (finished, c3) = tick c2;
               duration = time_sub finished started;
               status = hc_status c3;
               c4 = c3\<lparr>hc_observer := ObserveHTTP (hc_method c3) route status duration (hc_observer c3)\<rparr>
           in Returned (log_record ''http.request_complete''
                [(''method'', AString (hc_method c4)), (''route'', AString route),
                 (''status'', ANumber (itoa status)), (''duration_ms'', ANumber (itoa (milliseconds duration)))] c4)))"

definition Recovery :: "'d handler \<Rightarrow> 'd handler" where
  "Recovery Next c = (case Next c of
     Returned c1 \<Rightarrow> Returned c1
   | Panicked c1 \<Rightarrow>
       (let c2 = (log_record ''http.recovered_panic'' [] c1)\<lparr>hc_aborted := True\<rparr> in
        if hc_written c2 then Returned c2 else Error 500 ''internal'' ''internal server error'' None c2))"

section \<open>Handlers and the chain\<close>

datatype foundation_data = HealthResponse string | InfoResponse string string bool

definition healthHandler :: "foundation_data handler" where
  "healthHandler c =
     (if \<not> os_ready (Observer_Snapshot (hc_observer c))
      then Error 503 ''not_ready'' ''service not ready'' None c
      else Success 200 ''ok'' ''ok'' (HealthResponse ''ready'') c)"

definition infoHandler :: "string \<Rightarrow> foundation_data handler" where
  "infoHandler version c =
     Success 200 ''ok'' ''ok'' (InfoResponse version ''foundation'' (os_ready (Observer_Snapshot (hc_observer c)))) c"

definition noRoute :: "'d handler" where
  "noRoute = Error 404 ''not_found'' ''not found'' None"

definition noMethod :: "'d handler" where
  "noMethod = Error 405 ''method_not_allowed'' ''method not allowed'' None"

definition requestBodyLimit :: int where "requestBodyLimit = 2 ^ 20"

text \<open>What \<open>NewServer\<close> puts around every handler.\<close>

definition chain :: "'d handler \<Rightarrow> 'd handler" where
  "chain handler = (case RequestBodyLimit requestBodyLimit of
     None \<Rightarrow> Panicked
   | Some limit \<Rightarrow> RequestID (limit (AccessObservation (Recovery handler))))"

section \<open>The public contract of a response\<close>

definition public_details :: "details option \<Rightarrow> bool" where
  "public_details ds \<longleftrightarrow> ds = None \<or> (\<exists>field rule. ds = Some [(''field'', AString field), (''rule'', AString rule)] \<and>
     detailFieldPattern field \<and> rule \<in> set detailRules)"

text \<open>A success carries data and no details; an error carries no data, and only validated details.\<close>

definition public_result :: "int \<Rightarrow> 'd envelope \<Rightarrow> bool" where
  "public_result status r \<longleftrightarrow>
     validSuccessDescriptor status (ev_code r) (ev_message r) \<and> ev_data r \<noteq> None \<and> ev_details r = None \<or>
     validErrorDescriptor status (ev_code r) (ev_message r) \<and> ev_data r = None \<and> public_details (ev_details r)"

text \<open>The response and its header carry the same identifier.\<close>

definition answered_with :: "'d http_context \<Rightarrow> int \<Rightarrow> 'd envelope \<Rightarrow> bool" where
  "answered_with c status r \<longleftrightarrow> hc_written c \<and> hc_response c = Some (status, r) \<and> ev_request_id r \<noteq> [] \<and>
     map_of (hc_headers c) ''X-Request-ID'' = Some (ev_request_id r)"

lemma ensureRequestID_nonempty: "ensureRequestID c = (Some v, c') \<Longrightarrow> v \<noteq> []"
  by (auto simp: ensureRequestID_def emergencyRequestIDFrom_def Let_def split: if_splits prod.splits option.splits)

lemma write_answers:
  assumes "\<not> hc_written c" "write_result status r c = Returned c'"
  shows "\<exists>v. answered_with c' status (r\<lparr>ev_request_id := v\<rparr>)"
proof -
  obtain v c1 where "ensureRequestID c = (Some v, c1)" and
    c': "c' = c1\<lparr>hc_headers := put ''X-Request-ID'' v (hc_headers c1), hc_written := True, hc_status := status,
      hc_response := Some (status, r\<lparr>ev_request_id := v\<rparr>)\<rparr>"
    using assms by (auto simp: write_result_def split: option.splits prod.splits)
  then show ?thesis using ensureRequestID_nonempty by (intro exI [of _ v]) (simp add: answered_with_def)
qed

lemma public_fallback [simp]: "public_result 500 ((result_of ''internal'' ''internal server error'' None None)\<lparr>ev_request_id := v\<rparr>)"
  by (simp add: public_result_def result_of_def validErrorDescriptor_def errorDescriptors_def public_details_def)

lemma validateDetails_public: "validateDetails ds = (safe, True) \<Longrightarrow> public_details safe"
  by (auto simp: validateDetails_def public_details_def split: option.splits any.splits if_splits)

lemma fallback_answers:
  assumes "\<not> hc_written c" "writeInternalFallback c = Returned c'"
  shows "\<exists>st r. answered_with c' st r \<and> public_result st r"
  using write_answers [OF assms(1) assms(2) [unfolded writeInternalFallback_def]] public_fallback by blast

text \<open>
  C32.  Every response keeps the public contract.  Whatever a handler passes to \<open>Success\<close> or \<open>Error\<close>,
  the first call writes one envelope, with a status, code and message of the fixed table, data exactly
  for a success, details only of the fixed shape, and one non-empty request identifier in the body and in
  the header; a later call writes nothing.
\<close>

theorem responses_follow_contract:
  assumes "r = Success status code message d c \<or> r = Error status code message ds c" "r = Returned c'"
  shows "(hc_written c \<and> c' = c) \<or> (\<not> hc_written c \<and> (\<exists>st env. answered_with c' st env \<and> public_result st env))"
proof (cases "hc_written c")
  case True
  then show ?thesis using assms
    by (auto simp: Success_def Error_def writeInternalFallback_def write_result_def split: if_splits prod.splits)
next
  case new: False
  have "\<exists>st env. answered_with c' st env \<and> public_result st env"
  proof (cases "writeInternalFallback c = Returned c'")
    case True
    then show ?thesis using fallback_answers new by blast
  next
    case False
    then consider "validSuccessDescriptor status code message"
        "write_result status (result_of code message (Some d) None) c = Returned c'"
      | safe where "validErrorDescriptor status code message" "public_details safe"
        "write_result status (result_of code message None safe) c = Returned c'"
      using assms by (auto simp: Success_def Error_def dest: validateDetails_public split: if_splits prod.splits)
    then show ?thesis
    proof cases
      case 1
      have "public_result status ((result_of code message (Some d) None)\<lparr>ev_request_id := v\<rparr>)" for v
        using 1(1) by (simp add: public_result_def result_of_def)
      then show ?thesis using write_answers [OF new 1(2)] by blast
    next
      case (2 safe)
      have "public_result status ((result_of code message (None :: 'a option) safe)\<lparr>ev_request_id := v\<rparr>)" for v
        using 2(1,2) by (simp add: public_result_def result_of_def)
      then show ?thesis using write_answers [OF new 2(3)] by blast
    qed
  qed
  with new show ?thesis by blast
qed

text \<open>
  A page is complete.  A page is written as a success only when its numbers are in their ranges, and then
  with a list of items, even if it was given none, and with the number of pages that its total needs.
\<close>

theorem Page_complete:
  assumes "Page status code message page c = Returned c'" "\<not> hc_written c"
  shows "\<exists>st env. answered_with c' st env \<and> public_result st env \<and>
    (\<forall>p. ev_data env = Some p \<longrightarrow> st = 200 \<and> validPage page \<and> pg_items p = Some (case pg_items page of None \<Rightarrow> [] | Some xs \<Rightarrow> xs) \<and>
       pg_total p = pg_total page \<and> pg_page p = pg_page page \<and> pg_page_size p = pg_page_size page \<and>
       pg_total_pages p = totalPages (pg_total page) (pg_page_size page))"
proof (cases "status = 200 \<and> validSuccessDescriptor 200 code message \<and> validPage page")
  case False
  then have "write_result 500 (result_of ''internal'' ''internal server error'' None None) c = Returned c'"
    using assms(1) by (auto simp: Page_def writeInternalFallback_def split: if_splits)
  from write_answers [OF assms(2) this] obtain v where
    "answered_with c' 500 ((result_of ''internal'' ''internal server error'' None None)\<lparr>ev_request_id := v\<rparr>)" by blast
  moreover have "ev_data ((result_of ''internal'' ''internal server error'' (None :: 'a page_result option) None)
      \<lparr>ev_request_id := v\<rparr>) = None" by (simp add: result_of_def)
  ultimately show ?thesis using public_fallback by (metis option.distinct(1))
next
  case True
  let ?p1 = "if pg_items page = None then page\<lparr>pg_items := Some []\<rparr> else page"
  let ?p = "?p1\<lparr>pg_total_pages := totalPages (pg_total ?p1) (pg_page_size ?p1)\<rparr>"
  have "write_result 200 (result_of code message (Some ?p) None) c = Returned c'"
  proof -
    have "Page 200 code message page c = Returned c'" using assms(1) True by blast
    with True show ?thesis unfolding Page_def Let_def by (simp only: simp_thms if_False)
  qed
  from write_answers [OF assms(2) this] obtain v where
    a: "answered_with c' 200 ((result_of code message (Some ?p) None)\<lparr>ev_request_id := v\<rparr>)" by blast
  have "public_result 200 ((result_of code message (Some ?p) None)\<lparr>ev_request_id := v\<rparr>)"
    using True by (simp add: public_result_def result_of_def)
  moreover have "ev_data ((result_of code message (Some ?p) None)\<lparr>ev_request_id := v\<rparr>) = Some ?p"
    by (simp add: result_of_def)
  moreover have "pg_items ?p = Some (case pg_items page of None \<Rightarrow> [] | Some xs \<Rightarrow> xs)" "pg_total ?p = pg_total page"
    "pg_page ?p = pg_page page" "pg_page_size ?p = pg_page_size page"
    "pg_total_pages ?p = totalPages (pg_total page) (pg_page_size page)"
    by (auto split: option.splits)
  ultimately show ?thesis using a True by (metis option.inject)
qed

section \<open>The chain of middleware\<close>

text \<open>The request has an identifier, in its context and in the header of its response.\<close>

definition identified :: "string \<Rightarrow> 'd http_context \<Rightarrow> bool" where
  "identified v c \<longleftrightarrow> v \<noteq> [] \<and> (\<exists>cx. hc_ctx c = Some cx \<and> co_request (CorrelationFromContext cx) = v) \<and>
     map_of (hc_headers c) ''X-Request-ID'' = Some v"

lemma identified_ensure: "identified v c \<Longrightarrow> ensureRequestID c = (Some v, c)"
  by (auto simp: identified_def ensureRequestID_def request_context_def Let_def)

lemma write_identified:
  assumes "identified v c"
  shows "write_result status r c = Returned (if hc_written c then c
    else c\<lparr>hc_headers := put ''X-Request-ID'' v (hc_headers c), hc_written := True, hc_status := status,
      hc_response := Some (status, r\<lparr>ev_request_id := v\<rparr>)\<rparr>)"
  using identified_ensure [OF assms] by (simp add: write_result_def)

lemma identified_updates [simp]:
  "identified v (c\<lparr>hc_aborted := b\<rparr>) = identified v c" "identified v (c\<lparr>hc_log := l\<rparr>) = identified v c"
  "identified v (c\<lparr>hc_ticks := n\<rparr>) = identified v c" "identified v (c\<lparr>hc_observer := ob\<rparr>) = identified v c"
  "identified v (c\<lparr>hc_body_limit := x\<rparr>) = identified v c" "identified v (c\<lparr>hc_reads := n\<rparr>) = identified v c"
  by (simp_all add: identified_def)

lemma identified_written [simp]:
  "identified v c \<Longrightarrow> identified v (c\<lparr>hc_headers := put ''X-Request-ID'' v hs, hc_written := a, hc_status := b, hc_response := r\<rparr>)"
  by (simp add: identified_def)

lemma identified_log [simp]: "identified v (log_record m a c) = identified v c"
  by (simp add: log_record_def)

lemma id_character_hex: "n < 16 \<Longrightarrow> id_character (hex_digit n)"
  by (auto simp: hex_digit_def id_character_def byte_chr)

lemma id_hex: "list_all id_character (hex w n)"
  by (induction w arbitrary: n) (simp_all add: id_character_hex)

lemma new_id_valid: "length bytes = 16 \<Longrightarrow> validRequestID (''req_'' @ EncodeToString bytes)"
proof -
  have "length (EncodeToString bs) = 2 * length bs" for bs
    by (induction bs) (simp_all add: EncodeToString_def numeral_2_eq_2)
  moreover have "list_all id_character (EncodeToString bytes)"
    using id_hex by (auto simp: EncodeToString_def list_all_iff)
  moreover assume "length bytes = 16"
  ultimately show ?thesis by (simp add: validRequestID_def id_character_def)
qed

text \<open>
  The identifier of a request, and the context in which its handler runs: the identifier is in the header of the
  response and, alone, in the correlation of the context, a body is limited, the clock was read once, and
  the random source once when the client sent no valid identifier.
\<close>

definition issued_id :: "string \<Rightarrow> 'd http_context \<Rightarrow> string" where
  "issued_id bytes c = (if validRequestID (hc_request_id c) then hc_request_id c else ''req_'' @ EncodeToString bytes)"

definition entered :: "string \<Rightarrow> 'd http_context \<Rightarrow> 'd http_context" where
  "entered v c = c\<lparr>hc_reads := hc_reads c + (if validRequestID (hc_request_id c) then 0 else 1),
     hc_headers := put ''X-Request-ID'' v (hc_headers c),
     hc_ctx := Some (WithCorrelation (request_context c) (no_correlation\<lparr>co_request := v\<rparr>)),
     hc_body_limit := (if hc_has_body c then Some requestBodyLimit else hc_body_limit c),
     hc_ticks := Suc (hc_ticks c)\<rparr>"

lemma entered_fields [simp]:
  "hc_written (entered v c) = hc_written c" "hc_observer (entered v c) = hc_observer c"
  "hc_method (entered v c) = hc_method c" "hc_route (entered v c) = hc_route c" "hc_clock (entered v c) = hc_clock c"
  "hc_ticks (entered v c) = Suc (hc_ticks c)"
  by (simp_all add: entered_def)

lemma entered_identified: "v \<noteq> [] \<Longrightarrow> identified v (entered v c)"
  by (simp add: identified_def entered_def CorrelationFromContext_def WithCorrelation_def with_correlation_def)

lemma issued_id_valid:
  "validRequestID (hc_request_id c) \<or> length bytes = 16 \<Longrightarrow> validRequestID (issued_id bytes c)"
  using new_id_valid by (auto simp: issued_id_def)

text \<open>
  What the client gets of a handler's result, status and envelope, and what is logged of a panic: a panic
  before anything was written gives the fixed internal error.
\<close>

definition internal_result :: "string \<Rightarrow> 'd envelope" where
  "internal_result v = (result_of ''internal'' ''internal server error'' None None)\<lparr>ev_request_id := v\<rparr>"

fun answer_of :: "string \<Rightarrow> 'd http_context go_result \<Rightarrow> int \<times> (int \<times> 'd envelope) option" where
  "answer_of v (Returned c1) = (hc_status c1, hc_response c1)"
| "answer_of v (Panicked c1) =
     (if hc_written c1 then (hc_status c1, hc_response c1) else (500, Some (500, internal_result v)))"

fun panic_log :: "'d http_context go_result \<Rightarrow> (string \<times> (string \<times> any) list) list" where
  "panic_log (Returned c1) = []"
| "panic_log (Panicked c1) = [(''http.recovered_panic'', Logger_attrs (request_context c1))]"

definition route_label :: "'d http_context \<Rightarrow> string" where
  "route_label c = (if hc_route c = [] then ''unmatched'' else hc_route c)"

text \<open>
  What a handler may do to the context: it keeps the identifier and leaves the observer alone.  It may
  write or not, return or panic.
\<close>

locale route_handler =
  fixes handle :: "'d handler"
  assumes keeps_identifier: "identified v c \<Longrightarrow> identified v (left (handle c))"
    and keeps_observer: "hc_observer (left (handle c)) = hc_observer c"
begin

lemma recovered:
  assumes "identified v c"
  shows "\<exists>c'. Recovery handle c = Returned c' \<and> identified v c' \<and> hc_observer c' = hc_observer c \<and>
    (hc_status c', hc_response c') = answer_of v (handle c) \<and> hc_log c' = hc_log (left (handle c)) @ panic_log (handle c) \<and>
    hc_method c' = hc_method (left (handle c)) \<and> hc_route c' = hc_route (left (handle c)) \<and>
    hc_clock c' = hc_clock (left (handle c)) \<and> hc_ticks c' = hc_ticks (left (handle c)) \<and>
    hc_ctx c' = hc_ctx (left (handle c))"
proof (cases "handle c")
  case (Returned c1)
  then show ?thesis using keeps_identifier [OF assms] keeps_observer [of c] by (simp add: Recovery_def)
next
  case (Panicked c1)
  let ?c2 = "(log_record ''http.recovered_panic'' [] c1)\<lparr>hc_aborted := True\<rparr>"
  have c1: "identified v c1" "hc_observer c1 = hc_observer c"
    using keeps_identifier [OF assms] keeps_observer [of c] Panicked by simp_all
  have c2: "identified v ?c2" using c1 by simp
  have "Error 500 ''internal'' ''internal server error'' None ?c2 = Returned (if hc_written ?c2 then ?c2
      else ?c2\<lparr>hc_headers := put ''X-Request-ID'' v (hc_headers ?c2), hc_written := True, hc_status := 500,
        hc_response := Some (500, internal_result v)\<rparr>)"
    using write_identified [OF c2]
    by (simp add: Error_def validErrorDescriptor_def errorDescriptors_def validateDetails_def internal_result_def)
  then have "Recovery handle c = Returned (if hc_written ?c2 then ?c2
      else ?c2\<lparr>hc_headers := put ''X-Request-ID'' v (hc_headers ?c2), hc_written := True, hc_status := 500,
        hc_response := Some (500, internal_result v)\<rparr>)"
    by (simp add: Recovery_def Panicked)
  then show ?thesis using c1 by (simp add: Panicked) (simp add: log_record_def)
qed

lemma chain_entered:
  assumes id: "validRequestID (hc_request_id c) \<or> hc_random c (hc_reads c) = Some bytes \<and> length bytes = 16"
  shows "\<exists>d. chain handle c = AccessObservation (Recovery handle) d \<and>
    hc_clock d = hc_clock c \<and> hc_ticks d = hc_ticks c \<and> d\<lparr>hc_ticks := Suc (hc_ticks c)\<rparr> = entered (issued_id bytes c) c"
proof -
  have "0 < requestBodyLimit" by (simp add: requestBodyLimit_def)
  then have chain: "chain handle = RequestID (\<lambda>c. AccessObservation (Recovery handle)
      (if hc_has_body c then c\<lparr>hc_body_limit := Some requestBodyLimit\<rparr> else c))"
    by (simp add: chain_def RequestBodyLimit_def)
  let ?d = "(entered (issued_id bytes c) c)\<lparr>hc_ticks := hc_ticks c\<rparr>"
  have "chain handle c = AccessObservation (Recovery handle) ?d"
  proof (cases "validRequestID (hc_request_id c)")
    case True
    then show ?thesis unfolding chain
      by (cases "hc_has_body c"; cases c) (simp_all add: RequestID_def issued_id_def entered_def request_context_def)
  next
    case False
    then have "hc_random c (hc_reads c) = Some bytes" using id by simp
    with False show ?thesis unfolding chain
      by (cases "hc_has_body c"; cases c)
        (simp_all add: RequestID_def issued_id_def entered_def read_random_def newRequestID_def request_context_def)
  qed
  then show ?thesis by (intro exI [of _ ?d]) (simp add: entered_def)
qed

lemma chain_answers:
  assumes id: "validRequestID (hc_request_id c) \<or> hc_random c (hc_reads c) = Some bytes \<and> length bytes = 16"
  defines "v \<equiv> issued_id bytes c"
  defines "r \<equiv> handle (entered v c)"
  shows "\<exists>c'. chain handle c = Returned c' \<and> identified v c' \<and> (hc_status c', hc_response c') = answer_of v r \<and>
    hc_observer c' = ObserveHTTP (hc_method (left r)) (route_label (left r)) (hc_status c')
      (time_sub (hc_clock (left r) (hc_ticks (left r))) (hc_clock c (hc_ticks c))) (hc_observer c) \<and>
    hc_log c' = hc_log (left r) @ panic_log r @ [(''http.request_complete'', Logger_attrs (request_context (left r)) @
      [(''method'', AString (hc_method (left r))), (''route'', AString (route_label (left r))),
       (''status'', ANumber (itoa (hc_status c'))),
       (''duration_ms'', ANumber (itoa (milliseconds
          (time_sub (hc_clock (left r) (hc_ticks (left r))) (hc_clock c (hc_ticks c))))))])]"
proof -
  have "v \<noteq> []" using issued_id_valid [of c bytes] id by (auto simp: v_def validRequestID_def)
  note e = recovered [OF entered_identified [OF this], of c, folded r_def]
  obtain d where d: "chain handle c = AccessObservation (Recovery handle) d" "hc_clock d = hc_clock c" "hc_ticks d = hc_ticks c"
    "d\<lparr>hc_ticks := Suc (hc_ticks c)\<rparr> = entered v c"
    using chain_entered [OF id] unfolding v_def by blast
  obtain c2 where c2: "Recovery handle (entered v c) = Returned c2" "identified v c2" "hc_observer c2 = hc_observer c"
    "(hc_status c2, hc_response c2) = answer_of v r" "hc_log c2 = hc_log (left r) @ panic_log r"
    "hc_method c2 = hc_method (left r)" "hc_route c2 = hc_route (left r)" "hc_clock c2 = hc_clock (left r)"
    "hc_ticks c2 = hc_ticks (left r)" "hc_ctx c2 = hc_ctx (left r)"
    using e by auto
  show ?thesis
    unfolding d(1) using c2
    by (simp add: AccessObservation_def tick_def d(2-4) log_record_def route_label_def Let_def request_context_def)
qed

end

lemma write_keeps:
  "identified v c \<Longrightarrow> identified v (left (write_result status r c)) \<and> hc_observer (left (write_result status r c)) = hc_observer c"
  by (simp add: write_identified)

lemma ensureRequestID_observer: "hc_observer (snd (ensureRequestID c)) = hc_observer c"
  by (auto simp: ensureRequestID_def read_random_def Let_def split: option.splits)

lemma write_observer: "hc_observer (left (write_result status r c)) = hc_observer c"
  using ensureRequestID_observer [of c] by (auto simp: write_result_def split: prod.splits option.splits)

lemma Error_keeps:
  "identified v c \<Longrightarrow> identified v (left (Error status code message ds c))"
  "hc_observer (left (Error status code message ds c)) = hc_observer c"
  by (auto simp: Error_def writeInternalFallback_def write_keeps write_observer split: prod.splits)

lemma Success_keeps:
  "identified v c \<Longrightarrow> identified v (left (Success status code message d c))"
  "hc_observer (left (Success status code message d c)) = hc_observer c"
  by (auto simp: Success_def writeInternalFallback_def write_keeps write_observer)

interpretation health: route_handler healthHandler
  by unfold_locales (simp_all add: healthHandler_def Error_keeps Success_keeps)

interpretation info: route_handler "infoHandler version" for version
  by unfold_locales (simp_all add: infoHandler_def Success_keeps)

interpretation no_route: route_handler noRoute
  by unfold_locales (simp_all add: noRoute_def Error_keeps)

interpretation no_method: route_handler noMethod
  by unfold_locales (simp_all add: noMethod_def Error_keeps)

text \<open>
  C31.  The chain answers every request.  Around any handler that leaves the identifier and the observer
  alone, whether it returns or panics, the chain returns and does not panic.  The handler runs in the context
  that \<open>entered\<close> gives, with a valid identifier, the client's when that was valid, which the response
  carries.  Status and response are those the handler left, but a panic before anything was written is answered
  with the fixed internal error.  The request is counted exactly once, with its method, its route, or
  ''unmatched'', the status that was answered and the time between the two readings of the clock; the log gets
  one record of a panic, if there was one, and one with the values that were counted.
\<close>

theorem chain_recovers:
  assumes "route_handler handle"
    and "validRequestID (hc_request_id c) \<or> hc_random c (hc_reads c) = Some bytes \<and> length bytes = 16"
  shows "let v = issued_id bytes c; r = handle (entered v c); c1 = left r;
      d = time_sub (hc_clock c1 (hc_ticks c1)) (hc_clock c (hc_ticks c)) in
    validRequestID v \<and> (\<exists>c'. chain handle c = Returned c' \<and> identified v c' \<and>
      (hc_status c', hc_response c') = answer_of v r \<and>
      hc_observer c' = ObserveHTTP (hc_method c1) (route_label c1) (hc_status c') d (hc_observer c) \<and>
      hc_log c' = hc_log c1 @ panic_log r @ [(''http.request_complete'', Logger_attrs (request_context c1) @
        [(''method'', AString (hc_method c1)), (''route'', AString (route_label c1)),
         (''status'', ANumber (itoa (hc_status c'))), (''duration_ms'', ANumber (itoa (milliseconds d)))])])"
  using issued_id_valid [of c bytes] route_handler.chain_answers [OF assms] assms(2) unfolding Let_def by blast

section \<open>Examples\<close>

definition demo_http :: "'d http_context" where
  "demo_http = \<lparr>hc_ctx = Some demo_ctx, hc_request_id = ''req-1'', hc_method = ''GET'', hc_route = ''/api/v1/health'',
     hc_body_limit = None, hc_has_body = False, hc_headers = [], hc_written = False, hc_status = 200, hc_response = None,
     hc_aborted = False, hc_random = (\<lambda>n. None), hc_reads = 0, hc_clock = (\<lambda>n. \<lparr>t_ns = int n, t_zone = 0\<rparr>), hc_ticks = 0,
     hc_observer = SetReady True NewObserver, hc_log = []\<rparr>"

lemma demo_http_id: "validRequestID (hc_request_id demo_http)"
  by (simp add: demo_http_def validRequestID_def id_character_def)

lemma demo_http_fields [simp]: "\<not> hc_written demo_http" "ob_ready (hc_observer demo_http)"
  by (simp_all add: demo_http_def SetReady_def)

theorem chain_recovers_witness:
  "\<exists>c'. chain Panicked (demo_http :: unit http_context) = Returned c' \<and> identified ''req-1'' c' \<and>
     hc_response c' = Some (500, internal_result ''req-1'') \<and>
     hc_observer c' = ObserveHTTP ''GET'' ''/api/v1/health'' 500 1 (hc_observer (demo_http :: unit http_context))"
proof -
  let ?demo = "demo_http :: unit http_context"
  have handler: "route_handler (Panicked :: unit handler)" by unfold_locales simp_all
  have id: "issued_id [] ?demo = ''req-1''"
    using demo_http_id by (simp add: issued_id_def demo_http_def)
  have fields: "hc_method ?demo = ''GET''" "route_label (entered ''req-1'' ?demo) = ''/api/v1/health''"
    "time_sub (hc_clock ?demo (Suc 0)) (hc_clock ?demo 0) = 1" "hc_ticks ?demo = 0"
    by (simp_all add: demo_http_def route_label_def time_sub_def min_duration_def max_duration_def)
  note answers = chain_recovers [OF handler disjI1 [OF demo_http_id], of "[]", unfolded Let_def id]
  obtain c' where "chain Panicked ?demo = Returned c'" "identified ''req-1'' c'"
    "(hc_status c', hc_response c') = answer_of ''req-1'' (Panicked (entered ''req-1'' ?demo))"
    "hc_observer c' = ObserveHTTP (hc_method (entered ''req-1'' ?demo)) (route_label (entered ''req-1'' ?demo)) (hc_status c')
      (time_sub (hc_clock (entered ''req-1'' ?demo) (hc_ticks (entered ''req-1'' ?demo)))
        (hc_clock ?demo (hc_ticks ?demo))) (hc_observer ?demo)"
    using answers by auto
  then show ?thesis by (intro exI [of _ c']) (simp add: fields)
qed

lemma demo_http_emergency: "\<exists>c'. write_result st r (demo_http\<lparr>hc_random := \<lambda>n. Some (replicate 16 (CHR ''x''))\<rparr>) = Returned c'"
  by (simp add: write_result_def ensureRequestID_def read_random_def emergencyRequestIDFrom_def Let_def split: prod.splits)

theorem responses_follow_contract_witness:
  "\<exists>c' st env. Success 200 ''ok'' ''ok'' (0 :: nat) (demo_http\<lparr>hc_random := \<lambda>n. Some (replicate 16 (CHR ''x''))\<rparr>) = Returned c' \<and>
     answered_with c' st env \<and> public_result st env"
proof -
  let ?c = "demo_http\<lparr>hc_random := \<lambda>n. Some (replicate 16 (CHR ''x''))\<rparr> :: nat http_context"
  obtain c' where run: "Success 200 ''ok'' ''ok'' 0 ?c = Returned c'"
    using demo_http_emergency by (force simp: Success_def validSuccessDescriptor_def)
  have "\<not> hc_written ?c" by (simp add: demo_http_def)
  with responses_follow_contract [OF disjI1 [OF run [symmetric]] refl] run show ?thesis by blast
qed

theorem Page_complete_witness:
  "\<exists>c' st env. Page 200 ''ok'' ''ok'' (\<lparr>pg_items = None, pg_page = 1, pg_page_size = 20, pg_total = 41, pg_total_pages = 0\<rparr> :: nat page_result)
     (demo_http\<lparr>hc_random := \<lambda>n. Some (replicate 16 (CHR ''x''))\<rparr>) = Returned c' \<and> answered_with c' st env"
proof -
  let ?c = "demo_http\<lparr>hc_random := \<lambda>n. Some (replicate 16 (CHR ''x''))\<rparr> :: nat page_result http_context"
  let ?p = "\<lparr>pg_items = None, pg_page = 1, pg_page_size = 20, pg_total = 41, pg_total_pages = 0\<rparr> :: nat page_result"
  obtain c' where run: "Page 200 ''ok'' ''ok'' ?p ?c = Returned c'"
    using demo_http_emergency by (force simp: Page_def Let_def writeInternalFallback_def split: if_splits)
  have "\<not> hc_written ?c" by (simp add: demo_http_def)
  from Page_complete [OF run this] run show ?thesis by blast
qed

end
