(* ===== verification/Web_Server.thy ===== *)
theory Web_Server
  imports Go_Prelude
begin

text \<open>
  internal/web/component.go: starting and closing the HTTP server.  Any number of goroutines may call
  \<open>Start\<close> and \<open>Close\<close> at the same time; what happens under the mutex is one step, and so is
  each call of the network and of \<open>http.Server\<close>.  A label names the step that the scheduler picks
  and the result that the outside gives.
\<close>

section \<open>The state\<close>

text \<open>The booleans of \<open>startState\<close>; the two \<open>sync.Once\<close> are phases of the server below.\<close>

record start_state =
  sg_started :: bool
  sg_starting :: bool
  sg_closed :: bool

text \<open>A call of \<open>Start\<close>, from its first critical section on; a listener is a number.\<close>

datatype start_call = Binding | BindFailed gerror | Bound nat | StartReturned "gerror option"

text \<open>The goroutine that serves a listener.\<close>

datatype serve_phase = Serving nat | SendingError gerror | Unwinding | Ended

text \<open>The first call of \<open>Close\<close>; further calls wait for it and return its result.\<close>

datatype close_phase = CloseIdle | CloseMarked | CloseDraining | CloseFailing gerror
  | CloseWaiting "gerror option" "gerror option" | CloseReturned "gerror option"

record web_server =
  ws_state :: start_state
  ws_calls :: "nat \<Rightarrow> start_call option"
  ws_open :: "nat list"
  ws_bound :: nat
  ws_serving :: "serve_phase list"
  ws_errors :: "gerror list"
  ws_done :: bool
  ws_down :: bool
  ws_close :: close_phase

definition new_server :: web_server where
  "new_server = \<lparr>ws_state = \<lparr>sg_started = False, sg_starting = False, sg_closed = False\<rparr>, ws_calls = (\<lambda>t. None),
     ws_open = [], ws_bound = 0, ws_serving = [], ws_errors = [], ws_done = False, ws_down = False, ws_close = CloseIdle\<rparr>"

section \<open>The critical sections\<close>

definition Start_begin :: "gerror option \<Rightarrow> start_state \<Rightarrow> start_call \<times> start_state" where
  "Start_begin ctxErr g = (case ctxErr of
     Some e \<Rightarrow> (StartReturned (Some e), g)
   | None \<Rightarrow>
       if sg_closed g then (StartReturned (Some (Sentinel ErrServerIsClosed)), g)
       else if sg_started g \<or> sg_starting g then (StartReturned (Some (Sentinel ErrServerStarted)), g)
       else (Binding, g\<lparr>sg_starting := True\<rparr>))"

text \<open>\<open>finish\<close>; closing the channel again is what \<open>doneOnce\<close> prevents.\<close>

definition finish_server :: "web_server \<Rightarrow> web_server" where
  "finish_server s = s\<lparr>ws_done := True\<rparr>"

definition close_listener :: "nat \<Rightarrow> web_server \<Rightarrow> web_server" where
  "close_listener l s = s\<lparr>ws_open := filter (\<lambda>k. k \<noteq> l) (ws_open s)\<rparr>"

definition Start_failed :: "nat \<Rightarrow> gerror \<Rightarrow> web_server \<Rightarrow> web_server" where
  "Start_failed t e s = s\<lparr>ws_state := (ws_state s)\<lparr>sg_starting := False\<rparr>,
     ws_calls := (ws_calls s)(t \<mapsto> StartReturned (Some (Wrapf ''bind HTTP listener: '' e)))\<rparr>"

definition Start_bound :: "nat \<Rightarrow> nat \<Rightarrow> web_server \<Rightarrow> web_server" where
  "Start_bound t l s =
     (let g = (ws_state s)\<lparr>sg_starting := False\<rparr> in
      if sg_closed g
      then finish_server (close_listener l (s\<lparr>ws_state := g,
             ws_calls := (ws_calls s)(t \<mapsto> StartReturned (Some (Sentinel ErrServerIsClosed)))\<rparr>))
      else s\<lparr>ws_state := g\<lparr>sg_started := True\<rparr>, ws_serving := ws_serving s @ [Serving l],
             ws_calls := (ws_calls s)(t \<mapsto> StartReturned None)\<rparr>)"

definition Close_begin :: "web_server \<Rightarrow> web_server" where
  "Close_begin s = s\<lparr>ws_state := (ws_state s)\<lparr>sg_closed := True\<rparr>,
     ws_close := (if sg_started (ws_state s) then CloseMarked else CloseReturned None)\<rparr>"

definition close_result :: "gerror option \<Rightarrow> gerror option \<Rightarrow> gerror option" where
  "close_result shutdownErr closeErr =
     (let closeErr = (case closeErr of Some e \<Rightarrow> if errors_is ErrHTTPServerClosed e then None else Some e | None \<Rightarrow> None)
      in join_nils [shutdownErr, closeErr])"

section \<open>The steps\<close>

datatype server_label =
    StartCalled nat "gerror option" | ListenReturns nat "gerror option" | StartResumes nat
  | ServeReturns nat "gerror option" | ErrorSent nat | GoroutineEnds nat | ErrorTaken
  | CloseCalled | ShutdownBegins | ShutdownReturns "gerror option" | ServerCloseReturns "gerror option" | DoneReceived

text \<open>
  \<open>http.Server\<close>: once \<open>Shutdown\<close> was called, \<open>Serve\<close> returns
  \<open>ErrServerClosed\<close>, and before that any error; it closes its listener when it returns.
\<close>

definition serve_may_return :: "bool \<Rightarrow> gerror option \<Rightarrow> bool" where
  "serve_may_return down err \<longleftrightarrow> (if down then err = Some (Sentinel ErrHTTPServerClosed) else err \<noteq> None)"

text \<open>The goroutine sends an error that is not the normal end, to a channel with room for one.\<close>

definition after_serve :: "gerror option \<Rightarrow> serve_phase" where
  "after_serve serveErr = (case serveErr of
     Some e \<Rightarrow> if errors_is ErrHTTPServerClosed e then Unwinding else SendingError e
   | None \<Rightarrow> Unwinding)"

definition serving_at :: "nat \<Rightarrow> web_server \<Rightarrow> serve_phase option" where
  "serving_at i s = (if i < length (ws_serving s) then Some (ws_serving s ! i) else None)"

fun server_step :: "server_label \<Rightarrow> web_server \<Rightarrow> web_server option" where
  "server_step (StartCalled t ctxErr) s =
     (if ws_calls s t \<noteq> None then None
      else let (c, g) = Start_begin ctxErr (ws_state s)
           in Some (s\<lparr>ws_state := g, ws_calls := (ws_calls s)(t \<mapsto> c)\<rparr>))"
| "server_step (ListenReturns t err) s =
     (if ws_calls s t \<noteq> Some Binding then None
      else case err of
          Some e \<Rightarrow> Some (s\<lparr>ws_calls := (ws_calls s)(t \<mapsto> BindFailed e)\<rparr>)
        | None \<Rightarrow> Some (s\<lparr>ws_calls := (ws_calls s)(t \<mapsto> Bound (ws_bound s)),
                    ws_open := ws_open s @ [ws_bound s], ws_bound := Suc (ws_bound s)\<rparr>))"
| "server_step (StartResumes t) s = (case ws_calls s t of
     Some (BindFailed e) \<Rightarrow> Some (Start_failed t e s)
   | Some (Bound l) \<Rightarrow> Some (Start_bound t l s)
   | _ \<Rightarrow> None)"
| "server_step (ServeReturns i err) s = (case serving_at i s of
     Some (Serving l) \<Rightarrow>
       if serve_may_return (ws_down s) err
       then Some (close_listener l (s\<lparr>ws_serving := (ws_serving s)[i := after_serve err]\<rparr>)) else None
   | _ \<Rightarrow> None)"
| "server_step (ErrorSent i) s = (case serving_at i s of
     Some (SendingError e) \<Rightarrow>
       if length (ws_errors s) < 1
       then Some (s\<lparr>ws_errors := ws_errors s @ [e], ws_serving := (ws_serving s)[i := Unwinding]\<rparr>) else None
   | _ \<Rightarrow> None)"
| "server_step (GoroutineEnds i) s =
     (if serving_at i s = Some Unwinding
      then Some (finish_server (s\<lparr>ws_serving := (ws_serving s)[i := Ended]\<rparr>)) else None)"
| "server_step ErrorTaken s = (case ws_errors s of [] \<Rightarrow> None | e # es \<Rightarrow> Some (s\<lparr>ws_errors := es\<rparr>))"
| "server_step CloseCalled s = (if ws_close s = CloseIdle then Some (Close_begin s) else None)"
| "server_step ShutdownBegins s =
     (if ws_close s = CloseMarked then Some (s\<lparr>ws_close := CloseDraining, ws_down := True\<rparr>) else None)"
| "server_step (ShutdownReturns err) s =
     (if ws_close s = CloseDraining
      then Some (s\<lparr>ws_close := (case err of None \<Rightarrow> CloseWaiting None None | Some e \<Rightarrow> CloseFailing e)\<rparr>) else None)"
| "server_step (ServerCloseReturns err) s = (case ws_close s of
     CloseFailing e \<Rightarrow> Some (s\<lparr>ws_close := CloseWaiting (Some e) err\<rparr>)
   | _ \<Rightarrow> None)"
| "server_step DoneReceived s = (case ws_close s of
     CloseWaiting se ce \<Rightarrow> if ws_done s then Some (s\<lparr>ws_close := CloseReturned (close_result se ce)\<rparr>) else None
   | _ \<Rightarrow> None)"

fun server_run :: "server_label list \<Rightarrow> web_server \<Rightarrow> web_server option" where
  "server_run [] s = Some s"
| "server_run (l # ls) s = (case server_step l s of None \<Rightarrow> None | Some s' \<Rightarrow> server_run ls s')"

inductive server_reachable :: "web_server \<Rightarrow> bool" where
  fresh: "server_reachable new_server"
| stepped: "server_reachable s \<Longrightarrow> server_step l s = Some s' \<Longrightarrow> server_reachable s'"

section \<open>The invariant\<close>

fun pending :: "start_call \<Rightarrow> bool" where
  "pending (StartReturned err) = False"
| "pending c = True"

text \<open>The calls of \<open>Start\<close> that are on their way, and those that returned success.\<close>

definition on_the_way :: "(nat \<Rightarrow> start_call option) \<Rightarrow> nat set" where
  "on_the_way m = {t. case m t of None \<Rightarrow> False | Some c \<Rightarrow> pending c}"

definition succeeded :: "(nat \<Rightarrow> start_call option) \<Rightarrow> nat set" where
  "succeeded m = {t. m t = Some (StartReturned None)}"

lemma on_the_way_update [simp]: "on_the_way (m(t \<mapsto> c)) = (if pending c then insert t (on_the_way m) else on_the_way m - {t})"
  by (auto simp: on_the_way_def)

lemma succeeded_update [simp]:
  "succeeded (m(t \<mapsto> c)) = (if c = StartReturned None then insert t (succeeded m) else succeeded m - {t})"
  by (auto simp: succeeded_def)

lemma call_unknown: "m t = None \<Longrightarrow> t \<notin> on_the_way m \<and> t \<notin> succeeded m"
  by (simp add: on_the_way_def succeeded_def)

lemma call_pending: "m t = Some c \<Longrightarrow> pending c \<Longrightarrow> t \<in> on_the_way m \<and> t \<notin> succeeded m"
  by (auto simp: on_the_way_def succeeded_def)

definition start_inv :: "web_server \<Rightarrow> bool" where
  "start_inv s \<longleftrightarrow>
     (if sg_starting (ws_state s) then \<exists>t. on_the_way (ws_calls s) = {t} else on_the_way (ws_calls s) = {}) \<and>
     (if sg_started (ws_state s)
      then \<not> sg_starting (ws_state s) \<and> length (ws_serving s) = 1 \<and> (\<exists>t. succeeded (ws_calls s) = {t})
      else ws_serving s = [] \<and> succeeded (ws_calls s) = {})"

lemma start_inv_pending:
  assumes "start_inv s" "ws_calls s t = Some c" "pending c"
  shows "sg_starting (ws_state s)" "\<not> sg_started (ws_state s)" "on_the_way (ws_calls s) = {t}" "ws_serving s = []"
    "succeeded (ws_calls s) = {}"
  using assms call_pending [of "ws_calls s" t c] by (auto simp: start_inv_def split: if_splits)

lemma start_inv_serving:
  assumes "start_inv s" "i < length (ws_serving s)"
  shows "i = 0" "ws_serving s = [ws_serving s ! i]" "sg_started (ws_state s)"
  using assms by (cases "ws_serving s"; auto simp: start_inv_def split: if_splits)+

definition done_inv :: "web_server \<Rightarrow> bool" where
  "done_inv s \<longleftrightarrow>
     (ws_done s \<longrightarrow> set (ws_serving s) \<subseteq> {Ended} \<and> (ws_serving s = [] \<longrightarrow> sg_closed (ws_state s))) \<and>
     (Ended \<in> set (ws_serving s) \<longrightarrow> ws_done s) \<and> length (ws_errors s) \<le> 1 \<and>
     (ws_errors s \<noteq> [] \<longrightarrow> ws_serving s \<noteq> [] \<and> set (ws_serving s) \<subseteq> {Unwinding, Ended})"

text \<open>The listeners in the hands of a call, and of the goroutine.\<close>

definition held :: "(nat \<Rightarrow> start_call option) \<Rightarrow> nat set" where
  "held m = {l. \<exists>t. m t = Some (Bound l)}"

definition listen_inv :: "web_server \<Rightarrow> bool" where
  "listen_inv s \<longleftrightarrow> set (ws_open s) \<subseteq> held (ws_calls s) \<union> {l. Serving l \<in> set (ws_serving s)}"

lemma held_keep: "(\<And>l. m t \<noteq> Some (Bound l)) \<Longrightarrow> l \<in> held m \<Longrightarrow> l \<in> held (m(t \<mapsto> c))"
  unfolding held_def mem_Collect_eq by (metis fun_upd_apply)

lemma held_move: "m t = Some (Bound k) \<Longrightarrow> l \<in> held m \<Longrightarrow> l \<noteq> k \<Longrightarrow> l \<in> held (m(t \<mapsto> c))"
  unfolding held_def mem_Collect_eq by (metis fun_upd_apply option.inject start_call.inject(2))

lemma held_new: "l \<in> held (m(t \<mapsto> Bound l))"
  by (auto simp: held_def)

definition close_inv :: "web_server \<Rightarrow> bool" where
  "close_inv s \<longleftrightarrow> (case ws_close s of
     CloseIdle \<Rightarrow> \<not> sg_closed (ws_state s) \<and> \<not> ws_down s
   | CloseMarked \<Rightarrow> sg_closed (ws_state s) \<and> sg_started (ws_state s) \<and> \<not> ws_down s
   | CloseReturned r \<Rightarrow> sg_closed (ws_state s) \<and> set (ws_serving s) \<subseteq> {Ended}
   | _ \<Rightarrow> sg_closed (ws_state s) \<and> sg_started (ws_state s) \<and> ws_down s)"

lemmas server_updates = finish_server_def close_listener_def Start_failed_def Start_bound_def Close_begin_def
  Start_begin_def serving_at_def Let_def

lemma at_most_one: "length xs \<le> 1 \<longleftrightarrow> xs = [] \<or> (\<exists>x. xs = [x])"
  by (cases xs) auto

text \<open>The effect of a step, one case for each branch of the code.\<close>

lemma step_cases [consumes 1, case_names refused binding failed listening gave_up too_late started served sent ended taken marked
    down drained waiting returned]:
  assumes "server_step l s = Some s'"
  obtains
    t e where "ws_calls s t = None" "e \<noteq> None" "s' = s\<lparr>ws_calls := (ws_calls s)(t \<mapsto> StartReturned e)\<rparr>"
  | t where "ws_calls s t = None" "\<not> sg_closed (ws_state s)" "\<not> sg_started (ws_state s)" "\<not> sg_starting (ws_state s)"
      "s' = s\<lparr>ws_state := (ws_state s)\<lparr>sg_starting := True\<rparr>, ws_calls := (ws_calls s)(t \<mapsto> Binding)\<rparr>"
  | t e where "ws_calls s t = Some Binding" "s' = s\<lparr>ws_calls := (ws_calls s)(t \<mapsto> BindFailed e)\<rparr>"
  | t where "ws_calls s t = Some Binding" "s' = s\<lparr>ws_calls := (ws_calls s)(t \<mapsto> Bound (ws_bound s)),
      ws_open := ws_open s @ [ws_bound s], ws_bound := Suc (ws_bound s)\<rparr>"
  | t e where "ws_calls s t = Some (BindFailed e)" "s' = Start_failed t e s"
  | t k where "ws_calls s t = Some (Bound k)" "sg_closed (ws_state s)"
      "s' = finish_server (close_listener k (s\<lparr>ws_state := (ws_state s)\<lparr>sg_starting := False\<rparr>,
             ws_calls := (ws_calls s)(t \<mapsto> StartReturned (Some (Sentinel ErrServerIsClosed)))\<rparr>))"
  | t k where "ws_calls s t = Some (Bound k)" "\<not> sg_closed (ws_state s)"
      "s' = s\<lparr>ws_state := (ws_state s)\<lparr>sg_starting := False, sg_started := True\<rparr>, ws_serving := ws_serving s @ [Serving k],
             ws_calls := (ws_calls s)(t \<mapsto> StartReturned None)\<rparr>"
  | i k p where "i < length (ws_serving s)" "ws_serving s ! i = Serving k" "p = Unwinding \<or> (\<exists>e. p = SendingError e)"
      "s' = close_listener k (s\<lparr>ws_serving := (ws_serving s)[i := p]\<rparr>)"
  | i e where "i < length (ws_serving s)" "ws_serving s ! i = SendingError e" "ws_errors s = []"
      "s' = s\<lparr>ws_errors := [e], ws_serving := (ws_serving s)[i := Unwinding]\<rparr>"
  | i where "i < length (ws_serving s)" "ws_serving s ! i = Unwinding"
      "s' = finish_server (s\<lparr>ws_serving := (ws_serving s)[i := Ended]\<rparr>)"
  | e es where "ws_errors s = e # es" "s' = s\<lparr>ws_errors := es\<rparr>"
  | "ws_close s = CloseIdle" "s' = Close_begin s"
  | "ws_close s = CloseMarked" "s' = s\<lparr>ws_close := CloseDraining, ws_down := True\<rparr>"
  | e where "ws_close s = CloseDraining" "s' = s\<lparr>ws_close := CloseFailing e\<rparr>"
  | se ce where "ws_close s = CloseDraining \<or> (\<exists>e. ws_close s = CloseFailing e)" "s' = s\<lparr>ws_close := CloseWaiting se ce\<rparr>"
  | r se ce where "ws_close s = CloseWaiting se ce" "ws_done s" "s' = s\<lparr>ws_close := CloseReturned r\<rparr>"
proof (cases l)
  case (StartCalled t err)
  with assms that(1,2) show ?thesis by (auto simp: Start_begin_def split: if_splits option.splits)
next
  case (ListenReturns t err)
  with assms that(3,4) show ?thesis by (cases err) (auto split: if_splits)
next
  case (StartResumes t)
  with assms that(5,6,7) show ?thesis
    by (auto simp: Start_bound_def Let_def split: if_splits option.splits start_call.splits)
next
  case (ServeReturns i err)
  have p: "after_serve err = Unwinding \<or> (\<exists>e. after_serve err = SendingError e)"
    by (auto simp: after_serve_def split: option.splits)
  with ServeReturns assms that(8) [OF _ _ p] show ?thesis
    by (auto simp: serving_at_def split: if_splits option.splits serve_phase.splits)
next
  case (ErrorSent i)
  with assms that(9) show ?thesis by (auto simp: serving_at_def split: if_splits option.splits serve_phase.splits)
next
  case (GoroutineEnds i)
  with assms that(10) show ?thesis by (auto simp: serving_at_def split: if_splits)
next
  case ErrorTaken
  with assms that(11) show ?thesis by (auto split: list.splits)
next
  case CloseCalled
  with assms that(12) show ?thesis by (auto split: if_splits)
next
  case ShutdownBegins
  with assms that(13) show ?thesis by (auto split: if_splits)
next
  case (ShutdownReturns err)
  with assms that(14,15) show ?thesis by (cases err) (auto split: if_splits)
next
  case (ServerCloseReturns err)
  with assms that(15) show ?thesis by (auto split: close_phase.splits)
next
  case DoneReceived
  with assms that(16) show ?thesis by (auto split: close_phase.splits if_splits)
qed

lemma start_inv_step:
  assumes "server_step l s = Some s'" "start_inv s"
  shows "start_inv s'"
  using assms(1)
proof (cases rule: step_cases)
  case (refused t e)
  then show ?thesis using assms(2) call_unknown [of "ws_calls s" t] by (auto simp: start_inv_def)
next
  case (binding t)
  then show ?thesis using assms(2) call_unknown [of "ws_calls s" t] by (simp add: start_inv_def)
next
  case (failed t e)
  then show ?thesis using start_inv_pending [OF assms(2) failed(1)] by (simp add: start_inv_def)
next
  case (listening t)
  then show ?thesis using start_inv_pending [OF assms(2) listening(1)] by (simp add: start_inv_def)
next
  case (gave_up t e)
  then show ?thesis using start_inv_pending [OF assms(2) gave_up(1)] by (simp add: start_inv_def server_updates)
next
  case (too_late t k)
  then show ?thesis using start_inv_pending [OF assms(2) too_late(1)] by (simp add: start_inv_def server_updates)
next
  case (started t k)
  then show ?thesis using start_inv_pending [OF assms(2) started(1)] by (simp add: start_inv_def)
qed (use assms(2) in \<open>simp_all add: start_inv_def server_updates\<close>)

lemma done_inv_step:
  assumes "server_step l s = Some s'" "start_inv s" "done_inv s"
  shows "done_inv s'"
  using assms(1)
proof (cases rule: step_cases)
  case (too_late t k)
  then show ?thesis using start_inv_pending [OF assms(2) too_late(1)] assms(3) by (simp add: done_inv_def server_updates)
next
  case (started t k)
  then show ?thesis using start_inv_pending [OF assms(2) started(1)] assms(3) by (auto simp: done_inv_def)
next
  case (served i k p)
  have "ws_serving s = [Serving k]" "i = 0" using start_inv_serving [OF assms(2) served(1)] served(2) by auto
  then show ?thesis using served(3,4) assms(3) by (auto simp: done_inv_def server_updates)
next
  case (sent i e)
  have "ws_serving s = [SendingError e]" "i = 0" using start_inv_serving [OF assms(2) sent(1)] sent(2) by auto
  then show ?thesis using sent(3,4) assms(3) by (auto simp: done_inv_def)
next
  case (ended i)
  have "ws_serving s = [Unwinding]" "i = 0" using start_inv_serving [OF assms(2) ended(1)] ended(2) by auto
  then show ?thesis using ended(3) assms(3) by (auto simp: done_inv_def server_updates)
qed (use assms(3) in \<open>auto simp: done_inv_def server_updates\<close>)

lemma listen_inv_step:
  assumes "server_step l s = Some s'" "start_inv s" "listen_inv s"
  shows "listen_inv s'"
  using assms(1)
proof (cases rule: step_cases)
  case (refused t e)
  then show ?thesis using assms(3) held_keep [of "ws_calls s" t] by (auto simp: listen_inv_def)
next
  case (binding t)
  then show ?thesis using assms(3) held_keep [of "ws_calls s" t] by (auto simp: listen_inv_def)
next
  case (failed t e)
  then show ?thesis using assms(3) held_keep [of "ws_calls s" t] by (auto simp: listen_inv_def)
next
  case (listening t)
  then show ?thesis using assms(3) held_keep [of "ws_calls s" t] held_new by (auto simp: listen_inv_def)
next
  case (gave_up t e)
  then show ?thesis using assms(3) held_keep [of "ws_calls s" t] by (auto simp: listen_inv_def server_updates)
next
  case (too_late t k)
  then show ?thesis using assms(3) held_move [of "ws_calls s" t k] by (auto simp: listen_inv_def server_updates)
next
  case (started t k)
  then show ?thesis using assms(3) held_move [of "ws_calls s" t k] by (auto simp: listen_inv_def)
next
  case (served i k p)
  have "ws_serving s = [Serving k]" "i = 0" using start_inv_serving [OF assms(2) served(1)] served(2) by auto
  then show ?thesis using served(4) assms(3) by (auto simp: listen_inv_def server_updates)
next
  case (sent i e)
  have "ws_serving s = [SendingError e]" "i = 0" using start_inv_serving [OF assms(2) sent(1)] sent(2) by auto
  then show ?thesis using sent(4) assms(3) by (auto simp: listen_inv_def)
next
  case (ended i)
  have "ws_serving s = [Unwinding]" "i = 0" using start_inv_serving [OF assms(2) ended(1)] ended(2) by auto
  then show ?thesis using ended(3) assms(3) by (auto simp: listen_inv_def server_updates)
qed (use assms(3) in \<open>simp_all add: listen_inv_def server_updates\<close>)

lemma close_inv_step:
  assumes "server_step l s = Some s'" "start_inv s" "done_inv s" "close_inv s"
  shows "close_inv s'"
  using assms(1)
proof (cases rule: step_cases)
  case (started t k)
  then show ?thesis using assms(4) by (auto simp: close_inv_def split: close_phase.splits)
next
  case (served i k p)
  have "ws_serving s = [Serving k]" using start_inv_serving [OF assms(2) served(1)] served(2) by auto
  then show ?thesis using served(4) assms(4) by (auto simp: close_inv_def server_updates split: close_phase.splits)
next
  case (sent i e)
  have "ws_serving s = [SendingError e]" using start_inv_serving [OF assms(2) sent(1)] sent(2) by auto
  then show ?thesis using sent(4) assms(4) by (auto simp: close_inv_def split: close_phase.splits)
next
  case (ended i)
  have "ws_serving s = [Unwinding]" using start_inv_serving [OF assms(2) ended(1)] ended(2) by auto
  then show ?thesis using ended(3) assms(4) by (auto simp: close_inv_def server_updates split: close_phase.splits)
next
  case marked
  then show ?thesis using assms(2,4) by (auto simp: close_inv_def start_inv_def server_updates split: if_splits)
next
  case (returned r se ce)
  then show ?thesis using assms(3,4) by (auto simp: close_inv_def done_inv_def)
qed (use assms(4) in \<open>auto simp: close_inv_def server_updates split: close_phase.splits\<close>)

definition server_inv :: "web_server \<Rightarrow> bool" where
  "server_inv s \<longleftrightarrow> start_inv s \<and> done_inv s \<and> listen_inv s \<and> close_inv s"

lemma reachable_inv: "server_reachable s \<Longrightarrow> server_inv s"
proof (induction rule: server_reachable.induct)
  case fresh
  show ?case
    by (simp add: server_inv_def start_inv_def done_inv_def listen_inv_def close_inv_def new_server_def
        on_the_way_def succeeded_def)
next
  case (stepped s l s')
  then show ?case
    unfolding server_inv_def using start_inv_step done_inv_step listen_inv_step close_inv_step by blast
qed

lemma server_run_inv: "server_run ls s = Some s' \<Longrightarrow> server_inv s \<Longrightarrow> server_inv s'"
proof (induction ls arbitrary: s)
  case (Cons l ls)
  then obtain s1 where s1: "server_step l s = Some s1" "server_run ls s1 = Some s'" by (auto split: option.splits)
  with Cons.IH [OF s1(2)] Cons.prems(2) show ?case
    unfolding server_inv_def using start_inv_step done_inv_step listen_inv_step close_inv_step by blast
qed simp

section \<open>What starting and closing promise\<close>

text \<open>
  C22.  One server, one goroutine.  In every reachable state at most one call of \<open>Start\<close> has succeeded,
  there is a serving goroutine exactly when one has, never two, and a goroutine with an error to
  report is never blocked, because the channel is empty then.
\<close>

theorem server_serves_once:
  assumes "server_reachable s"
  shows "length (ws_serving s) \<le> 1 \<and> (ws_serving s \<noteq> [] \<longleftrightarrow> (\<exists>t. ws_calls s t = Some (StartReturned None))) \<and>
    (\<forall>t u. ws_calls s t = Some (StartReturned None) \<and> ws_calls s u = Some (StartReturned None) \<longrightarrow> t = u) \<and>
    (\<forall>i e. serving_at i s = Some (SendingError e) \<longrightarrow> server_step (ErrorSent i) s \<noteq> None)"
proof -
  have inv: "start_inv s" "done_inv s" using reachable_inv [OF assms] by (simp_all add: server_inv_def)
  have one: "length (ws_serving s) \<le> 1" using inv(1) by (simp add: start_inv_def split: if_splits)
  have some: "ws_serving s \<noteq> [] \<longleftrightarrow> succeeded (ws_calls s) \<noteq> {}" using inv(1) by (auto simp: start_inv_def split: if_splits)
  have same: "t = u" if "t \<in> succeeded (ws_calls s)" "u \<in> succeeded (ws_calls s)" for t u
    using inv(1) that by (auto simp: start_inv_def split: if_splits)
  have free: "ws_errors s = []" if "serving_at i s = Some (SendingError e)" for i e
  proof -
    have "i < length (ws_serving s)" "ws_serving s ! i = SendingError e" using that by (auto simp: serving_at_def split: if_splits)
    with start_inv_serving [OF inv(1)] have "ws_serving s = [SendingError e]" by metis
    then show ?thesis using inv(2) by (auto simp: done_inv_def)
  qed
  show ?thesis using one some same free by (auto simp: succeeded_def)
qed

lemma closed_step:
  assumes "server_step l s = Some s'" "server_inv s" "ws_close s = CloseReturned r"
  shows "ws_close s' = CloseReturned r \<and> ws_serving s' = ws_serving s \<and> succeeded (ws_calls s') = succeeded (ws_calls s)"
proof -
  have inv: "start_inv s" "sg_closed (ws_state s)" "set (ws_serving s) \<subseteq> {Ended}"
    using assms(2,3) by (auto simp: server_inv_def close_inv_def)
  have ended: "ws_serving s ! i = Ended" if "i < length (ws_serving s)" for i using inv(3) that nth_mem by blast
  show ?thesis
    using assms(1)
  proof (cases rule: step_cases)
    case (refused t e)
    then show ?thesis using assms(3) call_unknown [of "ws_calls s" t] by auto
  next
    case (failed t e)
    then show ?thesis using assms(3) start_inv_pending [OF inv(1) failed(1)] by simp
  next
    case (listening t)
    then show ?thesis using assms(3) start_inv_pending [OF inv(1) listening(1)] by simp
  next
    case (gave_up t e)
    then show ?thesis using assms(3) start_inv_pending [OF inv(1) gave_up(1)] by (simp add: server_updates)
  next
    case (too_late t k)
    then show ?thesis using assms(3) start_inv_pending [OF inv(1) too_late(1)] by (simp add: server_updates)
  qed (use assms(3) inv ended in auto)
qed

lemma closed_run:
  "server_run ls s = Some s' \<Longrightarrow> server_inv s \<Longrightarrow> ws_close s = CloseReturned r \<Longrightarrow>
   ws_close s' = CloseReturned r \<and> ws_serving s' = ws_serving s \<and> succeeded (ws_calls s') = succeeded (ws_calls s)"
proof (induction ls arbitrary: s)
  case (Cons l ls)
  then obtain s1 where s1: "server_step l s = Some s1" "server_run ls s1 = Some s'" by (auto split: option.splits)
  have "server_inv s1" using server_run_inv [of "[l]" s s1] s1(1) Cons.prems(2) by simp
  then show ?case using Cons.IH [OF s1(2)] closed_step [OF s1(1) Cons.prems(2,3)] by simp
qed simp

text \<open>
  C23.  A closed server stays closed.  When \<open>Close\<close> has returned, every serving goroutine has ended;
  whatever happens afterwards, no goroutine is launched and no further \<open>Start\<close> succeeds, every
  open listener is in the hands of a \<open>Start\<close> that is still on its way, and such a call closes it and
  reports that the server is closed.
\<close>

theorem Close_leaves_nothing:
  assumes "server_reachable s" "ws_close s = CloseReturned r" "server_run ls s = Some s'"
  shows "ws_close s' = CloseReturned r \<and> ws_serving s' = ws_serving s \<and> set (ws_serving s) \<subseteq> {Ended} \<and>
    succeeded (ws_calls s') = succeeded (ws_calls s) \<and>
    (\<forall>l \<in> set (ws_open s'). \<exists>t. ws_calls s' t = Some (Bound l)) \<and>
    (\<forall>t l. ws_calls s' t = Some (Bound l) \<longrightarrow> (\<exists>s''. server_step (StartResumes t) s' = Some s'' \<and>
       l \<notin> set (ws_open s'') \<and> ws_calls s'' t = Some (StartReturned (Some (Sentinel ErrServerIsClosed)))))"
proof -
  have inv: "server_inv s" using reachable_inv [OF assms(1)] .
  then have inv': "server_inv s'" using server_run_inv [OF assms(3)] by simp
  have ended: "set (ws_serving s) \<subseteq> {Ended}" using inv assms(2) by (simp add: server_inv_def close_inv_def)
  note after = closed_run [OF assms(3) inv assms(2)]
  have closed: "sg_closed (ws_state s')" using inv' after by (simp add: server_inv_def close_inv_def)
  have "set (ws_open s') \<subseteq> held (ws_calls s')" using inv' after ended by (auto simp: server_inv_def listen_inv_def)
  then show ?thesis using after ended closed by (auto simp: held_def server_updates)
qed

definition goroutine_label :: "server_label \<Rightarrow> bool" where
  "goroutine_label l \<longleftrightarrow> (case l of ServeReturns i e \<Rightarrow> True | ErrorSent i \<Rightarrow> True | GoroutineEnds i \<Rightarrow> True
     | DoneReceived \<Rightarrow> True | _ \<Rightarrow> False)"

lemma waiting_cases [consumes 2, case_names working finished]:
  assumes "server_inv s" "ws_close s = CloseWaiting se ce"
  obtains p where "ws_serving s = [p]" "p \<noteq> Ended" "ws_down s" "ws_errors s = [] \<or> p = Unwinding"
  | "ws_serving s = [Ended]" "ws_done s"
proof -
  have inv: "start_inv s" "done_inv s" "sg_started (ws_state s)" "ws_down s"
    using assms by (simp_all add: server_inv_def close_inv_def)
  then obtain p where "ws_serving s = [p]" by (auto simp: start_inv_def length_Suc_conv)
  with inv that show thesis by (cases p) (auto simp: done_inv_def)
qed

text \<open>
  C24.  Closing finishes.  A call of \<open>Close\<close> that waits for the goroutine is never stuck: the goroutine
  has at most two steps left before the channel is closed, each of them possible, and then \<open>Close\<close>
  returns the errors of the shutdown.
\<close>

theorem Close_finishes:
  assumes "server_reachable s" "ws_close s = CloseWaiting se ce"
  shows "\<exists>ls s'. length ls \<le> 3 \<and> list_all goroutine_label ls \<and> server_run ls s = Some s' \<and>
    ws_close s' = CloseReturned (close_result se ce)"
proof -
  have inv: "server_inv s" using reachable_inv [OF assms(1)] .
  from inv assms(2) show ?thesis
  proof (cases rule: waiting_cases)
    case (working p)
    let ?first = "case p of Serving l \<Rightarrow> [ServeReturns 0 (Some (Sentinel ErrHTTPServerClosed))] | SendingError e \<Rightarrow> [ErrorSent 0] | _ \<Rightarrow> []"
    let ?ls = "?first @ [GoroutineEnds 0, DoneReceived]"
    have "\<exists>s'. server_run ?ls s = Some s' \<and> ws_close s' = CloseReturned (close_result se ce)"
      using working assms(2)
      by (cases p) (auto simp: server_updates after_serve_def serve_may_return_def split: option.splits)
    moreover have "length ?ls \<le> 3" "list_all goroutine_label ?ls" by (cases p; simp add: goroutine_label_def)+
    ultimately show ?thesis by blast
  next
    case finished
    then have "server_run [DoneReceived] s = Some (s\<lparr>ws_close := CloseReturned (close_result se ce)\<rparr>)"
      using assms(2) by simp
    then show ?thesis by (intro exI [of _ "[DoneReceived]"]) (auto simp: goroutine_label_def)
  qed
qed

section \<open>Examples\<close>

lemma reachable_run: "server_run ls s = Some s' \<Longrightarrow> server_reachable s \<Longrightarrow> server_reachable s'"
  by (induction ls arbitrary: s) (auto split: option.splits intro: server_reachable.stepped)

lemma reachable_demo: "server_run ls new_server = Some s \<Longrightarrow> server_reachable s"
  using reachable_run server_reachable.fresh by blast

text \<open>A server that was started, and one that was closed while a call of \<open>Start\<close> was on its way.\<close>

definition demo_started :: "server_label list" where
  "demo_started = [StartCalled 0 None, ListenReturns 0 None, StartResumes 0]"

definition demo_waiting :: "server_label list" where
  "demo_waiting = demo_started @ [CloseCalled, ShutdownBegins, ShutdownReturns None]"

definition demo_overtaken :: "server_label list" where
  "demo_overtaken = [StartCalled 0 None, ListenReturns 0 None, CloseCalled]"

lemmas demo_server = demo_started_def demo_waiting_def demo_overtaken_def new_server_def server_updates

theorem server_serves_once_witness:
  "\<exists>s. server_run demo_started new_server = Some s \<and> ws_serving s = [Serving 0] \<and>
     (\<forall>t u. ws_calls s t = Some (StartReturned None) \<and> ws_calls s u = Some (StartReturned None) \<longrightarrow> t = u)"
proof -
  obtain s where s: "server_run demo_started new_server = Some s" "ws_serving s = [Serving 0]"
    by (simp add: demo_server)
  with server_serves_once [OF reachable_demo [OF s(1)]] show ?thesis by blast
qed

theorem Close_leaves_nothing_witness:
  "\<exists>s. server_run demo_overtaken new_server = Some s \<and> ws_open s = [0] \<and> ws_calls s 0 = Some (Bound 0) \<and>
     (\<exists>s''. server_step (StartResumes 0) s = Some s'' \<and> 0 \<notin> set (ws_open s''))"
proof -
  obtain s where s: "server_run demo_overtaken new_server = Some s" "ws_open s = [0]" "ws_calls s 0 = Some (Bound 0)"
    "ws_close s = CloseReturned None"
    by (simp add: demo_server)
  have "server_run [] s = Some s" by simp
  from Close_leaves_nothing [OF reachable_demo [OF s(1)] s(4) this] s show ?thesis by blast
qed

theorem Close_finishes_witness:
  "\<exists>s ls s'. server_run demo_waiting new_server = Some s \<and> server_run ls s = Some s' \<and> ws_close s' = CloseReturned (close_result None None)"
proof -
  obtain s where s: "server_run demo_waiting new_server = Some s" "ws_close s = CloseWaiting None None"
    by (simp add: demo_server)
  from Close_finishes [OF reachable_demo [OF s(1)] s(2)] s(1) show ?thesis by blast
qed

end
