(* ===== verification/Model_Factories.thy ===== *)
theory Model_Factories
  imports Eino_Adapter
begin

text \<open>
  internal/provider/factory.go and the default registry of registry.go: the two Providers that the program
  knows, each with a factory that builds a connector of the library and wraps it.  The constructors of the
  connectors are parameters.
\<close>

definition DeepSeek :: string where "DeepSeek = ''deepseek''"
definition MiniMax :: string where "MiniMax = ''minimax''"

definition miniMaxOpenAIBaseURL :: string where
  "miniMaxOpenAIBaseURL = ''https://api.minimax.cn/v1''"

text \<open>What the constructors are given; only the second reads a base URL.\<close>

record deepseek_config =
  dc_api_key :: string
  dc_model :: string
  dc_temperature :: float32

record openai_config =
  oc_api_key :: string
  oc_model :: string
  oc_base_url :: string
  oc_temperature :: "float32 option"

record ('c, 'w) connector_constructors =
  cc_deepseek :: "goctx \<Rightarrow> deepseek_config \<Rightarrow> 'w \<Rightarrow> ('c option \<times> gerror option) \<times> 'w"
  cc_openai :: "goctx \<Rightarrow> openai_config \<Rightarrow> 'w \<Rightarrow> ('c option \<times> gerror option) \<times> 'w"

definition wrapped :: "'c option \<times> gerror option \<Rightarrow> 'c adapter option \<times> gerror option" where
  "wrapped built = (case wrapEinoChatModel (fst built) (snd built) of Inl e \<Rightarrow> (None, Some e) | Inr a \<Rightarrow> (Some a, None))"

definition defaultModelFactories :: "('c, 'w) connector_constructors \<Rightarrow> (string \<times> ('c adapter, 'w) factory) list" where
  "defaultModelFactories constructors =
     [(DeepSeek, \<lambda>ctx cfg w.
         let (built, w1) = cc_deepseek constructors ctx
           \<lparr>dc_api_key = pc_api_key cfg, dc_model = pc_model cfg, dc_temperature = pc_temperature cfg\<rparr> w
         in (wrapped built, w1)),
      (MiniMax, \<lambda>ctx cfg w.
         let (built, w1) = cc_openai constructors ctx
           \<lparr>oc_api_key = pc_api_key cfg, oc_model = pc_model cfg, oc_base_url = miniMaxOpenAIBaseURL,
            oc_temperature = Some (pc_temperature cfg)\<rparr> w
         in (wrapped built, w1))]"

definition NewDefaultRegistry :: "('c, 'w) connector_constructors \<Rightarrow> ('c adapter, 'w) registry" where
  "NewDefaultRegistry constructors =
     NewRegistry\<lparr>rg_factories := fold (\<lambda>(name, f) fs. put name f fs) (defaultModelFactories constructors) (rg_factories NewRegistry)\<rparr>"

text \<open>The alias of the constructor.\<close>

definition NewProviderRegistry :: "('m, 'w) registry" where
  "NewProviderRegistry = NewRegistry"

lemma default_registry_providers:
  "map_of (rg_factories (NewDefaultRegistry constructors)) name \<noteq> None \<longleftrightarrow> name = DeepSeek \<or> name = MiniMax"
  by (auto simp: NewDefaultRegistry_def NewRegistry_def defaultModelFactories_def DeepSeek_def MiniMax_def split: if_splits)

text \<open>A default factory never returns a model without a connector, nor a model with an error.\<close>

lemma default_factories_build:
  assumes "map_of (rg_factories (NewDefaultRegistry constructors)) name = Some f" "f ctx cfg w = ((m, e), w')"
  shows "(m = None \<longleftrightarrow> e \<noteq> None) \<and> (\<forall>a. m = Some a \<longrightarrow> ea_connector a \<noteq> None)"
  using assms
  by (auto simp: NewDefaultRegistry_def NewRegistry_def defaultModelFactories_def wrapped_def wrapEinoChatModel_def
      newEinoChatModelAdapter_def DeepSeek_def MiniMax_def split: if_splits prod.splits option.splits sum.splits)

end
