(* ===== verification/Server_Config.thy ===== *)
theory Server_Config
  imports Model_Factories
begin

text \<open>
  internal/config (config.go, expand.go, load.go): reading the configuration of the server.  The YAML library
  and \<open>time.ParseDuration\<close> are parameters; everything between the decoded document and the validated
  configuration is modelled.
\<close>

section \<open>Documents\<close>

datatype yaml_kind = NoNode | DocumentNode | SequenceNode | MappingNode | ScalarNode | AliasNode

datatype yaml_node = YNode (yn_kind: yaml_kind) (yn_tag: string) (yn_value: string) (yn_line: int) (yn_content: "yaml_node list")

definition zero_node :: yaml_node where
  "zero_node = YNode NoNode [] [] 0 []"

text \<open>The keys and values of a mapping; a key without a value is passed over.\<close>

fun pairs :: "'a list \<Rightarrow> ('a \<times> 'a) list" where
  "pairs (k # v # rest) = (k, v) # pairs rest"
| "pairs _ = []"

fun first_fail :: "('a \<Rightarrow> 'e option) \<Rightarrow> 'a list \<Rightarrow> 'e option" where
  "first_fail check [] = None"
| "first_fail check (x # xs) = (case check x of None \<Rightarrow> first_fail check xs | Some e \<Rightarrow> Some e)"

lemma first_fail_None [simp]: "first_fail check xs = None \<longleftrightarrow> (\<forall>x \<in> set xs. check x = None)"
  by (induction xs) (auto split: option.splits)

lemma first_fail_Some: "first_fail check xs = Some e \<Longrightarrow> \<exists>x \<in> set xs. check x = Some e"
  by (induction xs) (auto split: option.splits)

lemma first_fail_cong [fundef_cong]:
  "xs = ys \<Longrightarrow> (\<And>x. x \<in> set ys \<Longrightarrow> f x = g x) \<Longrightarrow> first_fail f xs = first_fail g ys"
  by (induction ys arbitrary: xs) (auto split: option.splits)

lemma set_pairs: "(k, v) \<in> set (pairs xs) \<Longrightarrow> k \<in> set xs \<and> v \<in> set xs"
  by (induction xs rule: pairs.induct) auto

section \<open>Configurations\<close>

text \<open>The decoded document: \<open>None\<close> for a field that is not there.\<close>

record raw_provider_definition =
  rp_name :: "string option"
  rp_api_key :: "string option"

record raw_http =
  rh_read_header_timeout :: "string option"
  rh_read_timeout :: "string option"
  rh_write_timeout :: "string option"
  rh_idle_timeout :: "string option"

record raw_server_config =
  rs_listen_address :: "string option"
  rs_log_format :: "string option"
  rs_providers :: "raw_provider_definition list"
  rs_http :: "raw_http option"
  rs_shutdown_timeout :: "string option"

definition empty_raw :: raw_server_config where
  "empty_raw = \<lparr>rs_listen_address = None, rs_log_format = None, rs_providers = [], rs_http = None, rs_shutdown_timeout = None\<rparr>"

definition LogFormatConsole :: string where "LogFormatConsole = ''console''"
definition LogFormatJSON :: string where "LogFormatJSON = ''json''"

record server_config =
  sc_listen_address :: string
  sc_log_format :: string
  sc_providers :: "provider_definition list"
  sc_read_header_timeout :: duration
  sc_read_timeout :: duration
  sc_write_timeout :: duration
  sc_idle_timeout :: duration
  sc_shutdown_timeout :: duration

text \<open>
  What the code uses of the YAML library, and of \<open>time\<close>: the results of decoding document after document, of
  encoding a node, and of decoding document after document strictly; a value that is decoded and dropped is a
  configuration here.
\<close>

record yaml_library =
  yl_documents :: "string \<Rightarrow> (gerror + yaml_node) list"
  yl_encode :: "yaml_node \<Rightarrow> gerror + string"
  yl_encode_close :: "gerror option"
  yl_strict :: "string \<Rightarrow> (gerror + raw_server_config) list"
  yl_type_errors :: "gerror \<Rightarrow> string list option"
  yl_parse_duration :: "string \<Rightarrow> gerror + duration"

section \<open>Errors\<close>

text \<open>The text of a \<open>configError\<close> is sanitized; it unwraps to its cause.\<close>

definition newConfigError :: "url_parser \<Rightarrow> string \<Rightarrow> string \<Rightarrow> gerror option \<Rightarrow> gerror" where
  "newConfigError U path message cause =
     Foreign (''config '' @ path @ '': '' @ SanitizeErrorString U message) None None (case cause of None \<Rightarrow> [] | Some e \<Rightarrow> [e])"

definition configPath :: "string list \<Rightarrow> string" where
  "configPath path = (if path = [] then ''document'' else join ''.'' path)"

section \<open>Decoding\<close>

fun decode_next :: "(gerror + 'a) list \<Rightarrow> (gerror + 'a) \<times> (gerror + 'a) list" where
  "decode_next [] = (Inl (Sentinel EOF), [])"
| "decode_next (r # rs) = (r, rs)"

definition decodeSingleDocument :: "url_parser \<Rightarrow> yaml_library \<Rightarrow> string \<Rightarrow> gerror + yaml_node" where
  "decodeSingleDocument U L source =
     (let (first, rest) = decode_next (yl_documents L source) in
      case (case first of Inl e \<Rightarrow> if errors_is EOF e then Inr zero_node else Inl e | Inr d \<Rightarrow> Inr d) of
        Inl e \<Rightarrow> Inl (newConfigError U ''document'' ''invalid YAML document'' (Some e))
      | Inr document \<Rightarrow>
          (let (trailing, rest) = decode_next rest in
           case trailing of
             Inl e \<Rightarrow> if errors_is EOF e then Inr document
               else Inl (newConfigError U ''document'' ''invalid trailing YAML document'' (Some e))
           | Inr d \<Rightarrow> Inl (newConfigError U ''document'' ''must contain exactly one YAML document'' None)))"

text \<open>The keys of a mapping in order, each refused when it was seen before, its value searched next.\<close>

fun check_pairs :: "(string \<Rightarrow> 'e) \<Rightarrow> ('n \<Rightarrow> string) \<Rightarrow> ('n \<Rightarrow> string \<Rightarrow> 'e option) \<Rightarrow> string list \<Rightarrow> ('n \<times> 'n) list \<Rightarrow> 'e option" where
  "check_pairs duplicate key_of below seen [] = None"
| "check_pairs duplicate key_of below seen ((k, v) # ps) =
     (if key_of k \<in> set seen then Some (duplicate (key_of k))
      else (case below v (key_of k) of
          Some e \<Rightarrow> Some e
        | None \<Rightarrow> check_pairs duplicate key_of below (key_of k # seen) ps))"

lemma check_pairs_same:
  "(\<And>k v s. (k, v) \<in> set ps \<Longrightarrow> f v s = g v s) \<Longrightarrow> check_pairs d kf f seen ps = check_pairs d kf g seen ps"
proof (induction ps arbitrary: seen)
  case (Cons p ps)
  obtain k v where p: "p = (k, v)" by fastforce
  have "f v (kf k) = g v (kf k)" using Cons.prems [of k v] p by simp
  moreover have "check_pairs d kf f sn ps = check_pairs d kf g sn ps" for sn
  proof (rule Cons.IH)
    fix k v s
    assume "(k, v) \<in> set ps"
    then show "f v s = g v s" using Cons.prems [of k v s] by simp
  qed
  ultimately show ?case by (simp add: p split: option.splits)
qed simp

lemma check_pairs_cong [fundef_cong]:
  assumes "ps = qs" "d = d'" "kf = kf'" "seen = seen'" "\<And>k v s. (k, v) \<in> set qs \<Longrightarrow> f v s = g v s"
  shows "check_pairs d kf f seen ps = check_pairs d' kf' g seen' qs"
  using check_pairs_same [of qs f g d' kf' seen'] assms by simp

lemma size_child:
  assumes "n \<in> set (yn_content m)"
  shows "size n < size m"
proof (cases m)
  case (YNode k t v l cs)
  have "n \<in> set cs" using assms YNode by simp
  then have "size n \<le> size_list size cs" by (rule size_list_estimation') (rule order_refl)
  then show ?thesis using YNode by simp
qed

lemma size_pair: "(k, v) \<in> set (pairs (yn_content m)) \<Longrightarrow> size v < size m"
  using set_pairs [of k v "yn_content m"] size_child [of v m] by simp

function rejectDuplicateKeys :: "url_parser \<Rightarrow> yaml_node \<Rightarrow> string list \<Rightarrow> gerror option" where
  "rejectDuplicateKeys U node path = (case yn_kind node of
     DocumentNode \<Rightarrow> first_fail (\<lambda>child. rejectDuplicateKeys U child path) (yn_content node)
   | MappingNode \<Rightarrow>
       check_pairs (\<lambda>key. newConfigError U (configPath (path @ [key])) ''duplicate key'' None) yn_value
         (\<lambda>value key. rejectDuplicateKeys U value (path @ [key])) [] (pairs (yn_content node))
   | SequenceNode \<Rightarrow> first_fail (\<lambda>child. rejectDuplicateKeys U child path) (yn_content node)
   | _ \<Rightarrow> None)"
  by pat_completeness auto
termination
  by (relation "measure (\<lambda>(U, node, path). size node)") (auto dest: size_child size_pair)

declare rejectDuplicateKeys.simps [simp del]

section \<open>Environment placeholders\<close>

definition ascii_letter :: "rune \<Rightarrow> bool" where
  "ascii_letter r \<longleftrightarrow> 0x41 \<le> r \<and> r \<le> 0x5A \<or> 0x61 \<le> r \<and> r \<le> 0x7A"

definition ascii_digit :: "rune \<Rightarrow> bool" where
  "ascii_digit r \<longleftrightarrow> 0x30 \<le> r \<and> r \<le> 0x39"

definition validEnvironmentName :: "string \<Rightarrow> bool" where
  "validEnvironmentName name = (case decode_runes name of
     [] \<Rightarrow> False
   | r # rs \<Rightarrow> (r = 0x5F \<or> ascii_letter r) \<and> list_all (\<lambda>r. r = 0x5F \<or> ascii_letter r \<or> ascii_digit r) rs)"

type_synonym environment = "(string \<Rightarrow> string option) option"

text \<open>The loop over the rest of the value, with what was built so far.\<close>

function expand_rest :: "url_parser \<Rightarrow> string \<Rightarrow> environment \<Rightarrow> string \<Rightarrow> string \<Rightarrow> gerror + string" where
  "expand_rest U path env built rest =
     (if rest = [] then Inr built
      else case index_of rest ''${'' of
        None \<Rightarrow> Inr (built @ rest)
      | Some start \<Rightarrow>
          (let built = built @ take start rest; rest = drop (start + 2) rest in
           case index_of rest ''}'' of
             None \<Rightarrow> Inl (newConfigError U path ''malformed environment placeholder'' None)
           | Some stop \<Rightarrow>
               (let name = take stop rest;
                    unset = newConfigError U path (''environment variable '' @ name @ '' is not set'') None in
                if \<not> validEnvironmentName name
                then Inl (newConfigError U path ''malformed environment placeholder'' None)
                else (case env of
                    None \<Rightarrow> Inl unset
                  | Some lookup \<Rightarrow> (case lookup name of
                      None \<Rightarrow> Inl unset
                    | Some resolved \<Rightarrow> expand_rest U path env (built @ resolved) (drop (stop + 1) rest))))))"
  by pat_completeness auto
termination
  by (relation "measure (\<lambda>(U, path, env, built, rest). length rest)") auto

declare expand_rest.simps [simp del]

definition expandString :: "url_parser \<Rightarrow> string \<Rightarrow> string \<Rightarrow> environment \<Rightarrow> gerror + string" where
  "expandString U value path env = expand_rest U path env [] value"

fun map_fail :: "('a \<Rightarrow> 'e + 'b) \<Rightarrow> 'a list \<Rightarrow> 'e + 'b list" where
  "map_fail f [] = Inr []"
| "map_fail f (x # xs) = (case f x of Inl e \<Rightarrow> Inl e | Inr y \<Rightarrow> map_sum id ((#) y) (map_fail f xs))"

lemma map_fail_cong [fundef_cong]:
  "xs = ys \<Longrightarrow> (\<And>x. x \<in> set ys \<Longrightarrow> f x = g x) \<Longrightarrow> map_fail f xs = map_fail g ys"
  by (induction ys arbitrary: xs) (auto split: sum.splits)

text \<open>The values of a mapping are replaced where they are, a key without a value stays.\<close>

fun put_values :: "'a list \<Rightarrow> 'a list \<Rightarrow> 'a list" where
  "put_values (k # v # rest) (v' # vs) = k # v' # put_values rest vs"
| "put_values xs vs = xs"

definition with_content :: "yaml_node \<Rightarrow> yaml_node list \<Rightarrow> yaml_node" where
  "with_content n cs = YNode (yn_kind n) (yn_tag n) (yn_value n) (yn_line n) cs"

text \<open>The source changes the document in place; here the changed document is returned.\<close>

function expandScalars :: "url_parser \<Rightarrow> yaml_node \<Rightarrow> string list \<Rightarrow> environment \<Rightarrow> gerror + yaml_node" where
  "expandScalars U node path env = (case yn_kind node of
     DocumentNode \<Rightarrow>
       map_sum id (with_content node) (map_fail (\<lambda>child. expandScalars U child path env) (yn_content node))
   | MappingNode \<Rightarrow>
       map_sum id (\<lambda>vs. with_content node (put_values (yn_content node) vs))
         (map_fail (\<lambda>(key, value). expandScalars U value (path @ [yn_value key]) env) (pairs (yn_content node)))
   | SequenceNode \<Rightarrow>
       map_sum id (with_content node) (map_fail (\<lambda>child. expandScalars U child path env) (yn_content node))
   | ScalarNode \<Rightarrow>
       if yn_tag node \<noteq> ''!!str'' \<or> \<not> contains (yn_value node) ''${'' then Inr node
       else map_sum id (\<lambda>expanded. YNode ScalarNode (yn_tag node) expanded (yn_line node) (yn_content node))
              (expandString U (yn_value node) (configPath path) env)
   | _ \<Rightarrow> Inr node)"
  by pat_completeness auto
termination
  by (relation "measure (\<lambda>(U, node, path, env). size node)") (auto dest: size_child size_pair)

declare expandScalars.simps [simp del]

section \<open>The shape of the document\<close>

definition validateScalarString :: "url_parser \<Rightarrow> yaml_node \<Rightarrow> string \<Rightarrow> gerror option" where
  "validateScalarString U node path =
     (if yn_kind node = ScalarNode \<and> yn_tag node = ''!!null'' then Some (newConfigError U path ''must not be null'' None)
      else if yn_kind node \<noteq> ScalarNode \<or> yn_tag node \<noteq> ''!!str''
      then Some (newConfigError U path ''must be a scalar string'' None)
      else None)"

definition http_shape :: "url_parser \<Rightarrow> yaml_node \<Rightarrow> gerror option" where
  "http_shape U value =
     (if yn_kind value \<noteq> MappingNode then Some (newConfigError U ''http'' ''must be a mapping'' None)
      else first_fail (\<lambda>(k, v).
        if yn_value k \<in> set [''read_header_timeout'', ''read_timeout'', ''write_timeout'', ''idle_timeout'']
        then validateScalarString U v (''http.'' @ yn_value k) else None) (pairs (yn_content value)))"

definition provider_shape :: "url_parser \<Rightarrow> nat \<times> yaml_node \<Rightarrow> gerror option" where
  "provider_shape U p = (case p of (i, provider) \<Rightarrow>
     let path = ''providers.'' @ itoa (int i) in
     if yn_kind provider \<noteq> MappingNode then Some (newConfigError U path ''must be a mapping'' None)
     else first_fail (\<lambda>(k, v).
       if yn_value k = ''name'' \<or> yn_value k = ''api_key''
       then validateScalarString U v (path @ ''.'' @ yn_value k) else None) (pairs (yn_content provider)))"

definition validateYAMLShape :: "url_parser \<Rightarrow> yaml_node \<Rightarrow> gerror option" where
  "validateYAMLShape U document =
     (if yn_kind document \<noteq> DocumentNode \<or> yn_content document = [] then None
      else let root = hd (yn_content document) in
        if yn_kind root \<noteq> MappingNode then Some (newConfigError U ''document'' ''must be a mapping'' None)
        else first_fail (\<lambda>(k, v).
          if yn_value k \<in> set [''listen_address'', ''log_format'', ''shutdown_timeout'']
          then validateScalarString U v (yn_value k)
          else if yn_value k = ''http'' then http_shape U v
          else if yn_value k = ''providers''
          then (if yn_kind v \<noteq> SequenceNode then Some (newConfigError U ''providers'' ''must be a sequence'' None)
                else first_fail (provider_shape U) (enumerate 0 (yn_content v)))
          else None) (pairs (yn_content root)))"

section \<open>Decoding errors\<close>

text \<open>\<open>strconv.Atoi\<close>, for an \<open>int\<close> of 64 bits.\<close>

fun digits_value :: "string \<Rightarrow> int \<Rightarrow> int" where
  "digits_value [] n = n"
| "digits_value (c # cs) n = digits_value cs (n * 10 + int (byte c) - 0x30)"

definition Atoi :: "string \<Rightarrow> gerror + int" where
  "Atoi s =
     (let unsigned = (if has_prefix s ''-'' \<or> has_prefix s ''+'' then tl s else s);
          n = (if has_prefix s ''-'' then - digits_value unsigned 0 else digits_value unsigned 0) in
      if unsigned = [] \<or> \<not> list_all (\<lambda>c. 0x30 \<le> byte c \<and> byte c \<le> 0x39) unsigned
      then Inl (Foreign (''strconv.Atoi: parsing '' @ quote s @ '': invalid syntax'') None None [])
      else if n < - (2 ^ 63) \<or> 2 ^ 63 \<le> n
      then Inl (Foreign (''strconv.Atoi: parsing '' @ quote s @ '': value out of range'') None None [])
      else Inr n)"

definition yamlErrorLine :: "string \<Rightarrow> int option" where
  "yamlErrorLine message =
     (if \<not> has_prefix message ''line '' then None
      else let rest = drop 5 message in
        (case index_of rest '':'' of None \<Rightarrow> None
         | Some stop \<Rightarrow> (case Atoi (take stop rest) of Inl e \<Rightarrow> None | Inr n \<Rightarrow> Some n)))"

text \<open>The loops below return at the first element that gives a result; no result is the empty path.\<close>

definition path_or_empty :: "string option \<Rightarrow> string" where
  "path_or_empty found = (case found of None \<Rightarrow> [] | Some path \<Rightarrow> path)"

function findMappingFieldPathByLine :: "yaml_node \<Rightarrow> string list \<Rightarrow> int \<Rightarrow> string" where
  "findMappingFieldPathByLine node path line =
     (if yn_kind node \<noteq> MappingNode then []
      else path_or_empty (first_fail (\<lambda>(key, value).
        let fieldPath = path @ [yn_value key];
            nested = findMappingFieldPathByLine value fieldPath line in
        if nested \<noteq> [] then Some nested
        else if yn_line value = line \<or> yn_line key = line then Some (configPath fieldPath) else None) (pairs (yn_content node))))"
  by pat_completeness auto
termination
  by (relation "measure (\<lambda>(node, path, line). size node)") (auto dest: size_pair)

declare findMappingFieldPathByLine.simps [simp del]

definition findYAMLFieldPathByLine :: "yaml_node \<Rightarrow> int \<Rightarrow> string" where
  "findYAMLFieldPathByLine document line =
     (if yn_kind document \<noteq> DocumentNode \<or> yn_content document = [] then []
      else findMappingFieldPathByLine (hd (yn_content document)) [] line)"

definition findYAMLDecodeErrorPath :: "yaml_library \<Rightarrow> yaml_node \<Rightarrow> gerror \<Rightarrow> string" where
  "findYAMLDecodeErrorPath L document cause = (case yl_type_errors L cause of
     None \<Rightarrow> []
   | Some messages \<Rightarrow> path_or_empty (first_fail (\<lambda>message. case yamlErrorLine message of
       None \<Rightarrow> None
     | Some line \<Rightarrow> (let path = findYAMLFieldPathByLine document line in if path \<noteq> [] then Some path else None)) messages))"

definition unknownField :: "string \<Rightarrow> string" where
  "unknownField message = (case index_of message ''field '' of
     None \<Rightarrow> []
   | Some start \<Rightarrow>
       (let rest = drop (start + 6) message in
        case index_of rest '' not found'' of None \<Rightarrow> [] | Some stop \<Rightarrow> take stop rest))"

text \<open>The path of the mapping that has the field, and the field.\<close>

function findMappingField :: "yaml_node \<Rightarrow> string list \<Rightarrow> string \<Rightarrow> string \<times> string" where
  "findMappingField node path field =
     (if yn_kind node \<noteq> MappingNode then ([], field)
      else
        (path_or_empty (first_fail (\<lambda>(key, value).
           if yn_value key = field then Some (configPath path)
           else let found = fst (findMappingField value (path @ [yn_value key]) field)
             in if found \<noteq> [] then Some found else None) (pairs (yn_content node))), field))"
  by pat_completeness auto
termination
  by (relation "measure (\<lambda>(node, path, field). size node)") (auto dest: size_pair)

declare findMappingField.simps [simp del]

definition findYAMLFieldPath :: "yaml_node \<Rightarrow> string \<Rightarrow> string \<times> string" where
  "findYAMLFieldPath document field =
     (if yn_kind document \<noteq> DocumentNode \<or> yn_content document = [] then ([], field)
      else findMappingField (hd (yn_content document)) [] field)"

definition strictDecodeError :: "url_parser \<Rightarrow> yaml_library \<Rightarrow> yaml_node \<Rightarrow> gerror \<Rightarrow> gerror" where
  "strictDecodeError U L document cause =
     (let field = unknownField (error_text cause) in
      if field = []
      then let path = findYAMLDecodeErrorPath L document cause in
        newConfigError U (if path = [] then ''document'' else path) ''invalid server configuration'' (Some cause)
      else let (path, key) = findYAMLFieldPath document field in
        newConfigError U (if path = [] then ''document'' else path) (''unknown field '' @ quote key) (Some cause))"

definition decodeStrictRaw :: "url_parser \<Rightarrow> yaml_library \<Rightarrow> yaml_node \<Rightarrow> gerror + raw_server_config" where
  "decodeStrictRaw U L document =
     (if yn_kind document = NoNode \<or> yn_content document = [] then Inr empty_raw
      else case yl_encode L document of
        Inl e \<Rightarrow> Inl (newConfigError U ''document'' ''could not encode YAML document'' (Some e))
      | Inr encoded \<Rightarrow> (case yl_encode_close L of
          Some e \<Rightarrow> Inl (newConfigError U ''document'' ''could not encode YAML document'' (Some e))
        | None \<Rightarrow>
            (let (first, rest) = decode_next (yl_strict L encoded) in
             case first of
               Inl e \<Rightarrow> Inl (strictDecodeError U L document e)
             | Inr raw \<Rightarrow> (case fst (decode_next rest) of
                 Inr d \<Rightarrow> Inl (newConfigError U ''document'' ''must contain exactly one YAML document'' None)
               | Inl e \<Rightarrow>
                   if errors_is EOF e then Inr raw
                   else Inl (newConfigError U ''document'' ''invalid trailing YAML document'' (Some e))))))"

section \<open>Validation\<close>

definition stringOrDefault :: "string option \<Rightarrow> string \<Rightarrow> string" where
  "stringOrDefault v defaultValue = (case v of None \<Rightarrow> defaultValue | Some s \<Rightarrow> s)"

definition rawHTTPValue :: "raw_http option \<Rightarrow> (raw_http \<Rightarrow> string option) \<Rightarrow> string option" where
  "rawHTTPValue http field = (case http of None \<Rightarrow> None | Some h \<Rightarrow> field h)"

text \<open>\<open>net.SplitHostPort\<close>: the port is what follows the last colon, and a host with colons is in brackets.\<close>

definition address_error :: "string \<Rightarrow> string \<Rightarrow> gerror" where
  "address_error address why =
     Foreign ((if address = [] then [] else ''address '' @ address @ '': '') @ why) None None []"

definition bracketed :: "string \<Rightarrow> string \<Rightarrow> string" where
  "bracketed text c = text @ [CHR 0x27] @ c @ [CHR 0x27] @ '' in address''"

definition last_colon :: "string \<Rightarrow> nat option" where
  "last_colon s = map_option (\<lambda>k. length s - 1 - k) (index_of (rev s) '':'')"

definition SplitHostPort :: "string \<Rightarrow> gerror + string \<times> string" where
  "SplitHostPort hostport =
     (let failed = (\<lambda>why. Inl (address_error hostport why));
          finish = (\<lambda>host i j k.
            if contains (drop j hostport) ''['' then failed (bracketed ''unexpected '' ''['')
            else if contains (drop k hostport) '']'' then failed (bracketed ''unexpected '' '']'')
            else Inr (host, drop (i + 1) hostport)) in
      case last_colon hostport of
        None \<Rightarrow> failed ''missing port in address''
      | Some i \<Rightarrow>
          if hd hostport = CHR ''['' then
            (case index_of hostport '']'' of
               None \<Rightarrow> failed (bracketed ''missing '' '']'')
             | Some stop \<Rightarrow>
                 if stop + 1 = length hostport then failed ''missing port in address''
                 else if stop + 1 \<noteq> i
                 then failed (if hostport ! (stop + 1) = CHR '':'' then ''too many colons in address'' else ''missing port in address'')
                 else finish (take (stop - 1) (drop 1 hostport)) i 1 (stop + 1))
          else let host = take i hostport in
            if contains host '':'' then failed ''too many colons in address'' else finish host i 0 0)"

definition validateListenAddress :: "url_parser \<Rightarrow> string \<Rightarrow> gerror option" where
  "validateListenAddress U address =
     (let refused = (\<lambda>cause. Some (newConfigError U ''listen_address''
            ''must be a non-empty host:port with a port from 1 through 65535'' cause)) in
      case SplitHostPort address of
        Inl e \<Rightarrow> refused (Some e)
      | Inr (host, portText) \<Rightarrow>
          if host = [] then refused None
          else (case Atoi portText of
              Inl e \<Rightarrow> refused (Some e)
            | Inr port \<Rightarrow> if port < 1 \<or> 65535 < port then refused None else None))"

definition parsePositiveDuration :: "url_parser \<Rightarrow> yaml_library \<Rightarrow> string \<Rightarrow> string \<Rightarrow> gerror + duration" where
  "parsePositiveDuration U L path v =
     (let refused = (\<lambda>cause. Inl (newConfigError U path ''must be a Go duration greater than zero'' cause)) in
      case yl_parse_duration L v of
        Inl e \<Rightarrow> refused (Some e)
      | Inr d \<Rightarrow> if d \<le> 0 then refused None else Inr d)"

text \<open>The loop over the Providers, from position \<open>i\<close> on, with those accepted so far.\<close>

fun providers_from :: "url_parser \<Rightarrow> nat \<Rightarrow> raw_provider_definition list \<Rightarrow> provider_definition list \<Rightarrow> gerror + provider_definition list" where
  "providers_from U i [] providers = Inr providers"
| "providers_from U i (r # rs) providers =
     (let path = ''providers.'' @ itoa (int i);
          name = trim_space (stringOrDefault (rp_name r) []);
          apiKey = stringOrDefault (rp_api_key r) [] in
      if name = [] then Inl (newConfigError U (path @ ''.name'') ''must not be empty'' None)
      else if name \<noteq> ''deepseek'' \<and> name \<noteq> ''minimax''
      then Inl (newConfigError U (path @ ''.name'') (''unsupported provider '' @ quote name) None)
      else if name \<in> set (map pd_name providers)
      then Inl (newConfigError U (path @ ''.name'') (''duplicate provider '' @ quote name) None)
      else if blank apiKey then Inl (newConfigError U (path @ ''.api_key'') ''must not be empty'' None)
      else providers_from U (Suc i) rs (providers @ [\<lparr>pd_name = name, pd_api_key = apiKey\<rparr>]))"

definition validateProviders :: "url_parser \<Rightarrow> raw_provider_definition list \<Rightarrow> gerror + provider_definition list" where
  "validateProviders U rawProviders = providers_from U 0 rawProviders []"

definition validateServerConfig :: "url_parser \<Rightarrow> yaml_library \<Rightarrow> raw_server_config \<Rightarrow> gerror + server_config" where
  "validateServerConfig U L raw =
     (let listenAddress = stringOrDefault (rs_listen_address raw) ''127.0.0.1:8080'';
          logFormat = stringOrDefault (rs_log_format raw) ''console'';
          http = (\<lambda>path field defaultValue. parsePositiveDuration U L path (stringOrDefault (rawHTTPValue (rs_http raw) field) defaultValue)) in
      case validateListenAddress U listenAddress of
        Some e \<Rightarrow> Inl e
      | None \<Rightarrow>
          if logFormat \<noteq> LogFormatConsole \<and> logFormat \<noteq> LogFormatJSON
          then Inl (newConfigError U ''log_format''
            (''must be one of '' @ [CHR 0x22] @ ''console'' @ [CHR 0x22] @ '' or '' @ [CHR 0x22] @ ''json'' @ [CHR 0x22]) None)
          else (case http ''http.read_header_timeout'' rh_read_header_timeout ''5s'' of
            Inl e \<Rightarrow> Inl e
          | Inr readHeaderTimeout \<Rightarrow> (case http ''http.read_timeout'' rh_read_timeout ''30s'' of
            Inl e \<Rightarrow> Inl e
          | Inr readTimeout \<Rightarrow> (case http ''http.write_timeout'' rh_write_timeout ''5m'' of
            Inl e \<Rightarrow> Inl e
          | Inr writeTimeout \<Rightarrow> (case http ''http.idle_timeout'' rh_idle_timeout ''60s'' of
            Inl e \<Rightarrow> Inl e
          | Inr idleTimeout \<Rightarrow>
              (case parsePositiveDuration U L ''shutdown_timeout'' (stringOrDefault (rs_shutdown_timeout raw) ''30s'') of
            Inl e \<Rightarrow> Inl e
          | Inr shutdownTimeout \<Rightarrow> (case validateProviders U (rs_providers raw) of
            Inl e \<Rightarrow> Inl e
          | Inr providers \<Rightarrow> Inr \<lparr>sc_listen_address = listenAddress, sc_log_format = logFormat, sc_providers = providers,
              sc_read_header_timeout = readHeaderTimeout, sc_read_timeout = readTimeout, sc_write_timeout = writeTimeout,
              sc_idle_timeout = idleTimeout, sc_shutdown_timeout = shutdownTimeout\<rparr>)))))))"

definition LoadServerYAML :: "url_parser \<Rightarrow> yaml_library \<Rightarrow> string \<Rightarrow> environment \<Rightarrow> gerror + server_config" where
  "LoadServerYAML U L source env = (case decodeSingleDocument U L source of
     Inl e \<Rightarrow> Inl e
   | Inr document \<Rightarrow>
       (case (if yn_kind document = NoNode then Inr document
              else case rejectDuplicateKeys U document [] of
                Some e \<Rightarrow> Inl e
              | None \<Rightarrow> (case expandScalars U document [] env of
                  Inl e \<Rightarrow> Inl e
                | Inr expanded \<Rightarrow> (case validateYAMLShape U expanded of Some e \<Rightarrow> Inl e | None \<Rightarrow> Inr expanded))) of
          Inl e \<Rightarrow> Inl e
        | Inr document \<Rightarrow> (case decodeStrictRaw U L document of
            Inl e \<Rightarrow> Inl e
          | Inr raw \<Rightarrow> validateServerConfig U L raw)))"

section \<open>What a loaded configuration promises\<close>

definition usable_address :: "string \<Rightarrow> bool" where
  "usable_address address = (case SplitHostPort address of
     Inl e \<Rightarrow> False
   | Inr (host, port) \<Rightarrow> host \<noteq> [] \<and> (case Atoi port of Inl e \<Rightarrow> False | Inr n \<Rightarrow> 1 \<le> n \<and> n \<le> 65535))"

definition usable_providers :: "provider_definition list \<Rightarrow> bool" where
  "usable_providers ps \<longleftrightarrow> distinct (map pd_name ps) \<and>
     list_all (\<lambda>d. (pd_name d = ''deepseek'' \<or> pd_name d = ''minimax'') \<and> \<not> blank (pd_api_key d)) ps"

definition valid_server_config :: "server_config \<Rightarrow> bool" where
  "valid_server_config c \<longleftrightarrow> usable_address (sc_listen_address c) \<and>
     (sc_log_format c = LogFormatConsole \<or> sc_log_format c = LogFormatJSON) \<and> usable_providers (sc_providers c) \<and>
     0 < sc_read_header_timeout c \<and> 0 < sc_read_timeout c \<and> 0 < sc_write_timeout c \<and> 0 < sc_idle_timeout c \<and>
     0 < sc_shutdown_timeout c"

lemma providers_from_usable: "providers_from U i rs ps = Inr qs \<Longrightarrow> usable_providers ps \<Longrightarrow> usable_providers qs"
  by (induction U i rs ps rule: providers_from.induct) (auto simp: usable_providers_def Let_def split: if_splits)

lemma parsePositiveDuration_positive: "parsePositiveDuration U L path v = Inr d \<Longrightarrow> 0 < d"
  by (auto simp: parsePositiveDuration_def Let_def split: sum.splits if_splits)

lemma validateListenAddress_usable: "validateListenAddress U a = None \<Longrightarrow> usable_address a"
  by (auto simp: validateListenAddress_def usable_address_def Let_def split: sum.splits if_splits)

lemma validateServerConfig_valid: "validateServerConfig U L raw = Inr c \<Longrightarrow> valid_server_config c"
  using providers_from_usable [of U 0 "rs_providers raw" "[]"]
  by (auto simp: validateServerConfig_def valid_server_config_def Let_def validateProviders_def usable_providers_def
      intro: parsePositiveDuration_positive validateListenAddress_usable split: option.splits sum.splits if_splits)

lemma LoadServerYAML_valid_config: "LoadServerYAML U L source env = Inr c \<Longrightarrow> valid_server_config c"
proof -
  assume "LoadServerYAML U L source env = Inr c"
  then have "\<exists>raw. validateServerConfig U L raw = Inr c"
    by (auto simp: LoadServerYAML_def split: sum.splits option.splits if_splits)
  then show ?thesis using validateServerConfig_valid by blast
qed

lemma usable_providers_indexed:
  assumes "usable_providers ds" "set (map fst byName) \<inter> set (map pd_name ds) = {}"
  shows "index_definitions ds byName = Inr (byName @ map (\<lambda>d. (pd_name d, d)) ds)"
  using assms
proof (induction ds arbitrary: byName)
  case (Cons d ds)
  have named: "\<not> blank ''deepseek''" "\<not> blank ''minimax''" by (rule not_blank_Cons; simp)+
  have new: "map_of byName (pd_name d) = None" using Cons.prems(2) by (auto simp: map_of_eq_None_iff)
  have "\<not> blank (pd_name d)" "\<not> blank (pd_api_key d)" using Cons.prems(1) named by (auto simp: usable_providers_def)
  moreover have "index_definitions ds (byName @ [(pd_name d, d)]) =
      Inr ((byName @ [(pd_name d, d)]) @ map (\<lambda>d. (pd_name d, d)) ds)"
    by (rule Cons.IH) (use Cons.prems in \<open>auto simp: usable_providers_def\<close>)
  ultimately show ?case using new by (simp add: put_new)
qed simp

text \<open>
  C28.  A loaded configuration is usable.  Whatever the document says and however the YAML library answers, a
  configuration that is returned has an address with a host and a port from 1 to 65535, a known log format,
  positive timeouts, and supported Providers of different names with credentials; the registry of models
  accepts its Providers as they are; and the default registry has a factory for each of them.
\<close>

theorem LoadServerYAML_valid:
  assumes "LoadServerYAML U L source env = Inr c"
  shows "valid_server_config c \<and>
    index_definitions (sc_providers c) [] = Inr (map (\<lambda>d. (pd_name d, d)) (sc_providers c)) \<and>
    (\<forall>d \<in> set (sc_providers c). map_of (rg_factories (NewDefaultRegistry constructors)) (pd_name d) \<noteq> None)"
proof -
  have valid: "valid_server_config c" using LoadServerYAML_valid_config [OF assms] .
  then have "usable_providers (sc_providers c)" by (simp add: valid_server_config_def)
  moreover from this have "pd_name d = DeepSeek \<or> pd_name d = MiniMax" if "d \<in> set (sc_providers c)" for d
    using that by (auto simp: usable_providers_def list_all_iff DeepSeek_def MiniMax_def)
  ultimately show ?thesis
    using valid usable_providers_indexed [of "sc_providers c" "[]"] unfolding default_registry_providers by simp
qed

section \<open>Duplicate keys\<close>

text \<open>
  What is searched of a document, each node with the keys that lead to it: the children of documents and
  sequences and the values of mappings.  A node that is the key of a mapping is not searched, whatever it holds.
\<close>

inductive searched_below :: "string list \<times> yaml_node \<Rightarrow> string list \<times> yaml_node \<Rightarrow> bool" where
  child: "yn_kind n \<in> {DocumentNode, SequenceNode} \<Longrightarrow> c \<in> set (yn_content n) \<Longrightarrow> searched_below (p, n) (p, c)"
| mapped: "yn_kind n = MappingNode \<Longrightarrow> (k, v) \<in> set (pairs (yn_content n)) \<Longrightarrow>
    searched_below (p, n) (p @ [yn_value k], v)"

inductive_simps searched_below_simp: "searched_below (p, n) y"

definition mapping_keys :: "yaml_node \<Rightarrow> string list" where
  "mapping_keys n = (if yn_kind n = MappingNode then map (\<lambda>e. yn_value (fst e)) (pairs (yn_content n)) else [])"

definition unique_keys :: "string list \<times> yaml_node \<Rightarrow> bool" where
  "unique_keys x \<longleftrightarrow> (\<forall>y. rtranclp searched_below x y \<longrightarrow> distinct (mapping_keys (snd y)))"

lemma unique_keys_step:
  "unique_keys x \<longleftrightarrow> distinct (mapping_keys (snd x)) \<and> (\<forall>y. searched_below x y \<longrightarrow> unique_keys y)"
proof -
  have "rtranclp searched_below x z \<longleftrightarrow> z = x \<or> (\<exists>y. searched_below x y \<and> rtranclp searched_below y z)" for z
    using converse_rtranclpE [of searched_below x z] converse_rtranclp_into_rtranclp [of searched_below x]
    by blast
  then have "(\<forall>z. rtranclp searched_below x z \<longrightarrow> P z) \<longleftrightarrow>
      P x \<and> (\<forall>y. searched_below x y \<longrightarrow> (\<forall>z. rtranclp searched_below y z \<longrightarrow> P z))" for P
    by (simp only:) blast
  then show ?thesis unfolding unique_keys_def .
qed

lemma check_pairs_None:
  "check_pairs d kf f seen ps = None \<longleftrightarrow>
     distinct (map (\<lambda>p. kf (fst p)) ps) \<and> set seen \<inter> (\<lambda>p. kf (fst p)) ` set ps = {} \<and> (\<forall>(k, v) \<in> set ps. f v (kf k) = None)"
proof (induction ps arbitrary: seen)
  case (Cons p ps)
  obtain k v where p: "p = (k, v)" by fastforce
  have "check_pairs d kf f seen (p # ps) = None \<longleftrightarrow>
      kf k \<notin> set seen \<and> f v (kf k) = None \<and> check_pairs d kf f (kf k # seen) ps = None"
    by (simp add: p split: option.splits)
  then show ?case unfolding Cons.IH by (auto simp: p)
qed simp

lemma check_pairs_Some:
  "check_pairs d kf f seen ps = Some e \<Longrightarrow> distinct seen \<Longrightarrow>
     (\<exists>(k, v) \<in> set ps. f v (kf k) = Some e) \<or>
     (\<exists>key. e = d key \<and> 2 \<le> count_list (rev seen @ map (\<lambda>p. kf (fst p)) ps) key)"
proof (induction ps arbitrary: seen)
  case (Cons p ps)
  obtain k v where p: "p = (k, v)" by fastforce
  consider (dup) "kf k \<in> set seen" "e = d (kf k)" | (inside) "f v (kf k) = Some e"
    | (later) "kf k \<notin> set seen" "check_pairs d kf f (kf k # seen) ps = Some e"
    using Cons.prems(1) unfolding p
    by (cases "kf k \<in> set seen"; cases "f v (kf k)") auto
  then show ?case
  proof cases
    case dup
    then have "0 < count_list (rev seen) (kf k)" by (simp add: count_list_0_iff flip: neq0_conv)
    then have "2 \<le> count_list (rev seen @ map (\<lambda>p. kf (fst p)) (p # ps)) (kf k)" by (simp add: p)
    then show ?thesis using dup by blast
  next
    case inside
    then show ?thesis by (auto simp: p)
  next
    case later
    then have "distinct (kf k # seen)" using Cons.prems(2) by simp
    from Cons.IH [OF later(2) this] show ?thesis by (auto simp: p)
  qed
qed simp

lemma rejectDuplicateKeys_None: "rejectDuplicateKeys U node path = None \<longleftrightarrow> unique_keys (path, node)"
proof (induction U node path rule: rejectDuplicateKeys.induct)
  case (1 U node path)
  show ?case
  proof (cases "yn_kind node = MappingNode")
    case True
    then have "rejectDuplicateKeys U v (path @ [yn_value k]) = None \<longleftrightarrow> unique_keys (path @ [yn_value k], v)"
      if "(k, v) \<in> set (pairs (yn_content node))" for k v
      using 1 that by blast
    then show ?thesis using True
      by (subst rejectDuplicateKeys.simps, subst unique_keys_step)
        (auto simp: check_pairs_None mapping_keys_def searched_below_simp case_prod_beta, blast)
  next
    case False
    then show ?thesis using 1
      by (subst rejectDuplicateKeys.simps, subst unique_keys_step)
        (auto simp: mapping_keys_def searched_below_simp first_fail_None split: yaml_kind.splits)
  qed
qed

lemma rejectDuplicateKeys_Some:
  "rejectDuplicateKeys U node path = Some e \<Longrightarrow>
     \<exists>p n key. rtranclp searched_below (path, node) (p, n) \<and> 2 \<le> count_list (mapping_keys n) key \<and>
       e = newConfigError U (configPath (p @ [key])) ''duplicate key'' None"
proof (induction U node path rule: rejectDuplicateKeys.induct)
  case (1 U node path)
  let ?found = "\<lambda>x. \<exists>p n key. rtranclp searched_below x (p, n) \<and> 2 \<le> count_list (mapping_keys n) key \<and>
       e = newConfigError U (configPath (p @ [key])) ''duplicate key'' None"
  have up: "?found (path, node)" if "searched_below (path, node) y" "?found y" for y
    using that converse_rtranclp_into_rtranclp [of searched_below "(path, node)" y] by blast
  show ?case
  proof (cases "yn_kind node = MappingNode")
    case True
    then have "check_pairs (\<lambda>key. newConfigError U (configPath (path @ [key])) ''duplicate key'' None) yn_value
         (\<lambda>value key. rejectDuplicateKeys U value (path @ [key])) [] (pairs (yn_content node)) = Some e"
      using 1(4) by (subst (asm) rejectDuplicateKeys.simps) simp
    from check_pairs_Some [OF this] consider
        (inside) k v where "(k, v) \<in> set (pairs (yn_content node))" "rejectDuplicateKeys U v (path @ [yn_value k]) = Some e"
      | (dup) key where "e = newConfigError U (configPath (path @ [key])) ''duplicate key'' None"
          "2 \<le> count_list (mapping_keys node) key"
      using True by (auto simp: mapping_keys_def)
    then show ?thesis
    proof cases
      case inside
      then have "?found (path @ [yn_value k], v)" using 1(1-3) True by blast
      then show ?thesis using up [OF mapped [OF True inside(1)]] by blast
    qed blast
  next
    case False
    then obtain c where c: "yn_kind node \<in> {DocumentNode, SequenceNode}" "c \<in> set (yn_content node)"
      "rejectDuplicateKeys U c path = Some e"
      using 1(4) by (subst (asm) rejectDuplicateKeys.simps)
        (auto dest!: first_fail_Some split: yaml_kind.splits)
    then have "?found (path, c)" using 1(1-3) by blast
    then show ?thesis using up [OF child [OF c(1,2)]] by blast
  qed
qed

text \<open>
  C29.  Duplicate keys are found.  A document is let through exactly when none of the mappings that are searched,
  those reached through documents, sequences and the values of mappings, has two keys of the same text (a key that
  is not a scalar counts with the text of its node; what is inside a key is not searched).  A refusal names a key
  that one of these mappings does have twice, by the keys that lead to it.
\<close>

theorem rejectDuplicateKeys_exact:
  "(rejectDuplicateKeys U node path = None \<longleftrightarrow>
      (\<forall>p n. rtranclp searched_below (path, node) (p, n) \<longrightarrow> distinct (mapping_keys n))) \<and>
   (\<forall>e. rejectDuplicateKeys U node path = Some e \<longrightarrow>
      (\<exists>p n key. rtranclp searched_below (path, node) (p, n) \<and> 2 \<le> count_list (mapping_keys n) key \<and>
         e = newConfigError U (configPath (p @ [key])) ''duplicate key'' None))"
  using rejectDuplicateKeys_None [of U node path] rejectDuplicateKeys_Some [of U node path]
  by (simp add: unique_keys_def)

text \<open>A mapping two of whose keys are equal, below a sequence; and one that is the key of another mapping.\<close>

definition repeated_keys :: yaml_node where
  "repeated_keys = YNode MappingNode [] [] 1
     [YNode ScalarNode [] ''a'' 1 [], YNode ScalarNode [] ''1'' 1 [],
      YNode ScalarNode [] ''a'' 2 [], YNode ScalarNode [] ''2'' 2 []]"

theorem rejectDuplicateKeys_exact_witness:
  "\<forall>U. rejectDuplicateKeys U (YNode SequenceNode [] [] 1 [repeated_keys]) [] \<noteq> None \<and>
     rejectDuplicateKeys U (YNode MappingNode [] [] 1 [repeated_keys, YNode ScalarNode [] ''v'' 1 []]) [] = None"
proof (intro allI conjI)
  fix U
  have "searched_below ([], YNode SequenceNode [] [] 1 [repeated_keys]) ([], repeated_keys)"
    by (rule child) simp_all
  moreover have "\<not> distinct (mapping_keys repeated_keys)" by (simp add: mapping_keys_def repeated_keys_def)
  ultimately show "rejectDuplicateKeys U (YNode SequenceNode [] [] 1 [repeated_keys]) [] \<noteq> None"
    using rejectDuplicateKeys_exact [of U "YNode SequenceNode [] [] 1 [repeated_keys]" "[]"] by blast
next
  fix U
  let ?v = "YNode ScalarNode [] ''v'' 1 []"
  let ?m = "YNode MappingNode [] [] 1 [repeated_keys, ?v]"
  have first: "y = ([[]], ?v)" if "searched_below ([], ?m) y" for y
    using that by (auto simp: searched_below_simp repeated_keys_def)
  have last: "\<not> searched_below (q, ?v) z" for q z by (simp add: searched_below_simp)
  have "y \<in> {([], ?m), ([[]], ?v)}" if "rtranclp searched_below ([], ?m) y" for y
    using that
  proof (induction rule: rtranclp_induct)
    case (step y z)
    then show ?case using first last by blast
  qed simp
  then show "rejectDuplicateKeys U ?m [] = None"
    using rejectDuplicateKeys_exact [of U ?m "[]"] by (fastforce simp: mapping_keys_def)
qed

section \<open>Expansion of a template\<close>

text \<open>A value as the writer of a document thinks of it: literal text and placeholders.\<close>

datatype piece = Literal string | Placeholder string

fun render :: "piece \<Rightarrow> string" where
  "render (Literal t) = t"
| "render (Placeholder n) = ''${'' @ n @ ''}''"

fun well_formed :: "piece \<Rightarrow> bool" where
  "well_formed (Literal t) \<longleftrightarrow> CHR ''$'' \<notin> set t"
| "well_formed (Placeholder n) \<longleftrightarrow> validEnvironmentName n"

fun resolved :: "(string \<Rightarrow> string option) \<Rightarrow> piece \<Rightarrow> string" where
  "resolved lookup (Literal t) = t"
| "resolved lookup (Placeholder n) = (case lookup n of None \<Rightarrow> [] | Some v \<Rightarrow> v)"

fun first_unset :: "(string \<Rightarrow> string option) \<Rightarrow> piece list \<Rightarrow> string option" where
  "first_unset lookup [] = None"
| "first_unset lookup (Literal t # ts) = first_unset lookup ts"
| "first_unset lookup (Placeholder n # ts) = (if lookup n = None then Some n else first_unset lookup ts)"

lemma decode_runes_name:
  "list_all (\<lambda>r. r < 0x80) (decode_runes s) \<Longrightarrow> s = map chr (decode_runes s)"
proof (induction s rule: decode_runes.induct)
  case (1 s)
  show ?case
  proof (cases "s = []")
    case False
    let ?r = "fst (decode_rune s)" and ?n = "snd (decode_rune s)"
    have runes: "decode_runes s = ?r # decode_runes (drop ?n s)" using False by (subst decode_runes.simps) simp
    then have small: "?r < 0x80" "list_all (\<lambda>r. r < 0x80) (decode_runes (drop ?n s))" using 1(2) by simp_all
    then have "decode_rune s \<noteq> (rune_error, 1)" by (auto simp: rune_error_def)
    then have "take ?n s = [chr ?r]" using encode_decode_rune [OF False] encode_rune_ascii [OF small(1)] by simp
    then show ?thesis using 1(1) [OF False small(2)] runes append_take_drop_id [of ?n s] by simp
  qed simp
qed

lemma name_without_brace:
  assumes "validEnvironmentName n"
  shows "CHR ''}'' \<notin> set n"
proof -
  have ident: "list_all (\<lambda>r. r = 0x5F \<or> ascii_letter r \<or> ascii_digit r) (decode_runes n)"
    using assms by (auto simp: validEnvironmentName_def split: list.splits)
  have "r < 0x80 \<and> r \<noteq> 0x7D" if "r = 0x5F \<or> ascii_letter r \<or> ascii_digit r" for r
    using that by (auto simp: ascii_letter_def ascii_digit_def)
  then have small: "list_all (\<lambda>r. r < 0x80 \<and> r \<noteq> 0x7D) (decode_runes n)" using ident by (simp add: list_all_iff)
  then have eq: "n = map chr (decode_runes n)" by (intro decode_runes_name) (simp add: list_all_iff)
  moreover have "chr r \<noteq> CHR ''}''" if "r < 0x80" "r \<noteq> 0x7D" for r
  proof
    assume "chr r = CHR ''}''"
    then have "byte (chr r) = byte (CHR ''}'')" by simp
    then show False using byte_chr [of r] that by simp
  qed
  ultimately have "c \<noteq> CHR ''}''" if "c \<in> chr ` set (decode_runes n)" for c using small that by (auto simp: list_all_iff)
  moreover have "set n = chr ` set (decode_runes n)" using arg_cong [OF eq, of set] by simp
  ultimately show ?thesis by blast
qed

lemma index_of_placeholder: "CHR ''$'' \<notin> set pre \<Longrightarrow> index_of (pre @ ''${'' @ rest) ''${'' = Some (length pre)"
  by (induction pre) (auto simp: has_prefix_def)

lemma index_of_brace: "CHR ''}'' \<notin> set n \<Longrightarrow> index_of (n @ ''}'' @ rest) ''}'' = Some (length n)"
  by (induction n) (auto simp: has_prefix_def)

lemma index_of_none: "CHR ''$'' \<notin> set s \<Longrightarrow> index_of s ''${'' = None"
  by (induction s) (auto simp: has_prefix_def)

lemma expand_template:
  "list_all well_formed ts \<Longrightarrow> CHR ''$'' \<notin> set pre \<Longrightarrow>
   expand_rest U path (Some lookup) built (pre @ concat (map render ts)) =
     (case first_unset lookup ts of
        None \<Rightarrow> Inr (built @ pre @ concat (map (resolved lookup) ts))
      | Some n \<Rightarrow> Inl (newConfigError U path (''environment variable '' @ n @ '' is not set'') None))"
proof (induction ts arbitrary: pre built)
  case Nil
  then show ?case by (subst expand_rest.simps) (simp add: index_of_none)
next
  case (Cons t ts)
  show ?case
  proof (cases t)
    case (Literal s)
    then show ?thesis using Cons.IH [of "pre @ s" built] Cons.prems by (simp split: option.splits)
  next
    case (Placeholder n)
    let ?rest = "concat (map render ts)"
    have n: "validEnvironmentName n" "CHR ''}'' \<notin> set n" using Cons.prems Placeholder name_without_brace by auto
    have "expand_rest U path (Some lookup) built (pre @ ''${'' @ n @ ''}'' @ ?rest) =
        (case lookup n of None \<Rightarrow> Inl (newConfigError U path (''environment variable '' @ n @ '' is not set'') None)
         | Some v \<Rightarrow> expand_rest U path (Some lookup) ((built @ pre) @ v) ?rest)"
      using Cons.prems(2) n index_of_placeholder [of pre "n @ ''}'' @ ?rest"] index_of_brace [of n ?rest]
      by (subst expand_rest.simps) (simp add: Let_def split: option.splits)
    then show ?thesis using Cons.IH [of "[]"] Cons.prems(1) Placeholder by (simp split: option.splits)
  qed
qed

text \<open>
  C30.  Placeholders are replaced once.  A value made of text without dollar signs and of placeholders with valid
  names becomes the text with the values of the variables, as they are, even when they look like placeholders
  themselves; if a variable is not set, the first such is reported with the path of the field.  A variable that is
  set to the empty string is set: its placeholder disappears (the repository's wiki on the configuration wants a
  non-empty value; only the validation of the fields may refuse what is left).
\<close>

theorem expandString_template:
  assumes "list_all well_formed ts"
  shows "expandString U (concat (map render ts)) path (Some lookup) =
     (case first_unset lookup ts of
        None \<Rightarrow> Inr (concat (map (resolved lookup) ts))
      | Some n \<Rightarrow> Inl (newConfigError U path (''environment variable '' @ n @ '' is not set'') None))"
  using expand_template [OF assms, of "[]" U path lookup "[]"] by (simp add: expandString_def split: option.splits)

section \<open>Examples\<close>

definition demo_yaml :: yaml_library where
  "demo_yaml = \<lparr>yl_documents = (\<lambda>s. []), yl_encode = (\<lambda>n. Inr []), yl_encode_close = None, yl_strict = (\<lambda>s. []),
     yl_type_errors = (\<lambda>e. None), yl_parse_duration = (\<lambda>s. Inr (int (length s)))\<rparr>"

lemma demo_address: "validateListenAddress U ''127.0.0.1:8080'' = None"
proof -
  have "SplitHostPort ''127.0.0.1:8080'' = Inr (''127.0.0.1'', ''8080'')" by code_simp
  moreover have "Atoi ''8080'' = Inr 8080" by code_simp
  ultimately show ?thesis by (simp add: validateListenAddress_def)
qed

lemma demo_config:
  "LoadServerYAML U demo_yaml [] env = Inr \<lparr>sc_listen_address = ''127.0.0.1:8080'', sc_log_format = ''console'',
     sc_providers = [], sc_read_header_timeout = 2, sc_read_timeout = 3, sc_write_timeout = 2, sc_idle_timeout = 3,
     sc_shutdown_timeout = 3\<rparr>"
  using demo_address
  by (simp add: LoadServerYAML_def decodeSingleDocument_def demo_yaml_def zero_node_def decodeStrictRaw_def empty_raw_def
      validateServerConfig_def stringOrDefault_def rawHTTPValue_def parsePositiveDuration_def validateProviders_def LogFormatConsole_def)

theorem LoadServerYAML_valid_witness:
  "\<exists>c. LoadServerYAML (\<lambda>s. None) demo_yaml [] None = Inr c \<and> valid_server_config c"
  using LoadServerYAML_valid [OF demo_config] demo_config by blast

theorem expandString_template_witness:
  "expandString (\<lambda>s. None) ''key ${HOME}!'' ''a'' (Some (\<lambda>n. Some ''${X}'')) = Inr ''key ${X}!''"
proof -
  have "validEnvironmentName ''HOME''"
    by (simp add: validEnvironmentName_def decode_runes_ascii ascii_letter_def)
  then have "list_all well_formed [Literal ''key '', Placeholder ''HOME'', Literal ''!'']" by simp
  from expandString_template [OF this, of "\<lambda>s. None" "''a''" "\<lambda>n. Some ''${X}''"] show ?thesis by simp
qed

end
