(* ===== verification/Log_Handlers.thy ===== *)
theory Log_Handlers
  imports Redact Observability
begin

text \<open>
  internal/observability (redacting\_handler.go, console\_handler.go, logger.go): the handler that redacts every
  attribute of a log record before it reaches its sink, and the sink that writes one coloured line for a
  record.  The types are those of \<open>log/slog\<close>; the writer is outside.
\<close>

section \<open>Records\<close>

text \<open>
  \<open>VOther\<close> is a value of a kind without structure (a number, a boolean, a time), with what
  \<open>fmt.Sprint\<close> prints for it.  A value of kind \<open>Any\<close> is a URL, a pointer to one, or something
  else; a URL has the text of its \<open>String\<close> method and, as a value, the text that \<open>Sprint\<close> prints.
\<close>

datatype any_value = AnyURL string string | AnyURLPointer "string option" | AnyThing string

datatype log_value = VString string | VOther string | VAny any_value | VGroup "(string \<times> log_value) list" | VLogValuer log_value

type_synonym log_attr = "string \<times> log_value"

record log_record =
  lr_time :: gotime
  lr_level :: int
  lr_message :: string
  lr_attrs :: "log_attr list"

text \<open>\<open>Value.Resolve\<close> unwraps at most 100 times, and reports an error instead of the value otherwise.\<close>

fun resolve_value :: "nat \<Rightarrow> log_value \<Rightarrow> log_value" where
  "resolve_value 0 v = VAny (AnyThing ''LogValue called too many times'')"
| "resolve_value (Suc n) (VLogValuer v) = resolve_value n v"
| "resolve_value (Suc n) v = v"

definition resolve :: "log_value \<Rightarrow> log_value" where
  "resolve v = resolve_value 100 v"

text \<open>\<open>GroupValue\<close> and \<open>Record.AddAttrs\<close> leave out empty groups.\<close>

fun empty_group :: "log_attr \<Rightarrow> bool" where
  "empty_group (k, VGroup []) = True"
| "empty_group _ = False"

definition nonempty_attrs :: "log_attr list \<Rightarrow> log_attr list" where
  "nonempty_attrs as = filter (\<lambda>a. \<not> empty_group a) as"

section \<open>The redacting handler\<close>

definition isErrorKey :: "string \<Rightarrow> bool" where
  "isErrorKey key = (let normalized = to_lower key in normalized = ''error'' \<or> has_suffix normalized ''_error'')"

definition safeURLText :: "any_value \<Rightarrow> string option" where
  "safeURLText v = (case v of AnyURL s t \<Rightarrow> Some s | AnyURLPointer p \<Rightarrow> p | AnyThing t \<Rightarrow> None)"

lemma group_child: "c \<in> set cs \<Longrightarrow> size (snd c) < size (VGroup cs)"
proof -
  assume "c \<in> set cs"
  then have "size (snd c) \<le> size_list (size_prod (\<lambda>x. 0) size) cs"
    by (intro size_list_estimation' [of c]) (auto simp: size_prod_simp split: prod.splits)
  then show ?thesis by simp
qed

lemma resolved_child:
  "resolve_value n v = VGroup cs \<Longrightarrow> c \<in> set cs \<Longrightarrow> size (snd c) < size v"
  using group_child [of c cs] by (induction n v rule: resolve_value.induct) auto

function sanitizeAttr :: "url_parser \<Rightarrow> log_attr \<Rightarrow> string list \<Rightarrow> log_attr" where
  "sanitizeAttr U item groups =
     (let key = fst item in
      if IsSensitiveKey groups key then (key, VString redactedValue)
      else if isErrorKey key then (key, VString redactedValue)
      else case resolve (snd item) of
          VString text \<Rightarrow> (key, VString (SanitizeErrorString U text))
        | VAny v \<Rightarrow> (case safeURLText v of
              Some text \<Rightarrow> (key, VString (SanitizeErrorString U text))
            | None \<Rightarrow> (key, VString redactedValue))
        | VGroup children \<Rightarrow> (key, VGroup (nonempty_attrs (map (\<lambda>child. sanitizeAttr U child (groups @ [key])) children)))
        | v \<Rightarrow> (key, v))"
  by pat_completeness auto
termination
  by (relation "measure (\<lambda>(U, item, groups). size (snd item))") (auto simp: resolve_def dest: resolved_child)

declare sanitizeAttr.simps [simp del]

text \<open>What a handler passes its records on to.\<close>

record ('h, 'x) handler_ops =
  ho_enabled :: "'h \<Rightarrow> int \<Rightarrow> bool"
  ho_handle :: "'h \<Rightarrow> log_record \<Rightarrow> 'x \<Rightarrow> gerror option \<times> 'x"
  ho_with_attrs :: "log_attr list \<Rightarrow> 'h \<Rightarrow> 'h"
  ho_with_group :: "string \<Rightarrow> 'h \<Rightarrow> 'h"

record 'h redacting_handler =
  rd_next :: 'h
  rd_groups :: "string list"

definition NewRedactingHandler :: "'h \<Rightarrow> 'h redacting_handler" where
  "NewRedactingHandler sink = \<lparr>rd_next = sink, rd_groups = []\<rparr>"

definition Redacting_Enabled :: "('h, 'x) handler_ops \<Rightarrow> 'h redacting_handler \<Rightarrow> int \<Rightarrow> bool" where
  "Redacting_Enabled H h level = ho_enabled H (rd_next h) level"

definition sanitizeRecord :: "url_parser \<Rightarrow> string list \<Rightarrow> log_record \<Rightarrow> log_record" where
  "sanitizeRecord U groups r = r\<lparr>lr_message := SanitizeErrorString U (lr_message r),
     lr_attrs := nonempty_attrs (map (\<lambda>a. sanitizeAttr U a groups) (lr_attrs r))\<rparr>"

definition Redacting_Handle ::
  "url_parser \<Rightarrow> ('h, 'x) handler_ops \<Rightarrow> 'h redacting_handler \<Rightarrow> log_record \<Rightarrow> 'x \<Rightarrow> gerror option \<times> 'x" where
  "Redacting_Handle U H h r = ho_handle H (rd_next h) (sanitizeRecord U (rd_groups h) r)"

definition Redacting_WithAttrs ::
  "url_parser \<Rightarrow> ('h, 'x) handler_ops \<Rightarrow> log_attr list \<Rightarrow> 'h redacting_handler \<Rightarrow> 'h redacting_handler" where
  "Redacting_WithAttrs U H attrs h =
     \<lparr>rd_next = ho_with_attrs H (map (\<lambda>a. sanitizeAttr U a (rd_groups h)) attrs) (rd_next h), rd_groups = rd_groups h\<rparr>"

definition Redacting_WithGroup :: "('h, 'x) handler_ops \<Rightarrow> string \<Rightarrow> 'h redacting_handler \<Rightarrow> 'h redacting_handler" where
  "Redacting_WithGroup H name h = \<lparr>rd_next = ho_with_group H name (rd_next h), rd_groups = rd_groups h @ [name]\<rparr>"

section \<open>The console handler\<close>

record console_handler =
  ch_level :: "int option"
  ch_attrs :: "(log_attr \<times> string list) list"
  ch_groups :: "string list"

definition NewConsoleHandler :: "int option \<Rightarrow> console_handler" where
  "NewConsoleHandler level = \<lparr>ch_level = level, ch_attrs = [], ch_groups = []\<rparr>"

definition Console_Enabled :: "console_handler \<Rightarrow> int \<Rightarrow> bool" where
  "Console_Enabled h level = (case ch_level h of None \<Rightarrow> True | Some l \<Rightarrow> l \<le> level)"

text \<open>
  \<open>strconv.QuoteToGraphic\<close>: like \<open>Quote\<close>, and the spaces of the list \<open>isGraphic\<close> stay, of
  which those above \<open>A0\<close> count as printable already.
\<close>

definition graphic_rune :: "rune \<Rightarrow> string" where
  "graphic_rune r = (if r = 0xA0 then encode_rune r else quote_rune r)"

function graphic_body :: "string \<Rightarrow> string" where
  "graphic_body s =
     (if s = [] then []
      else if decode_rune s = (rune_error, 1)
        then [CHR 0x5C, CHR ''x''] @ hex 2 (byte (hd s)) @ graphic_body (drop 1 s)
      else graphic_rune (fst (decode_rune s)) @ graphic_body (drop (snd (decode_rune s)) s))"
  by pat_completeness auto
termination
  by (relation "measure length") (auto simp: diff_less [OF decode_rune_width])

declare graphic_body.simps [simp del]

definition QuoteToGraphic :: "string \<Rightarrow> string" where
  "QuoteToGraphic s = [CHR 0x22] @ graphic_body s @ [CHR 0x22]"

definition is_control :: "rune \<Rightarrow> bool" where
  "is_control r \<longleftrightarrow> r < 0x20 \<or> 0x7F \<le> r \<and> r < 0xA0"

text \<open>A text with a control rune, a space, an equals sign, a backslash or a double quote is quoted.\<close>

definition consoleText :: "string \<Rightarrow> string" where
  "consoleText text =
     (if list_ex is_control (decode_runes text) \<or>
         list_ex (\<lambda>r. r \<in> {0x20, 0x3D, 0x5C, 0x22}) (decode_runes text)
      then QuoteToGraphic text else text)"

definition sprint :: "log_value \<Rightarrow> string" where
  "sprint v = (case v of VString s \<Rightarrow> s | VOther t \<Rightarrow> t
     | VAny (AnyURL s t) \<Rightarrow> t | VAny (AnyURLPointer None) \<Rightarrow> ''<nil>'' | VAny (AnyURLPointer (Some s)) \<Rightarrow> s
     | VAny (AnyThing t) \<Rightarrow> t | VGroup cs \<Rightarrow> [] | VLogValuer u \<Rightarrow> [])"

function consoleAttr :: "string list \<Rightarrow> log_attr \<Rightarrow> string" where
  "consoleAttr groups item =
     (case resolve (snd item) of
        VGroup children \<Rightarrow> concat (map (\<lambda>child. consoleAttr (groups @ [fst item]) child) children)
      | v \<Rightarrow> '' '' @ consoleText (join ''.'' (groups @ [fst item])) @ ''='' @ consoleText (sprint v))"
  by pat_completeness auto
termination
  by (relation "measure (\<lambda>(groups, item). size (snd item))") (auto simp: resolve_def dest: resolved_child)

declare consoleAttr.simps [simp del]

text \<open>\<open>Level.String\<close>: the name of the level below, with the distance.\<close>

definition level_name :: "string \<Rightarrow> int \<Rightarrow> string" where
  "level_name base d = (if d = 0 then base else base @ (if d < 0 then itoa d else ''+'' @ itoa d))"

definition level_text :: "int \<Rightarrow> string" where
  "level_text l =
     (if l < 0 then level_name ''DEBUG'' (l + 4)
      else if l < 4 then level_name ''INFO'' l
      else if l < 8 then level_name ''WARN'' (l - 4)
      else level_name ''ERROR'' (l - 8))"

definition coloredLevel :: "int \<Rightarrow> string" where
  "coloredLevel level =
     (let color = (if 8 \<le> level then ''[31m'' else if 4 \<le> level then ''[33m'' else if 0 \<le> level then ''[32m'' else ''[36m'')
      in [CHR 0x1B] @ color @ level_text level @ [CHR 0x1B] @ ''[0m'')"

definition console_line :: "console_handler \<Rightarrow> log_record \<Rightarrow> string" where
  "console_line h r =
     format_rfc3339 (to_utc (lr_time r)) @ '' '' @ coloredLevel (lr_level r) @ '' '' @ consoleText (lr_message r) @
     concat (map (\<lambda>(a, groups). consoleAttr groups a) (ch_attrs h)) @
     concat (map (consoleAttr (ch_groups h)) (lr_attrs r)) @ [CHR 0x0A]"

definition Console_Handle ::
  "(string \<Rightarrow> 'x \<Rightarrow> gerror option \<times> 'x) \<Rightarrow> console_handler \<Rightarrow> log_record \<Rightarrow> 'x \<Rightarrow> gerror option \<times> 'x" where
  "Console_Handle writer h r x = writer (console_line h r) x"

definition Console_WithAttrs :: "log_attr list \<Rightarrow> console_handler \<Rightarrow> console_handler" where
  "Console_WithAttrs attrs h = h\<lparr>ch_attrs := ch_attrs h @ map (\<lambda>a. (a, ch_groups h)) attrs\<rparr>"

definition Console_WithGroup :: "string \<Rightarrow> console_handler \<Rightarrow> console_handler" where
  "Console_WithGroup name h = (if name = [] then h else h\<lparr>ch_groups := ch_groups h @ [name]\<rparr>)"

definition console_ops :: "(string \<Rightarrow> 'x \<Rightarrow> gerror option \<times> 'x) \<Rightarrow> (console_handler, 'x) handler_ops" where
  "console_ops writer = \<lparr>ho_enabled = Console_Enabled, ho_handle = Console_Handle writer,
     ho_with_attrs = Console_WithAttrs, ho_with_group = Console_WithGroup\<rparr>"

text \<open>\<open>NewLogger\<close> does the same for the JSON handler of \<open>slog\<close>, which is a parameter.\<close>

definition NewLogger :: "(int option \<Rightarrow> 'h) \<Rightarrow> int option \<Rightarrow> 'h redacting_handler" where
  "NewLogger NewJSONHandler level = NewRedactingHandler (NewJSONHandler level)"

definition NewConsoleLogger :: "int option \<Rightarrow> console_handler redacting_handler" where
  "NewConsoleLogger level = NewRedactingHandler (NewConsoleHandler level)"

section \<open>What reaches the sink\<close>

text \<open>
  What a reader may see of an attribute, under the groups that are open: the path and the value of each leaf of it,
  at any depth.  A secret key shows the mark for all that is under it; other texts, and URLs, are shown as they
  are sanitized, a value without structure as it prints, and a value of an unknown type as the mark.
\<close>

datatype shown = Marked | Sanitized string | Printed string

fun shown_text :: "url_parser \<Rightarrow> shown \<Rightarrow> string" where
  "shown_text U Marked = redactedValue"
| "shown_text U (Sanitized t) = SanitizeErrorString U t"
| "shown_text U (Printed t) = t"

definition secret_key :: "string list \<Rightarrow> string \<Rightarrow> bool" where
  "secret_key groups key \<longleftrightarrow> IsSensitiveKey groups key \<or> isErrorKey key"

function visible :: "string list \<Rightarrow> log_attr \<Rightarrow> (string list \<times> shown) list" where
  "visible groups item =
     (if secret_key groups (fst item) then [([fst item], Marked)]
      else case resolve (snd item) of
          VString text \<Rightarrow> [([fst item], Sanitized text)]
        | VOther text \<Rightarrow> [([fst item], Printed text)]
        | VAny v \<Rightarrow> [([fst item], case safeURLText v of Some text \<Rightarrow> Sanitized text | None \<Rightarrow> Marked)]
        | VGroup children \<Rightarrow>
            [(fst item # path, s). child \<leftarrow> children, (path, s) \<leftarrow> visible (groups @ [fst item]) child]
        | VLogValuer v \<Rightarrow> [])"
  by pat_completeness auto
termination
  by (relation "measure (\<lambda>(groups, item). size (snd item))") (auto simp: resolve_def dest: resolved_child)

declare visible.simps [simp del]

text \<open>Groups without a name are not printed.\<close>

definition named :: "string list \<Rightarrow> string list" where
  "named groups = filter (\<lambda>g. g \<noteq> []) groups"

definition print_field :: "url_parser \<Rightarrow> string list \<times> string list \<times> shown \<Rightarrow> string" where
  "print_field U = (\<lambda>(groups, path, s).
     '' '' @ consoleText (join ''.'' (named groups @ path)) @ ''='' @ consoleText (shown_text U s))"

definition fields_of :: "string list \<Rightarrow> log_attr list \<Rightarrow> (string list \<times> string list \<times> shown) list" where
  "fields_of groups attrs = [(groups, path, s). item \<leftarrow> attrs, (path, s) \<leftarrow> visible groups item]"

text \<open>A logger derived from another one, and the fields it was derived with, under the groups open then.\<close>

datatype derivation = DeriveAttrs "log_attr list" | DeriveGroup string

fun derive :: "url_parser \<Rightarrow> ('h, 'x) handler_ops \<Rightarrow> derivation \<Rightarrow> 'h redacting_handler \<Rightarrow> 'h redacting_handler" where
  "derive U H (DeriveAttrs attrs) h = Redacting_WithAttrs U H attrs h"
| "derive U H (DeriveGroup name) h = Redacting_WithGroup H name h"

fun derived_fields :: "string list \<Rightarrow> derivation list \<Rightarrow> (string list \<times> string list \<times> shown) list" where
  "derived_fields groups [] = []"
| "derived_fields groups (DeriveAttrs attrs # ds) = fields_of groups attrs @ derived_fields groups ds"
| "derived_fields groups (DeriveGroup name # ds) = derived_fields (groups @ [name]) ds"

fun derived_groups :: "derivation list \<Rightarrow> string list" where
  "derived_groups [] = []"
| "derived_groups (DeriveAttrs attrs # ds) = derived_groups ds"
| "derived_groups (DeriveGroup name # ds) = name # derived_groups ds"

definition logged_fields :: "derivation list \<Rightarrow> log_record \<Rightarrow> (string list \<times> string list \<times> shown) list" where
  "logged_fields ds r = derived_fields [] ds @ fields_of (derived_groups ds) (lr_attrs r)"

lemma resolve_result: "resolve_value n v \<noteq> VLogValuer u"
  by (induction n v rule: resolve_value.induct) auto

lemma resolve_not_valuer [simp]: "resolve v \<noteq> VLogValuer u"
  by (simp add: resolve_def resolve_result)

lemma resolve_plain [simp]:
  "resolve (VString t) = VString t" "resolve (VOther t) = VOther t" "resolve (VAny a) = VAny a" "resolve (VGroup cs) = VGroup cs"
  by (simp_all add: resolve_def numeral_eq_Suc)

text \<open>An empty group prints nothing, so leaving it out loses nothing.\<close>

lemma print_nonempty: "concat (map (consoleAttr gs) (nonempty_attrs items)) = concat (map (consoleAttr gs) items)"
proof (induction items)
  case (Cons a items)
  have "consoleAttr gs a = []" if "empty_group a"
    using that by (cases a rule: empty_group.cases) (simp_all add: consoleAttr.simps [of gs])
  with Cons show ?case by (simp add: nonempty_attrs_def)
qed (simp add: nonempty_attrs_def)

lemma print_sanitized:
  "consoleAttr gs (sanitizeAttr U item groups) = concat (map (\<lambda>(path, s).
     '' '' @ consoleText (join ''.'' (gs @ path)) @ ''='' @ consoleText (shown_text U s)) (visible groups item))"
proof (induction U item groups arbitrary: gs rule: sanitizeAttr.induct)
  case (1 U item groups)
  let ?print = "\<lambda>gs (path, s). '' '' @ consoleText (join ''.'' (gs @ path)) @ ''='' @ consoleText (shown_text U s)"
  show ?case
  proof (cases "secret_key groups (fst item)")
    case True
    then have "sanitizeAttr U item groups = (fst item, VString redactedValue)"
      by (subst sanitizeAttr.simps) (auto simp: secret_key_def Let_def)
    then show ?thesis using True by (simp add: visible.simps [of groups] consoleAttr.simps [of gs] sprint_def)
  next
    case plain: False
    then have eq: "sanitizeAttr U item groups = (case resolve (snd item) of
          VString text \<Rightarrow> (fst item, VString (SanitizeErrorString U text))
        | VAny v \<Rightarrow> (case safeURLText v of
              Some text \<Rightarrow> (fst item, VString (SanitizeErrorString U text))
            | None \<Rightarrow> (fst item, VString redactedValue))
        | VGroup children \<Rightarrow> (fst item, VGroup (nonempty_attrs (map (\<lambda>child. sanitizeAttr U child (groups @ [fst item])) children)))
        | v \<Rightarrow> (fst item, v))"
      by (subst sanitizeAttr.simps) (auto simp: secret_key_def Let_def split: log_value.splits)
    show ?thesis
    proof (cases "resolve (snd item)")
      case (VGroup children)
      let ?next = "groups @ [fst item]"
      have below: "consoleAttr (gs @ [fst item]) (sanitizeAttr U child ?next) =
          concat (map (?print (gs @ [fst item])) (visible ?next child))" if "child \<in> set children" for child
        using 1 [OF refl _ _ VGroup that] plain by (simp add: secret_key_def)
      have "consoleAttr gs (sanitizeAttr U item groups) =
          concat (map (consoleAttr (gs @ [fst item])) (nonempty_attrs (map (\<lambda>child. sanitizeAttr U child ?next) children)))"
        by (simp add: eq VGroup consoleAttr.simps [of gs])
      also have "\<dots> = concat (map (\<lambda>child. consoleAttr (gs @ [fst item]) (sanitizeAttr U child ?next)) children)"
        by (simp add: print_nonempty comp_def)
      also have "\<dots> = concat (map (\<lambda>child. concat (map (?print (gs @ [fst item])) (visible ?next child))) children)"
        using below by (simp cong: map_cong)
      also have "\<dots> = concat (map (?print gs) (visible groups item))"
      proof -
        have "concat (map (\<lambda>child. concat (map (?print (gs @ [key])) (visible nx child))) cs) =
            concat (map (?print gs) [(key # path, s). child \<leftarrow> cs, (path, s) \<leftarrow> visible nx child])" for key nx cs
          by (induction cs) (simp_all add: comp_def case_prod_beta)
        then show ?thesis using plain VGroup by (simp add: visible.simps [of groups])
      qed
      finally show ?thesis .
    qed (use eq plain in \<open>simp_all add: visible.simps [of groups] consoleAttr.simps [of gs] sprint_def split: option.splits\<close>)
  qed
qed

lemma print_fields:
  "concat (map (\<lambda>item. consoleAttr (named groups) (sanitizeAttr U item groups)) attrs) = concat (map (print_field U) (fields_of groups attrs))"
  by (induction attrs) (simp_all add: print_sanitized fields_of_def print_field_def comp_def case_prod_beta')

lemma derived:
  assumes "ch_groups (rd_next h) = named (rd_groups h)" and d: "d = fold (derive U (console_ops writer)) ds h"
  shows "rd_groups d = rd_groups h @ derived_groups ds \<and> ch_groups (rd_next d) = named (rd_groups d) \<and>
    concat (map (\<lambda>(item, groups). consoleAttr groups item) (ch_attrs (rd_next d))) =
      concat (map (\<lambda>(item, groups). consoleAttr groups item) (ch_attrs (rd_next h))) @
      concat (map (print_field U) (derived_fields (rd_groups h) ds))"
  using assms(1) unfolding d
proof (induction ds arbitrary: h)
  case (Cons d ds)
  let ?h = "derive U (console_ops writer) d h"
  show ?case
  proof (cases d)
    case (DeriveAttrs attrs)
    then have "rd_groups ?h = rd_groups h" "ch_groups (rd_next ?h) = ch_groups (rd_next h)"
      "ch_attrs (rd_next ?h) = ch_attrs (rd_next h) @ map (\<lambda>a. (sanitizeAttr U a (rd_groups h), named (rd_groups h))) attrs"
      using Cons.prems by (simp_all add: Redacting_WithAttrs_def console_ops_def Console_WithAttrs_def comp_def)
    then show ?thesis using Cons.IH [of ?h] Cons.prems DeriveAttrs
      by (simp add: comp_def print_fields)
  next
    case (DeriveGroup name)
    then have "rd_groups ?h = rd_groups h @ [name]" "ch_attrs (rd_next ?h) = ch_attrs (rd_next h)"
      "ch_groups (rd_next ?h) = named (rd_groups h @ [name])"
      using Cons.prems by (simp_all add: Redacting_WithGroup_def console_ops_def Console_WithGroup_def named_def)
    then show ?thesis using Cons.IH [of ?h] DeriveGroup by simp
  qed
qed simp

text \<open>Nothing but the mark is shown under a secret key, and it is the last key of its path.\<close>

lemma visible_secret:
  "(path, s) \<in> set (visible groups item) \<Longrightarrow> i < length path \<Longrightarrow> secret_key (groups @ take i path) (path ! i) \<Longrightarrow>
     s = Marked \<and> Suc i = length path"
proof (induction groups item arbitrary: path i rule: visible.induct)
  case (1 groups item)
  show ?case
  proof (cases "secret_key groups (fst item)")
    case True
    then show ?thesis using 1(2,3) by (simp add: visible.simps [of groups])
  next
    case plain: False
    show ?thesis
    proof (cases "resolve (snd item)")
      case (VGroup children)
      then obtain child rest where c: "child \<in> set children" "path = fst item # rest"
        "(rest, s) \<in> set (visible (groups @ [fst item]) child)"
        using 1(2) plain by (auto simp: visible.simps [of groups])
      then obtain k where k: "i = Suc k" using 1(4) plain by (cases i) auto
      have "s = Marked \<and> Suc k = length rest"
        using 1(1) [OF plain VGroup c(1,3), of k] 1(3,4) c(2) k by simp
      then show ?thesis using c(2) k by simp
    qed (use 1(2-4) plain in \<open>auto simp: visible.simps [of groups] split: option.splits\<close>)
  qed
qed

definition safe_field :: "url_parser \<Rightarrow> string list \<times> string list \<times> shown \<Rightarrow> bool" where
  "safe_field U = (\<lambda>(groups, path, s).
     (\<forall>i < length path. secret_key (groups @ take i path) (path ! i) \<longrightarrow> s = Marked \<and> Suc i = length path) \<and>
     (case s of Printed t \<Rightarrow> True | _ \<Rightarrow> \<not> sensitive_text U (shown_text U s)))"

lemma fields_safe: "list_all (safe_field U) (fields_of groups attrs)"
proof -
  have "safe_field U (groups, path, s)" if "(path, s) \<in> set (visible groups item)" for path s item
    using visible_secret [OF that] Sanitize_not_sensitive redacted_not_sensitive
    by (auto simp: safe_field_def split: shown.splits)
  then show ?thesis by (auto simp: fields_of_def list_all_iff)
qed

lemma derived_safe: "list_all (safe_field U) (derived_fields groups ds)"
  by (induction groups ds rule: derived_fields.induct) (simp_all add: fields_safe)

text \<open>
  C37.  A console logger writes no secret and loses nothing.  However a logger is derived from the console logger, a
  record leads to one write, of a line made of the time, the level, the sanitized message and one field for every
  leaf, at any depth, first of the attributes the logger was derived with, then of those of the record, each
  under the path of the groups that were open when it was given.  The message does not look like a secret; under a
  secret key there is nothing but the mark, and no other text looks like a secret but what numbers,
  times and the like print.
\<close>

theorem console_log_redacted:
  "Redacting_Handle U (console_ops writer) (fold (derive U (console_ops writer)) ds (NewConsoleLogger level)) r x =
      writer (format_rfc3339 (to_utc (lr_time r)) @ '' '' @ coloredLevel (lr_level r) @ '' '' @
        consoleText (SanitizeErrorString U (lr_message r)) @ concat (map (print_field U) (logged_fields ds r)) @ [CHR 0x0A]) x \<and>
    \<not> sensitive_text U (SanitizeErrorString U (lr_message r)) \<and> list_all (safe_field U) (logged_fields ds r)"
proof -
  let ?h = "fold (derive U (console_ops writer)) ds (NewConsoleLogger level)"
  have new: "ch_groups (rd_next (NewConsoleLogger level)) = named (rd_groups (NewConsoleLogger level))"
    "rd_groups (NewConsoleLogger level) = []" "ch_attrs (rd_next (NewConsoleLogger level)) = []"
    by (simp_all add: NewConsoleLogger_def NewRedactingHandler_def NewConsoleHandler_def named_def)
  have h: "rd_groups ?h = derived_groups ds" "ch_groups (rd_next ?h) = named (derived_groups ds)"
    "concat (map (\<lambda>(item, groups). consoleAttr groups item) (ch_attrs (rd_next ?h))) = concat (map (print_field U) (derived_fields [] ds))"
    using derived [OF new(1) refl, of U writer ds] new(2,3) by simp_all
  have "concat (map (consoleAttr (named (derived_groups ds))) (lr_attrs (sanitizeRecord U (derived_groups ds) r))) =
      concat (map (print_field U) (fields_of (derived_groups ds) (lr_attrs r)))"
    by (simp add: sanitizeRecord_def print_nonempty comp_def print_fields)
  then show ?thesis
    using h Sanitize_not_sensitive fields_safe derived_safe
    by (simp add: logged_fields_def Redacting_Handle_def console_ops_def Console_Handle_def console_line_def sanitizeRecord_def)
qed

section \<open>One line for a record\<close>

text \<open>A printable character: neither a control of ASCII nor DEL.\<close>

definition printable :: "char \<Rightarrow> bool" where
  "printable c \<longleftrightarrow> 0x20 \<le> byte c \<and> byte c \<noteq> 0x7F"

lemma encode_rune_high: "0x80 \<le> r \<Longrightarrow> c \<in> set (encode_rune r) \<Longrightarrow> 0x80 \<le> byte c"
proof -
  assume r: "0x80 \<le> r" and c: "c \<in> set (encode_rune r)"
  define q where "q = (if valid_rune r then r else rune_error)"
  have q: "0x80 \<le> q" "q \<le> 0x10FFFF" using r by (auto simp: q_def rune_error_def valid_rune_def)
  have parts: "q div 64 mod 64 < 64" "q div 4096 mod 64 < 64" "q mod 64 < 64" by simp_all
  have "q div 262144 \<le> 4" using q by (simp add: div_le_mono less_eq_div_iff_mult_less_eq)
  moreover have "q < 0x800 \<Longrightarrow> q div 64 < 32" "q < 0x10000 \<Longrightarrow> q div 4096 < 16" by auto
  moreover have "encode_rune r = (if q < 0x800 then [chr (0xC0 + q div 64), chr (0x80 + q mod 64)]
     else if q < 0x10000 then [chr (0xE0 + q div 4096), chr (0x80 + q div 64 mod 64), chr (0x80 + q mod 64)]
     else [chr (0xF0 + q div 262144), chr (0x80 + q div 4096 mod 64), chr (0x80 + q div 64 mod 64), chr (0x80 + q mod 64)])"
    using q by (simp add: encode_rune_def Let_def flip: q_def)
  ultimately show "0x80 \<le> byte c" using c parts by (auto simp: byte_chr split: if_splits)
qed

lemma ascii_byte_rune: "c \<in> set s \<Longrightarrow> byte c < 0x80 \<Longrightarrow> byte c \<in> set (decode_runes s)"
proof (induction s rule: decode_runes.induct)
  case (1 s)
  have ne: "s \<noteq> []" using "1.prems"(1) by auto
  define w where "w = snd (decode_rune s)"
  have unfold: "decode_runes s = fst (decode_rune s) # decode_runes (drop w s)"
    using ne by (subst decode_runes.simps) (simp add: w_def)
  have "c \<in> set (take w s) \<or> c \<in> set (drop w s)"
    using "1.prems"(1) by (metis append_take_drop_id set_append Un_iff)
  then show ?case
  proof
    assume here: "c \<in> set (take w s)"
    show ?thesis
    proof (cases "decode_rune s = (rune_error, 1)")
      case True
      then obtain s' where s: "s = c # s'" using here ne by (cases s) (auto simp: w_def)
      show ?thesis using decode_runes_ascii [OF "1.prems"(2), of s'] s by simp
    next
      case False
      then have "c \<in> set (encode_rune (fst (decode_rune s)))" using encode_decode_rune [OF ne] here by (simp add: w_def)
      moreover from this have "fst (decode_rune s) < 0x80"
        using encode_rune_high "1.prems"(2) by (meson not_le)
      ultimately show ?thesis by (simp add: unfold encode_rune_ascii byte_chr)
    qed
  next
    assume "c \<in> set (drop w s)"
    then show ?thesis using "1.IH" [OF ne] "1.prems"(2) by (simp add: unfold w_def)
  qed
qed

lemma printable_space [simp]: "printable (CHR '' '')"
  by (simp add: printable_def)

lemma printable_equals [simp]: "printable (CHR ''='')"
  by (simp add: printable_def)

lemma printable_digits [simp]: "n < 10 \<Longrightarrow> printable (digit n)" "n < 16 \<Longrightarrow> printable (hex_digit n)"
  by (simp_all add: printable_def digit_def hex_digit_def byte_chr)

lemma printable_hex: "list_all printable (hex w n)"
  by (induction w n rule: hex.induct) simp_all

lemma printable_itoa_nat: "list_all printable (itoa_nat n)"
  by (induction n rule: itoa_nat.induct) (subst itoa_nat.simps, simp)

lemma printable_encode_rune: "0x20 \<le> r \<Longrightarrow> r \<noteq> 0x7F \<Longrightarrow> list_all printable (encode_rune r)"
proof (cases "r < 0x80")
  case False
  then show ?thesis using encode_rune_high [of r] by (force simp: list_all_iff printable_def)
qed (simp add: encode_rune_ascii printable_def byte_chr)

lemma printable_quote_rune: "list_all printable (quote_rune r)"
  using printable_encode_rune [of r] printable_hex
  by (auto simp: quote_rune_def is_print_def) (simp_all add: printable_def)

lemma printable_graphic_body: "list_all printable (graphic_body s)"
proof (induction s rule: graphic_body.induct)
  case (1 s)
  then show ?case
    using printable_hex printable_quote_rune printable_encode_rune [of "0xA0"]
    by (subst graphic_body.simps) (auto simp: graphic_rune_def, simp_all add: printable_def)
qed

lemma printable_consoleText: "list_all printable (consoleText text)"
proof (cases "list_ex is_control (decode_runes text)")
  case False
  have "printable c" if "c \<in> set text" for c
  proof (cases "byte c < 0x80")
    case True
    then have "\<not> is_control (byte c)" using False ascii_byte_rune [OF that] by (auto simp: list_ex_iff)
    then show ?thesis using True by (auto simp: is_control_def printable_def)
  qed (simp add: printable_def)
  then have "list_all printable text" by (simp add: list_all_iff)
  then show ?thesis using printable_graphic_body by (simp add: consoleText_def QuoteToGraphic_def printable_def)
qed (use printable_graphic_body in \<open>simp add: consoleText_def QuoteToGraphic_def printable_def\<close>)

lemma printable_consoleAttr: "list_all printable (consoleAttr groups item)"
proof (induction groups item rule: consoleAttr.induct)
  case (1 groups item)
  show ?case
  proof (cases "resolve (snd item)")
    case (VGroup children)
    then show ?thesis using 1 by (subst consoleAttr.simps) (auto simp: list_all_iff)
  qed (use printable_consoleText in \<open>simp_all add: consoleAttr.simps [of groups]\<close>)
qed

lemma printable_pad: "list_all printable (pad w i)"
  using printable_itoa_nat by (auto simp: pad_def Let_def printable_def list_all_iff)

lemma printable_time: "list_all printable (format_rfc3339 t)"
  using printable_pad by (simp add: format_rfc3339_def Let_def split: prod.split) (simp add: printable_def)

lemma printable_level: "list_all printable (level_text l)"
  using printable_itoa_nat by (simp add: level_text_def level_name_def itoa_def) (simp add: printable_def)

text \<open>
  C38.  A record is one line of the console, whatever its texts are: the time, the level between its two colour
  sequences, and a rest without any control character of ASCII, which ends with the only line break.  A message
  or a value cannot start a second line or put out a terminal sequence.
\<close>

theorem console_line_single:
  "\<exists>color body. console_line h r = format_rfc3339 (to_utc (lr_time r)) @ '' '' @
       [CHR 0x1B] @ color @ level_text (lr_level r) @ [CHR 0x1B] @ ''[0m'' @ body @ [CHR 0x0A] \<and>
     list_all printable (format_rfc3339 (to_utc (lr_time r)) @ color @ level_text (lr_level r) @ body)"
proof -
  obtain color where color: "coloredLevel (lr_level r) = [CHR 0x1B] @ color @ level_text (lr_level r) @ [CHR 0x1B] @ ''[0m''"
      "list_all printable color"
    by (auto simp: coloredLevel_def Let_def printable_def)
  let ?body = "'' '' @ consoleText (lr_message r) @ concat (map (\<lambda>(a, groups). consoleAttr groups a) (ch_attrs h)) @
    concat (map (consoleAttr (ch_groups h)) (lr_attrs r))"
  have "list_all printable ?body"
    using printable_consoleText printable_consoleAttr by (auto simp: list_all_iff)
  then show ?thesis using color printable_time printable_level
    by (intro exI [of _ color] exI [of _ ?body]) (simp add: console_line_def)
qed

end
