(* ===== verification/App_Lifecycle.thy ===== *)
theory App_Lifecycle
  imports Http_Observer
begin

text \<open>
  internal/app/application.go: components are started in order, and closed in the reverse order when the
  process is told to stop, a component fails to start, or a started one reports a terminal error.  The
  components, the signal context and the clock of the shutdown deadline are outside.
\<close>

section \<open>Components\<close>

datatype app_event = AppStart nat | AppClose nat | AppReady bool | AppStop | AppLog string

type_synonym 'x app_world = "('x, app_event) world"

text \<open>\<open>cp_type\<close> is what the verb \<open>%T\<close> prints; \<open>cp_source\<close> says that the component has a non-nil error channel.\<close>

record 'x component =
  cp_type :: string
  cp_start :: "goctx \<Rightarrow> 'x \<Rightarrow> gerror option \<times> 'x"
  cp_close :: "goctx \<Rightarrow> 'x \<Rightarrow> gerror option \<times> 'x"
  cp_source :: bool

text \<open>
  The outside world of an application: whether the root context has ended, whether the deadline of the
  shutdown has passed.
\<close>

record 'x lifecycle_env =
  le_root :: goctx
  le_root_err :: "'x \<Rightarrow> gerror option \<times> 'x"
  le_deadline_err :: "duration \<Rightarrow> 'x \<Rightarrow> gerror option \<times> 'x"

record 'x application =
  ap_timeout :: duration
  ap_has_observer :: bool
  ap_has_logger :: bool
  ap_components :: "'x component option list"
  ap_started :: "'x component list"
  ap_shutdown :: "gerror option option"

definition newApplication :: "duration \<Rightarrow> bool \<Rightarrow> bool \<Rightarrow> 'x component option list \<Rightarrow> 'x application" where
  "newApplication timeout has_observer has_logger components =
     \<lparr>ap_timeout = timeout, ap_has_observer = has_observer, ap_has_logger = has_logger,
      ap_components = components, ap_started = [], ap_shutdown = None\<rparr>"

definition NewApplication :: "duration \<Rightarrow> bool \<Rightarrow> bool \<Rightarrow> 'x component option list \<Rightarrow> gerror + 'x application" where
  "NewApplication timeout has_observer has_logger components =
     (if timeout \<le> 0 then Inl (Errorf ''shutdown timeout must be greater than zero'')
      else Inr (newApplication timeout has_observer has_logger components))"

definition recordStarted :: "'x component \<Rightarrow> 'x application \<Rightarrow> 'x application" where
  "recordStarted c a = a\<lparr>ap_started := ap_started a @ [c]\<rparr>"

section \<open>Shutting down\<close>

text \<open>Closing in the reverse order of the start; the errors are collected, and every component is closed.\<close>

fun close_all ::
  "goctx \<Rightarrow> (nat \<times> 'x component) list \<Rightarrow> gerror list \<Rightarrow> 'x app_world \<Rightarrow> gerror list \<times> 'x app_world" where
  "close_all cx [] errs w = (errs, w)"
| "close_all cx ((i, c) # cs) errs w =
     (let (err, w1) = outside (cp_close c cx) (\<lambda>_. AppClose i) w in
      close_all cx cs
        (case err of
           None \<Rightarrow> errs
         | Some e \<Rightarrow> errs @ [Wrapf (''close component '' @ itoa (int i) @ '' ('' @ cp_type c @ ''): '') e]) w1)"

definition emit_if :: "bool \<Rightarrow> 'e \<Rightarrow> ('x, 'e) world \<Rightarrow> ('x, 'e) world" where
  "emit_if b e w = (if b then emit e w else w)"

definition shutdown ::
  "'x lifecycle_env \<Rightarrow> gerror option \<Rightarrow> 'x application \<Rightarrow> 'x app_world \<Rightarrow> gerror option \<times> 'x application \<times> 'x app_world" where
  "shutdown L trigger a w = (case ap_shutdown a of
     Some err \<Rightarrow> (err, a, w)
   | None \<Rightarrow>
       (let w1 = emit_if (ap_has_observer a) (AppReady False) w;
            shutdownCtx = with_timeout (ap_timeout a) background;
            errs = (case trigger of None \<Rightarrow> [] | Some e \<Rightarrow> [e]);
            (errs, w2) = close_all shutdownCtx (rev (enumerate 0 (ap_started a))) errs w1;
            (expired, w3) = silent (le_deadline_err L (ap_timeout a)) w2;
            errs = (case expired of None \<Rightarrow> errs | Some e \<Rightarrow> errs @ [e]);
            result = Join_errors errs;
            w4 = emit_if (result \<noteq> None \<and> ap_has_logger a) (AppLog ''app.shutdown_failed'') w3
        in (result, a\<lparr>ap_shutdown := Some result\<rparr>, w4)))"

section \<open>Waiting\<close>

text \<open>
  What the waiting loop is told: the root context ended, a channel was closed, or a channel delivered a
  value.  A channel is named by its position among the components with one; a closed channel is never
  chosen again.
\<close>

datatype selection = RootDone | SourceClosed nat | SourceError nat "gerror option"

definition sources :: "'x application \<Rightarrow> 'x component list" where
  "sources a = filter cp_source (map the (filter (\<lambda>c. c \<noteq> None) (ap_components a)))"

text \<open>\<open>None\<close> when the selections are used up and the loop still waits.\<close>

fun waitForTermination :: "'x component list \<Rightarrow> selection list \<Rightarrow> gerror option option" where
  "waitForTermination srcs [] = None"
| "waitForTermination srcs (RootDone # sels) = Some None"
| "waitForTermination srcs (SourceClosed i # sels) = waitForTermination srcs sels"
| "waitForTermination srcs (SourceError i v # sels) = (case v of
     None \<Rightarrow> waitForTermination srcs sels
   | Some e \<Rightarrow>
       if errors_is ErrHTTPServerClosed e then waitForTermination srcs sels
       else Some (Some (Wrapf (''terminal component '' @ cp_type (srcs ! i) @ '': '') e)))"

section \<open>Running\<close>

text \<open>The start of the components that are left, from position \<open>i\<close> on; the result is a trigger for the shutdown.\<close>

fun start_all ::
  "'x lifecycle_env \<Rightarrow> nat \<Rightarrow> 'x component option list \<Rightarrow> 'x application \<Rightarrow> 'x app_world
     \<Rightarrow> gerror option option \<times> 'x application \<times> 'x app_world" where
  "start_all L i [] a w = (None, a, w)"
| "start_all L i (None # cs) a w =
     (Some (Some (Errorf (''start component '' @ itoa (int i) @ '': nil component''))), a, emit AppStop w)"
| "start_all L i (Some c # cs) a w =
     (let (err, w1) = outside (cp_start c (le_root L)) (\<lambda>_. AppStart i) w in
      case err of
        Some e \<Rightarrow>
          (let (ended, w2) = silent (le_root_err L) w1; w3 = emit AppStop w2 in
           if ended \<noteq> None \<and> errors_is ContextCanceled e then (Some None, a, w3)
           else (Some (Some (Wrapf (''start component '' @ itoa (int i) @ '' ('' @ cp_type c @ ''): '') e)), a, w3))
      | None \<Rightarrow> start_all L (Suc i) cs (recordStarted c a) w1)"

text \<open>\<open>None\<close> when the run still waits.  \<open>stop\<close> is called once more on return, which does nothing.\<close>

definition Run_app ::
  "'x lifecycle_env \<Rightarrow> selection list \<Rightarrow> 'x application \<Rightarrow> 'x app_world
     \<Rightarrow> (gerror option \<times> 'x application \<times> 'x app_world) option" where
  "Run_app L sels a w =
     (let (failed, a1, w1) = start_all L 0 (ap_components a) a w in
      case failed of
        Some trigger \<Rightarrow> Some (shutdown L trigger a1 w1)
      | None \<Rightarrow>
          (let w2 = emit_if (ap_has_observer a1) (AppReady True) w1 in
           case waitForTermination (sources a1) sels of
             None \<Rightarrow> None
           | Some trigger \<Rightarrow> Some (shutdown L trigger a1 (emit AppStop w2))))"

section \<open>The order of a run\<close>

lemma close_all_trace:
  assumes "close_all cx cs errs w = (errs', w')"
  shows "emitted w (map (\<lambda>p. AppClose (fst p)) cs) w' \<and> (\<exists>more. errs' = errs @ more \<and> length more \<le> length cs)"
  using assms
proof (induction cs arbitrary: errs w)
  case (Cons p cs)
  obtain i c where p: "p = (i, c)" by fastforce
  obtain e w1 where x: "outside (cp_close c cx) (\<lambda>_. AppClose i) w = (e, w1)" by fastforce
  have run: "close_all cx cs (case e of None \<Rightarrow> errs
      | Some e \<Rightarrow> errs @ [Wrapf (''close component '' @ itoa (int i) @ '' ('' @ cp_type c @ ''): '') e]) w1 = (errs', w')"
    using Cons.prems by (simp add: p x)
  from Cons.IH [OF run] have IH: "emitted w1 (map (\<lambda>p. AppClose (fst p)) cs) w'"
    "\<exists>more. errs' = (case e of None \<Rightarrow> errs
      | Some e \<Rightarrow> errs @ [Wrapf (''close component '' @ itoa (int i) @ '' ('' @ cp_type c @ ''): '') e]) @ more \<and>
      length more \<le> length cs" by blast+
  have "emitted w (AppClose i # map (\<lambda>p. AppClose (fst p)) cs) w'"
    using emitted_trans [OF emitted_outside [OF x] IH(1)] by simp
  then show ?case using IH(2) p by (cases e) (auto intro: le_SucI)
qed simp

text \<open>
  What a start does: it starts a prefix, in order; it fails at a nil component, or at one whose start
  was called and failed.
\<close>

definition start_trace ::
  "nat \<Rightarrow> 'x component list \<Rightarrow> 'x component option list \<Rightarrow> gerror option option \<Rightarrow> 'x app_world \<Rightarrow> 'x app_world \<Rightarrow> bool" where
  "start_trace i new cs failed w w' \<longleftrightarrow> map Some new = take (length new) cs \<and>
     (case failed of
        None \<Rightarrow> length new = length cs \<and> emitted w (map AppStart [i..<i + length new]) w'
      | Some t \<Rightarrow> length new < length cs \<and>
          (emitted w (map AppStart [i..<i + length new] @ [AppStop]) w' \<and> cs ! length new = None \<and> t \<noteq> None \<or>
           emitted w (map AppStart [i..<Suc (i + length new)] @ [AppStop]) w' \<and> cs ! length new \<noteq> None))"

lemma start_trace_Cons:
  assumes "emitted w [AppStart i] w1" "start_trace (Suc i) new cs failed w1 w'"
  shows "start_trace i (c # new) (Some c # cs) failed w w'"
proof -
  have up: "map AppStart [i..<i + length (c # new)] = AppStart i # map AppStart [Suc i..<Suc i + length new]"
    "map AppStart [i..<Suc (i + length (c # new))] = AppStart i # map AppStart [Suc i..<Suc (Suc i + length new)]"
    by (subst upt_conv_Cons; simp del: upt_Suc)+
  have join: "emitted w (AppStart i # es) w'" if "emitted w1 es w'" for es
    using emitted_trans [OF assms(1) that] by simp
  show ?thesis
    using assms(2) join unfolding start_trace_def up by (auto split: option.splits)
qed

lemma start_all_trace:
  assumes "start_all L i cs a w = (failed, a', w')"
  shows "\<exists>new. a' = a\<lparr>ap_started := ap_started a @ new\<rparr> \<and> start_trace i new cs failed w w'"
  using assms
proof (induction cs arbitrary: i a w)
  case Nil
  then show ?case by (auto simp: start_trace_def intro!: exI [of _ "[]"])
next
  case (Cons oc cs)
  show ?case
  proof (cases oc)
    case None
    then show ?thesis using Cons.prems by (auto simp: start_trace_def emitted_def intro!: exI [of _ "[]"])
  next
    case (Some c)
    obtain e w1 where x: "outside (cp_start c (le_root L)) (\<lambda>_. AppStart i) w = (e, w1)" by fastforce
    have w1: "emitted w [AppStart i] w1" using emitted_outside [OF x] .
    show ?thesis
    proof (cases e)
      case None
      then have "start_all L (Suc i) cs (recordStarted c a) w1 = (failed, a', w')"
        using Cons.prems Some x by simp
      from Cons.IH [OF this] obtain new where "a' = (recordStarted c a)\<lparr>ap_started := ap_started (recordStarted c a) @ new\<rparr>"
        "start_trace (Suc i) new cs failed w1 w'" by blast
      then show ?thesis using start_trace_Cons [OF w1] Some
        by (intro exI [of _ "c # new"]) (simp add: recordStarted_def)
    next
      case failure: (Some e')
      obtain ended w2 where s: "silent (le_root_err L) w1 = (ended, w2)" by fastforce
      have "emitted w [AppStart i, AppStop] (emit AppStop w2)"
        using emitted_trans [OF w1 emitted_trans [OF emitted_silent [OF s] emitted_emit]] by simp
      moreover have "a' = a" "w' = emit AppStop w2" "failed \<noteq> None"
        using Cons.prems by (auto simp: Some x failure s Let_def split: if_splits)
      ultimately show ?thesis using Some by (auto simp: start_trace_def intro!: exI [of _ "[]"])
    qed
  qed
qed

text \<open>A first shutdown, from the announcement on.\<close>

lemma shutdown_trace:
  assumes "ap_shutdown a = None" "shutdown L trigger a w = (err, a', w')"
  shows "\<exists>logged. emitted w ((if ap_has_observer a then [AppReady False] else []) @
      map AppClose (rev [0..<length (ap_started a)]) @ logged) w' \<and>
    set logged \<subseteq> {AppLog ''app.shutdown_failed''} \<and> (logged \<noteq> [] \<longleftrightarrow> err \<noteq> None \<and> ap_has_logger a) \<and>
    ap_shutdown a' = Some err \<and> (err = None \<longrightarrow> trigger = None)"
proof -
  let ?cx = "with_timeout (ap_timeout a) background"
  let ?w1 = "emit_if (ap_has_observer a) (AppReady False) w"
  let ?e0 = "case trigger of None \<Rightarrow> [] | Some e \<Rightarrow> [e]"
  obtain errs w2 where c: "close_all ?cx (rev (enumerate 0 (ap_started a))) ?e0 ?w1 = (errs, w2)" by fastforce
  obtain ex w3 where d: "silent (le_deadline_err L (ap_timeout a)) w2 = (ex, w3)" by fastforce
  let ?errs = "case ex of None \<Rightarrow> errs | Some e \<Rightarrow> errs @ [e]"
  have out: "err = Join_errors ?errs" "ap_shutdown a' = Some err"
      "w' = emit_if (err \<noteq> None \<and> ap_has_logger a) (AppLog ''app.shutdown_failed'') w3"
    using assms by (auto simp: shutdown_def c d Let_def)
  obtain more where close: "emitted ?w1 (map (\<lambda>p. AppClose (fst p)) (rev (enumerate 0 (ap_started a)))) w2" "errs = ?e0 @ more"
    using close_all_trace [OF c] by blast
  have "map (\<lambda>p. AppClose (fst p)) (rev xs) = map AppClose (rev (map fst xs))" for xs :: "(nat \<times> 'a component) list"
    by (simp add: rev_map comp_def)
  then have "map (\<lambda>p. AppClose (fst p)) (rev (enumerate 0 (ap_started a))) = map AppClose (rev [0..<length (ap_started a)])"
    by (simp only: map_fst_enumerate add_0)
  then have closes: "emitted ?w1 (map AppClose (rev [0..<length (ap_started a)])) w2" using close(1) by simp
  have w1: "emitted w (if ap_has_observer a then [AppReady False] else []) ?w1" by (simp add: emit_if_def emitted_emit)
  have last: "emitted w3 (if err \<noteq> None \<and> ap_has_logger a then [AppLog ''app.shutdown_failed''] else []) w'"
    unfolding out(3) by (simp add: emit_if_def emitted_emit)
  have "emitted w ((if ap_has_observer a then [AppReady False] else []) @ map AppClose (rev [0..<length (ap_started a)]) @
      (if err \<noteq> None \<and> ap_has_logger a then [AppLog ''app.shutdown_failed''] else [])) w'"
    using emitted_trans [OF w1 emitted_trans [OF closes emitted_trans [OF emitted_silent [OF d] last]]] by simp
  moreover have "err = None \<longrightarrow> trigger = None"
    using out(1) close(2) by (auto simp: Join_errors_def split: option.splits)
  ultimately show ?thesis using out(2)
    by (intro exI [of _ "if err \<noteq> None \<and> ap_has_logger a then [AppLog ''app.shutdown_failed''] else []"] conjI) auto
qed

text \<open>A run on a fresh application.\<close>

lemma run_app_ordered:
  assumes run: "Run_app L sels (newApplication timeout ob lg cs) w = Some (err, a', w')"
    and es: "emitted w es w'"
  shows "\<exists>started prologue tail. map Some started = take (length started) cs \<and>
    es = prologue @ (if ob then [AppReady False] else []) @ map AppClose (rev [0..<length started]) @ tail \<and>
    set tail \<subseteq> {AppLog ''app.shutdown_failed''} \<and> ap_shutdown a' = Some err \<and>
    (prologue = map AppStart [0..<length started] @ (if ob then [AppReady True] else []) @ [AppStop] \<and> length started = length cs \<or>
     prologue = map AppStart [0..<length started] @ [AppStop] \<and> length started < length cs \<and> cs ! length started = None \<and> err \<noteq> None \<or>
     prologue = map AppStart [0..<Suc (length started)] @ [AppStop] \<and> length started < length cs \<and> cs ! length started \<noteq> None)"
proof -
  let ?a = "newApplication timeout ob lg cs"
  obtain failed a1 w1 where st: "start_all L 0 cs ?a w = (failed, a1, w1)" by (metis prod_cases3)
  obtain new where new: "a1 = ?a\<lparr>ap_started := new\<rparr>" "start_trace 0 new cs failed w w1"
    using start_all_trace [OF st] by (auto simp: newApplication_def)
  have a1: "ap_shutdown a1 = None" "ap_started a1 = new" "ap_has_observer a1 = ob" "ap_has_logger a1 = lg"
    by (simp_all add: new(1) newApplication_def)
  have finish: ?thesis
    if prologue: "emitted w prologue w2" and down: "shutdown L trigger a1 w2 = (err, a', w')"
      and shape: "trigger \<noteq> None \<and> prologue = map AppStart [0..<length new] @ [AppStop] \<and> length new < length cs \<and> cs ! length new = None \<or>
        prologue = map AppStart [0..<Suc (length new)] @ [AppStop] \<and> length new < length cs \<and> cs ! length new \<noteq> None \<or>
        prologue = map AppStart [0..<length new] @ (if ob then [AppReady True] else []) @ [AppStop] \<and> length new = length cs"
    for prologue w2 trigger
  proof -
    obtain logged where d: "emitted w2 ((if ob then [AppReady False] else []) @ map AppClose (rev [0..<length new]) @ logged) w'"
      "set logged \<subseteq> {AppLog ''app.shutdown_failed''}" "ap_shutdown a' = Some err" "err = None \<longrightarrow> trigger = None"
      using shutdown_trace [OF a1(1) down] unfolding a1 by blast
    have "es = prologue @ (if ob then [AppReady False] else []) @ map AppClose (rev [0..<length new]) @ logged"
      using emitted_unique [OF es emitted_trans [OF prologue d(1)]] .
    moreover have "map Some new = take (length new) cs" using new(2) by (simp add: start_trace_def)
    ultimately show ?thesis using d(2-4) shape by blast
  qed
  show ?thesis
  proof (cases failed)
    case (Some trigger)
    then have down: "shutdown L trigger a1 w1 = (err, a', w')"
      using run st by (simp add: Run_app_def newApplication_def)
    from new(2) Some show ?thesis
      using finish [OF _ down] by (auto simp: start_trace_def)
  next
    case None
    then obtain trigger where down: "shutdown L trigger a1 (emit AppStop (emit_if ob (AppReady True) w1)) = (err, a', w')"
      using run st a1(3) by (auto simp: Run_app_def newApplication_def split: option.splits)
    have "emitted w1 ((if ob then [AppReady True] else []) @ [AppStop]) (emit AppStop (emit_if ob (AppReady True) w1))"
      by (simp add: emit_if_def emitted_def)
    moreover have "emitted w (map AppStart [0..<length new]) w1" "length new = length cs"
      using new(2) None by (auto simp: start_trace_def)
    ultimately show ?thesis using finish [OF emitted_trans down] by auto
  qed
qed


section \<open>Examples\<close>

definition demo_component :: "nat component" where
  "demo_component = \<lparr>cp_type = ''*web.Server'', cp_start = (\<lambda>cx x. (None, x)), cp_close = (\<lambda>cx x. (None, x)), cp_source = True\<rparr>"

definition demo_lifecycle :: "nat lifecycle_env" where
  "demo_lifecycle = \<lparr>le_root = \<lparr>cx_root = 0, cx_detached = False, cx_timeouts = [], cx_correlation = no_correlation\<rparr>,
     le_root_err = (\<lambda>x. (None, x)), le_deadline_err = (\<lambda>d x. (None, x))\<rparr>"

lemma demo_run_app:
  "Run_app demo_lifecycle [RootDone] (newApplication millisecond True True [Some demo_component]) \<lparr>w_ext = 0, w_trace = []\<rparr>
   = Some (None, (newApplication millisecond True True [Some demo_component])\<lparr>ap_started := [demo_component], ap_shutdown := Some None\<rparr>,
       \<lparr>w_ext = 0, w_trace = [AppStart 0, AppReady True, AppStop, AppReady False, AppClose 0]\<rparr>)"
  by (simp add: Run_app_def newApplication_def demo_lifecycle_def demo_component_def outside_def recordStarted_def emit_if_def
      emit_def shutdown_def silent_def Join_errors_def enumerate_eq_zip)


end
