(* ===== verification/Foundation.thy ===== *)
theory Foundation
  imports Web_Api Web_Server Server_Config Log_Handlers App_Lifecycle
begin

text \<open>
  internal/web/server.go and internal/app/foundation.go: the router of the server and what it answers, and
  the assembly of configuration, logger, observer, server and application.  The gin library, the JSON handler of
  \<open>log/slog\<close> and the binding of listeners are parameters.
\<close>

section \<open>The server\<close>

record http_server =
  hs_addr :: string
  hs_read_header_timeout :: duration
  hs_read_timeout :: duration
  hs_write_timeout :: duration
  hs_idle_timeout :: duration

text \<open>A registered route: its method, its path, its handler.\<close>

type_synonym route = "string \<times> string \<times> foundation_data handler"

definition routes :: "string \<Rightarrow> route list" where
  "routes version = [(''GET'', ''/api/v1/health'', healthHandler), (''GET'', ''/api/v1/info'', infoHandler version)]"

text \<open>
  The server's owned state is the one of \<open>Web_Server\<close>; the factory is a parameter of its first step.
  Only the first of the factories counts, and only if it is not nil.
\<close>

record 'f server =
  sv_http :: http_server
  sv_routes :: "route list"
  sv_listener_factory :: 'f
  sv_state :: web_server

definition NewServer :: "'f \<Rightarrow> server_config \<Rightarrow> string \<Rightarrow> 'f option list \<Rightarrow> 'f server" where
  "NewServer net_Listen cfg version factories =
     \<lparr>sv_http = \<lparr>hs_addr = sc_listen_address cfg, hs_read_header_timeout = sc_read_header_timeout cfg,
        hs_read_timeout = sc_read_timeout cfg, hs_write_timeout = sc_write_timeout cfg,
        hs_idle_timeout = sc_idle_timeout cfg\<rparr>,
      sv_routes = routes version,
      sv_listener_factory = (case factories of Some f # _ \<Rightarrow> f | _ \<Rightarrow> net_Listen),
      sv_state = new_server\<rparr>"

text \<open>
  What gin does with a method and a path, from the registered routes and the two handlers for what is not there:
  it hands the request to one of these handlers, with the middleware around it, or answers it on its own,
  without any of the middleware.  The engine is the one of \<open>NewServer\<close>: as \<open>gin.New\<close> gives it, which
  leaves the redirection of trailing slashes on, and with wrong methods handled.
\<close>

datatype picked = Handled "foundation_data handler" | Own "foundation_data handler"

type_synonym gin = "route list \<Rightarrow> foundation_data handler \<Rightarrow> foundation_data handler \<Rightarrow> string \<Rightarrow> string \<Rightarrow> picked"

definition ServeHTTP :: "gin \<Rightarrow> 'f server \<Rightarrow> string \<Rightarrow> string \<Rightarrow> foundation_data handler" where
  "ServeHTTP gin s method path = (case gin (sv_routes s) noRoute noMethod method path of
     Handled h \<Rightarrow> chain h
   | Own h \<Rightarrow> h)"

text \<open>
  What gin documents of its routing, for routes without parameters, no two of them with the same method and path.
  A route is found by its method and path.  Otherwise, a path that is that of a route of the method but for
  one trailing slash is redirected there, with 301 for GET and 307 for other methods, and nothing of the
  program runs; otherwise a path registered for another method gets the handler for wrong methods, and any
  other path the one for missing routes.
\<close>

definition static_routes :: "route list \<Rightarrow> bool" where
  "static_routes rs \<longleftrightarrow> distinct (map (\<lambda>(m, p, h). (m, p)) rs) \<and>
     list_all (\<lambda>(m, p, h). CHR '':'' \<notin> set p \<and> CHR ''*'' \<notin> set p) rs"

definition redirects :: "string \<Rightarrow> foundation_data handler \<Rightarrow> bool" where
  "redirects method h \<longleftrightarrow> (\<forall>c. \<exists>c' location. h c = Returned c' \<and> hc_written c' \<and>
     hc_status c' = (if method = ''GET'' then 301 else 307) \<and> map_of (hc_headers c') ''Location'' = Some location \<and>
     map_of (hc_headers c') ''X-Request-ID'' = map_of (hc_headers c) ''X-Request-ID'' \<and>
     hc_response c' = hc_response c \<and> hc_observer c' = hc_observer c \<and> hc_log c' = hc_log c)"

definition gin_routing :: "gin \<Rightarrow> bool" where
  "gin_routing gin \<longleftrightarrow> (\<forall>rs nr nm method path. static_routes rs \<longrightarrow>
     (let found = (\<lambda>m p. (m, p) \<in> (\<lambda>(m, p, h). (m, p)) ` set rs);
          slashed = found method (path @ ''/'') \<or> (\<exists>p. path = p @ ''/'' \<and> found method p) in
      (\<forall>h. (method, path, h) \<in> set rs \<longrightarrow> gin rs nr nm method path = Handled h) \<and>
      (\<not> found method path \<longrightarrow>
        (if slashed \<and> method \<noteq> ''CONNECT'' \<and> path \<noteq> ''/''
         then \<exists>h. gin rs nr nm method path = Own h \<and> redirects method h
         else gin rs nr nm method path = Handled (if \<exists>m. found m path then nm else nr)))))"

section \<open>What the server answers\<close>

definition health_reply :: "bool \<Rightarrow> int \<times> foundation_data envelope" where
  "health_reply ready =
     (if ready then (200, result_of ''ok'' ''ok'' (Some (HealthResponse ''ready'')) None)
      else (503, result_of ''not_ready'' ''service not ready'' None None))"

definition info_reply :: "string \<Rightarrow> bool \<Rightarrow> int \<times> foundation_data envelope" where
  "info_reply version ready = (200, result_of ''ok'' ''ok'' (Some (InfoResponse version ''foundation'' ready)) None)"

definition missing_reply :: "int \<times> foundation_data envelope" where
  "missing_reply = (404, result_of ''not_found'' ''not found'' None None)"

definition method_reply :: "int \<times> foundation_data envelope" where
  "method_reply = (405, result_of ''method_not_allowed'' ''method not allowed'' None None)"

text \<open>
  What the server has for a method and a path, from the table of the API: nothing of its own for the two
  paths with a trailing slash, which are redirected.
\<close>

definition api_reply :: "string \<Rightarrow> bool \<Rightarrow> string \<Rightarrow> string \<Rightarrow> (int \<times> foundation_data envelope) option" where
  "api_reply version ready method path =
     (if path \<in> {''/api/v1/health'', ''/api/v1/info''} then
        Some (if method \<noteq> ''GET'' then method_reply
          else if path = ''/api/v1/health'' then health_reply ready else info_reply version ready)
      else if method = ''GET'' \<and> path \<in> {''/api/v1/health/'', ''/api/v1/info/''} then None
      else Some missing_reply)"

lemma chain_reply:
  assumes "route_handler handle" and reply: "\<And>c0. hc_observer c0 = hc_observer c \<Longrightarrow> handle c0 = write_result (fst a) (snd a) c0"
    and id: "validRequestID (hc_request_id c) \<or> hc_random c (hc_reads c) = Some bytes \<and> length bytes = 16"
    and new: "\<not> hc_written c"
  shows "\<exists>c' v. chain handle c = Returned c' \<and> identified v c' \<and> validRequestID v \<and>
    hc_response c' = Some (fst a, (snd a)\<lparr>ev_request_id := v\<rparr>)"
proof -
  let ?v = "issued_id bytes c"
  have v: "validRequestID ?v" using issued_id_valid id by blast
  then have "identified ?v (entered ?v c)" by (intro entered_identified) (auto simp: validRequestID_def)
  note written = write_identified [OF this, of "fst a" "snd a"]
  obtain c' where "chain handle c = Returned c'" "identified ?v c'"
    "(hc_status c', hc_response c') = answer_of ?v (handle (entered ?v c))"
    using route_handler.chain_answers [OF assms(1) id] by blast
  then show ?thesis using v new by (intro exI [of _ c'] exI [of _ ?v]) (simp add: reply written)
qed

text \<open>The four handlers.\<close>

lemmas envelope_defs = Success_def Error_def validSuccessDescriptor_def validErrorDescriptor_def errorDescriptors_def
  validateDetails_def

lemma healthHandler_reply: "healthHandler c = (let a = health_reply (ob_ready (hc_observer c)) in write_result (fst a) (snd a) c)"
  by (simp add: healthHandler_def Observer_Snapshot_def health_reply_def envelope_defs)

lemma health_follows_readiness:
  assumes "validRequestID (hc_request_id c) \<or> hc_random c (hc_reads c) = Some bytes \<and> length bytes = 16" "\<not> hc_written c"
  shows "\<exists>c' v. chain healthHandler c = Returned c' \<and> identified v c' \<and> validRequestID v \<and>
    hc_response c' = Some (fst (health_reply (ob_ready (hc_observer c))), (snd (health_reply (ob_ready (hc_observer c))))\<lparr>ev_request_id := v\<rparr>)"
  by (rule chain_reply [OF health.route_handler_axioms _ assms]) (simp add: healthHandler_reply Let_def)

lemma infoHandler_reply: "infoHandler v c = (let a = info_reply v (ob_ready (hc_observer c)) in write_result (fst a) (snd a) c)"
  by (simp add: infoHandler_def Observer_Snapshot_def info_reply_def envelope_defs)

lemma noRoute_reply: "noRoute c = write_result (fst missing_reply) (snd missing_reply) c"
  by (simp add: noRoute_def missing_reply_def envelope_defs)

lemma noMethod_reply: "noMethod c = write_result (fst method_reply) (snd method_reply) c"
  by (simp add: noMethod_def method_reply_def envelope_defs)

lemma routes_found:
  "(m, p) \<in> (\<lambda>(m, p, h). (m, p)) ` set (routes version) \<longleftrightarrow> m = ''GET'' \<and> p \<in> {''/api/v1/health'', ''/api/v1/info''}"
  by (auto simp: routes_def)

lemma static_routes_routes: "static_routes (routes version)"
  by (simp add: static_routes_def routes_def)

lemma one_slash: "p @ ''/'' \<noteq> ''/api/v1/health''" "p @ ''/'' \<noteq> ''/api/v1/info''"
  "p @ ''/'' = ''/api/v1/health/'' \<longleftrightarrow> p = ''/api/v1/health''" "p @ ''/'' = ''/api/v1/info/'' \<longleftrightarrow> p = ''/api/v1/info''"
proof -
  have "p @ ''/'' = q @ [c] \<longleftrightarrow> p = q \<and> c = CHR ''/''" for q c by auto
  from this [of "''/api/v1/healt''" "CHR ''h''"] this [of "''/api/v1/inf''" "CHR ''o''"]
    this [of "''/api/v1/health''" "CHR ''/''"] this [of "''/api/v1/info''" "CHR ''/''"]
  show "p @ ''/'' \<noteq> ''/api/v1/health''" "p @ ''/'' \<noteq> ''/api/v1/info''"
    "p @ ''/'' = ''/api/v1/health/'' \<longleftrightarrow> p = ''/api/v1/health''" "p @ ''/'' = ''/api/v1/info/'' \<longleftrightarrow> p = ''/api/v1/info''"
    by simp_all
qed

text \<open>What gin picks for the routes of the server.\<close>

lemma server_picks:
  assumes "gin_routing gin"
  shows "case api_reply version ready verb path of
      Some a \<Rightarrow> \<exists>h. gin (routes version) noRoute noMethod verb path = Handled h \<and>
        (h = noRoute \<and> a = missing_reply \<or> h = noMethod \<and> a = method_reply \<or> h = healthHandler \<and> a = health_reply ready \<or>
         h = infoHandler version \<and> a = info_reply version ready)
    | None \<Rightarrow> verb = ''GET'' \<and> (\<exists>h. gin (routes version) noRoute noMethod verb path = Own h \<and> redirects verb h)"
proof -
  let ?pick = "gin (routes version) noRoute noMethod verb path"
  have hit: "?pick = Handled h" if "(verb, path, h) \<in> set (routes version)" for h
    using assms static_routes_routes that unfolding gin_routing_def Let_def by blast
  have miss: "if (path @ ''/'' \<in> {''/api/v1/health'', ''/api/v1/info''} \<or> path \<in> {''/api/v1/health/'', ''/api/v1/info/''}) \<and>
        verb = ''GET'' \<and> path \<noteq> ''/''
      then \<exists>h. ?pick = Own h \<and> redirects verb h
      else ?pick = Handled (if path \<in> {''/api/v1/health'', ''/api/v1/info''} then noMethod else noRoute)"
    if "\<not> (verb = ''GET'' \<and> path \<in> {''/api/v1/health'', ''/api/v1/info''})"
  proof -
    have "(\<exists>p. path = p @ ''/'' \<and> p \<in> {''/api/v1/health'', ''/api/v1/info''}) \<longleftrightarrow> path \<in> {''/api/v1/health/'', ''/api/v1/info/''}"
      using one_slash by auto
    then show ?thesis
      using assms [unfolded gin_routing_def Let_def, THEN spec, of "routes version", THEN spec, of noRoute, THEN spec, of noMethod,
          THEN spec, of verb, THEN spec, of path] static_routes_routes [of version] that
      unfolding routes_found by (auto split: if_splits)
  qed
  show ?thesis
  proof (cases "verb = ''GET'' \<and> path \<in> {''/api/v1/health'', ''/api/v1/info''}")
    case True
    then show ?thesis using hit [of healthHandler] hit [of "infoHandler version"]
      by (auto simp: api_reply_def routes_def)
  next
    case False
    then show ?thesis using miss [OF False] one_slash(1,2) [of path]
      by (auto simp: api_reply_def split: if_splits)
  qed
qed

text \<open>
  C33.  What the server answers.  When gin routes as it documents, every request gets what the table of the API
  has for its method and path, in one envelope with a valid identifier that the response's header carries too: the
  health route succeeds exactly when the observer is ready, the information route gives the version and the
  readiness, other methods on these two paths get the fixed 405 and any other request the fixed 404.  The exception
  is GET on one of the two paths with a trailing slash: gin redirects it on its own, and then there is neither
  an envelope nor an identifier, and the request is neither counted nor logged.
\<close>

theorem server_answers:
  assumes gin: "gin_routing gin"
    and id: "validRequestID (hc_request_id c) \<or> hc_random c (hc_reads c) = Some bytes \<and> length bytes = 16"
    and new: "\<not> hc_written c"
  shows "\<exists>c'. ServeHTTP gin (NewServer net_Listen cfg version factories) method path c = Returned c' \<and>
    (case api_reply version (ob_ready (hc_observer c)) method path of
       Some a \<Rightarrow> \<exists>v. identified v c' \<and> validRequestID v \<and> hc_response c' = Some (fst a, (snd a)\<lparr>ev_request_id := v\<rparr>)
     | None \<Rightarrow> hc_status c' = 301 \<and> hc_response c' = hc_response c \<and>
         map_of (hc_headers c') ''X-Request-ID'' = map_of (hc_headers c) ''X-Request-ID'' \<and>
         hc_observer c' = hc_observer c \<and> hc_log c' = hc_log c)"
proof -
  let ?ready = "ob_ready (hc_observer c)"
  have serve: "ServeHTTP gin (NewServer net_Listen cfg version factories) method path =
      (case gin (routes version) noRoute noMethod method path of Handled h \<Rightarrow> chain h | Own h \<Rightarrow> h)"
    by (simp add: ServeHTTP_def NewServer_def)
  note picked = server_picks [OF gin, where version = version and ready = ?ready and verb = "method" and path = path]
  show ?thesis
  proof (cases "api_reply version ?ready method path")
    case None
    then obtain h where "method = ''GET''" "gin (routes version) noRoute noMethod method path = Own h" "redirects method h"
      using picked by auto
    then show ?thesis unfolding serve None by (auto simp: redirects_def)
  next
    case (Some a)
    then obtain h where h: "gin (routes version) noRoute noMethod method path = Handled h"
      "h = noRoute \<and> a = missing_reply \<or> h = noMethod \<and> a = method_reply \<or> h = healthHandler \<and> a = health_reply ?ready \<or>
       h = infoHandler version \<and> a = info_reply version ?ready"
      using picked by auto
    note reply = chain_reply [OF _ _ id new]
    have "\<exists>c' v. chain h c = Returned c' \<and> identified v c' \<and> validRequestID v \<and>
        hc_response c' = Some (fst a, (snd a)\<lparr>ev_request_id := v\<rparr>)"
      using h(2) reply [OF no_route.route_handler_axioms noRoute_reply] reply [OF no_method.route_handler_axioms noMethod_reply]
        health_follows_readiness [OF id new]
        reply [OF info.route_handler_axioms, of version "info_reply version ?ready"]
      by (elim disjE conjE) (simp_all add: infoHandler_reply Let_def)
    then show ?thesis unfolding serve Some h(1) by auto
  qed
qed

section \<open>The assembly\<close>

text \<open>The options; a writer is what it does with a line.\<close>

record ('w, 'f, 's) foundation_options =
  fo_server_yaml :: string
  fo_lookup_env :: environment
  fo_log_writer :: "'w option"
  fo_version :: string
  fo_listener_factory :: "'f option"
  fo_signal_context :: "'s option"

datatype ('w, 'h) logger = JSONLogger 'w "'h redacting_handler" | ConsoleLogger 'w "console_handler redacting_handler"

text \<open>\<open>slog.LevelInfo\<close> is 0.\<close>

definition newFoundationLogger :: "(int option \<Rightarrow> 'h) \<Rightarrow> server_config \<Rightarrow> 'w \<Rightarrow> ('w, 'h) logger" where
  "newFoundationLogger NewJSONHandler cfg writer =
     (if sc_log_format cfg = LogFormatJSON then JSONLogger writer (NewLogger NewJSONHandler (Some 0))
      else ConsoleLogger writer (NewConsoleLogger (Some 0)))"

text \<open>
  What the process gives: the environment, the standard error output, \<open>net.Listen\<close>, the JSON handler of
  \<open>slog\<close>, and the component that a server is for its application.
\<close>

record ('w, 'f, 'h, 'x) process =
  ps_url :: url_parser
  ps_yaml :: yaml_library
  ps_lookup_env :: "string \<Rightarrow> string option"
  ps_stderr :: 'w
  ps_net_listen :: 'f
  ps_json_handler :: "int option \<Rightarrow> 'h"
  ps_component :: "'f server \<Rightarrow> ('w, 'h) logger \<Rightarrow> 'x component"

text \<open>The application keeps whether it has an observer and a logger, and the signal factory is part of its environment.\<close>

definition NewFoundation ::
  "('w, 'f, 'h, 'x) process \<Rightarrow> ('w, 'f, 's) foundation_options \<Rightarrow> gerror + 'f server \<times> ('w, 'h) logger \<times> 'x application" where
  "NewFoundation P options =
     (let lookupEnv = (case fo_lookup_env options of None \<Rightarrow> ps_lookup_env P | Some f \<Rightarrow> f) in
      case LoadServerYAML (ps_url P) (ps_yaml P) (fo_server_yaml options) (Some lookupEnv) of
        Inl e \<Rightarrow> Inl (Wrapf ''load server configuration: '' e)
      | Inr serverConfig \<Rightarrow>
          (let logWriter = (case fo_log_writer options of None \<Rightarrow> ps_stderr P | Some w \<Rightarrow> w);
               logger = newFoundationLogger (ps_json_handler P) serverConfig logWriter;
               listenerFactory = (case fo_listener_factory options of None \<Rightarrow> ps_net_listen P | Some f \<Rightarrow> f);
               server = NewServer (ps_net_listen P) serverConfig (fo_version options) [Some listenerFactory]
           in Inr (server, logger,
                newApplication (sc_shutdown_timeout serverConfig) True True [Some (ps_component P server logger)])))"

text \<open>
  The assembled program is usable.  Whatever the configuration says, either the assembly fails with the
  error of the configuration, or the application owns the one server; that server will bind an address with a host
  and a port, all its timeouts are positive, it has not started; the application would pass the check
  of its own constructor; and the logger is one of the two that redact.
\<close>

lemma NewFoundation_usable:
  assumes "NewFoundation P options = Inr (server, logger, application)"
  shows "usable_address (hs_addr (sv_http server)) \<and> 0 < hs_read_header_timeout (sv_http server) \<and>
    0 < hs_read_timeout (sv_http server) \<and> 0 < hs_write_timeout (sv_http server) \<and> 0 < hs_idle_timeout (sv_http server) \<and>
    sv_state server = new_server \<and> sv_routes server = routes (fo_version options) \<and>
    NewApplication (ap_timeout application) True True [Some (ps_component P server logger)] = Inr application \<and>
    (logger = JSONLogger (case fo_log_writer options of None \<Rightarrow> ps_stderr P | Some w \<Rightarrow> w)
       (NewRedactingHandler (ps_json_handler P (Some 0))) \<or>
     logger = ConsoleLogger (case fo_log_writer options of None \<Rightarrow> ps_stderr P | Some w \<Rightarrow> w)
       (NewRedactingHandler (NewConsoleHandler (Some 0))))"
proof -
  obtain cfg where cfg: "LoadServerYAML (ps_url P) (ps_yaml P) (fo_server_yaml options)
      (Some (case fo_lookup_env options of None \<Rightarrow> ps_lookup_env P | Some f \<Rightarrow> f)) = Inr cfg"
    using assms by (auto simp: NewFoundation_def Let_def split: sum.splits)
  then have valid: "valid_server_config cfg" by (rule LoadServerYAML_valid_config)
  let ?writer = "case fo_log_writer options of None \<Rightarrow> ps_stderr P | Some w \<Rightarrow> w"
  have built: "server = NewServer (ps_net_listen P) cfg (fo_version options)
        [Some (case fo_listener_factory options of None \<Rightarrow> ps_net_listen P | Some f \<Rightarrow> f)]"
      "logger = newFoundationLogger (ps_json_handler P) cfg ?writer"
      "application = newApplication (sc_shutdown_timeout cfg) True True [Some (ps_component P server logger)]"
    using assms by (auto simp: NewFoundation_def cfg Let_def)
  have "logger = JSONLogger ?writer (NewRedactingHandler (ps_json_handler P (Some 0))) \<or>
     logger = ConsoleLogger ?writer (NewRedactingHandler (NewConsoleHandler (Some 0)))"
    by (auto simp: built(2) newFoundationLogger_def NewLogger_def NewConsoleLogger_def)
  moreover have "NewApplication (ap_timeout application) True True [Some (ps_component P server logger)] = Inr application"
    using valid unfolding built(3) by (simp add: NewApplication_def newApplication_def valid_server_config_def)
  ultimately show ?thesis using valid by (simp add: built(1) NewServer_def valid_server_config_def)
qed

section \<open>Examples\<close>

text \<open>A router that knows static paths only, and redirects to the path itself.\<close>

definition demo_redirect :: "string \<Rightarrow> string \<Rightarrow> foundation_data handler" where
  "demo_redirect method path c = Returned (c\<lparr>hc_headers := put ''Location'' path (hc_headers c), hc_written := True,
     hc_status := (if method = ''GET'' then 301 else 307)\<rparr>)"

definition demo_gin :: gin where
  "demo_gin rs nr nm method path = (case find (\<lambda>r. fst r = method \<and> fst (snd r) = path) rs of
     Some r \<Rightarrow> Handled (snd (snd r))
   | None \<Rightarrow> (case find (\<lambda>r. fst r = method \<and> (fst (snd r) = path @ ''/'' \<or> path = fst (snd r) @ ''/'')) rs of
       Some r \<Rightarrow> if method \<noteq> ''CONNECT'' \<and> path \<noteq> ''/'' then Own (demo_redirect method (fst (snd r)))
         else if list_ex (\<lambda>r. fst (snd r) = path) rs then Handled nm else Handled nr
     | None \<Rightarrow> if list_ex (\<lambda>r. fst (snd r) = path) rs then Handled nm else Handled nr))"

lemma demo_redirects: "redirects method (demo_redirect method path)"
  by (simp add: redirects_def demo_redirect_def)

lemma static_routes_unique:
  "static_routes rs \<Longrightarrow> (m, p, h) \<in> set rs \<Longrightarrow> (m, p, h') \<in> set rs \<Longrightarrow> h = h'"
  using inj_onD [of "\<lambda>(m, p, h). (m, p)" "set rs" "(m, p, h)" "(m, p, h')"] by (auto simp: static_routes_def distinct_map)

lemma found_route: "(m, p) \<in> (\<lambda>(m, p, h). (m, p)) ` set rs \<longleftrightarrow> (\<exists>r \<in> set rs. fst r = m \<and> fst (snd r) = p)"
  by force

lemma demo_gin_routing: "gin_routing demo_gin"
  unfolding gin_routing_def Let_def
proof (intro allI impI conjI)
  fix rs nr nm verb path h
  assume rs: "static_routes rs" and h: "(verb, path, h) \<in> set rs"
  then obtain r where r: "find (\<lambda>r. fst r = verb \<and> fst (snd r) = path) rs = Some r"
    by (cases "find (\<lambda>r. fst r = verb \<and> fst (snd r) = path) rs") (force simp: find_None_iff)+
  then have "r \<in> set rs" "fst r = verb" "fst (snd r) = path" by (auto simp: find_Some_iff)
  then have "snd (snd r) = h" using static_routes_unique [OF rs, of verb path "snd (snd r)" h] h by (cases r) auto
  then show "demo_gin rs nr nm verb path = Handled h" by (simp add: demo_gin_def r)
next
  fix rs :: "route list" and nr nm and verb path :: string
  assume "(verb, path) \<notin> (\<lambda>(m, p, h). (m, p)) ` set rs"
  then have none: "find (\<lambda>r. fst r = verb \<and> fst (snd r) = path) rs = None" by (auto simp: find_None_iff found_route)
  let ?P = "\<lambda>r. fst r = verb \<and> (fst (snd r) = path @ ''/'' \<or> path = fst (snd r) @ ''/'')"
  let ?slashed = "(verb, path @ ''/'') \<in> (\<lambda>(m, p, h). (m, p)) ` set rs \<or>
    (\<exists>p. path = p @ ''/'' \<and> (verb, p) \<in> (\<lambda>(m, p, h). (m, p)) ` set rs)"
  have slashed: "?slashed \<longleftrightarrow> (\<exists>r \<in> set rs. ?P r)" unfolding found_route by blast
  have other: "list_ex (\<lambda>r. fst (snd r) = path) rs \<longleftrightarrow> (\<exists>m. (m, path) \<in> (\<lambda>(m, p, h). (m, p)) ` set rs)"
    unfolding found_route by (auto simp: list_ex_iff)
  show "if ?slashed \<and> verb \<noteq> ''CONNECT'' \<and> path \<noteq> ''/''
    then \<exists>h. demo_gin rs nr nm verb path = Own h \<and> redirects verb h
    else demo_gin rs nr nm verb path = Handled (if \<exists>m. (m, path) \<in> (\<lambda>(m, p, h). (m, p)) ` set rs then nm else nr)"
  proof (cases "find ?P rs")
    case None
    then have "\<not> ?slashed" unfolding slashed find_None_iff by blast
    then show ?thesis using None none other by (simp add: demo_gin_def)
  next
    case (Some r)
    then have "?slashed" unfolding slashed by (auto simp: find_Some_iff)
    moreover have "demo_gin rs nr nm verb path =
        (if verb \<noteq> ''CONNECT'' \<and> path \<noteq> ''/'' then Own (demo_redirect verb (fst (snd r)))
         else Handled (if \<exists>m. (m, path) \<in> (\<lambda>(m, p, h). (m, p)) ` set rs then nm else nr))"
      unfolding demo_gin_def none Some option.case other by (simp only: if_distrib [of Handled])
    ultimately show ?thesis using demo_redirects by (simp only: simp_thms if_True) auto
  qed
qed

definition demo_config :: server_config where
  "demo_config = \<lparr>sc_listen_address = ''127.0.0.1:8080'', sc_log_format = ''console'', sc_providers = [],
     sc_read_header_timeout = 2, sc_read_timeout = 3, sc_write_timeout = 2, sc_idle_timeout = 3, sc_shutdown_timeout = 3\<rparr>"

theorem server_answers_witness:
  "(\<exists>c' v. ServeHTTP demo_gin (NewServer () demo_config ''v1'' []) ''GET'' ''/api/v1/health'' demo_http = Returned c' \<and>
     validRequestID v \<and> hc_response c' = Some (200, (result_of ''ok'' ''ok'' (Some (HealthResponse ''ready'')) None)\<lparr>ev_request_id := v\<rparr>)) \<and>
   (\<exists>c'. ServeHTTP demo_gin (NewServer () demo_config ''v1'' []) ''GET'' ''/api/v1/health/'' demo_http = Returned c' \<and>
     hc_status c' = 301 \<and> map_of (hc_headers c') ''X-Request-ID'' = None)"
proof
  have ready: "ob_ready (hc_observer (demo_http :: foundation_data http_context))" by simp
  note answers = server_answers [OF demo_gin_routing disjI1 [OF demo_http_id] demo_http_fields(1), of "()" demo_config "''v1''" "[]"
      "''GET''"]
  show "\<exists>c' v. ServeHTTP demo_gin (NewServer () demo_config ''v1'' []) ''GET'' ''/api/v1/health'' demo_http = Returned c' \<and>
     validRequestID v \<and> hc_response c' = Some (200, (result_of ''ok'' ''ok'' (Some (HealthResponse ''ready'')) None)\<lparr>ev_request_id := v\<rparr>)"
    using answers [of "''/api/v1/health''"] ready by (auto simp: api_reply_def health_reply_def)
  show "\<exists>c'. ServeHTTP demo_gin (NewServer () demo_config ''v1'' []) ''GET'' ''/api/v1/health/'' demo_http = Returned c' \<and>
     hc_status c' = 301 \<and> map_of (hc_headers c') ''X-Request-ID'' = None"
    using answers [of "''/api/v1/health/''"] by (auto simp: api_reply_def demo_http_def)
qed

end
