(* ===== verification/Workspace.thy ===== *)
theory Workspace
  imports Paths Go_Json
begin

text \<open>
  cmd/oryxos/workspace.go: creating the directories and files of a workspace without touching what is
  there, and telling whether a workspace is complete.  The file system is the source's interface
  \<open>workspaceFS\<close>; every call of it is an event.
\<close>

lemma join_nils_Some [simp]: "(\<exists>y. join_nils es = Some y) \<longleftrightarrow> (\<exists>e \<in> set es. e \<noteq> None)"
  using join_nils_None [of es] by (metis not_None_eq)

section \<open>The interface of the file system\<close>

text \<open>What the code asks of an \<open>os.FileInfo\<close>.\<close>

record file_info =
  fi_symlink :: bool
  fi_dir :: bool
  fi_regular :: bool
  fi_perm :: nat

record 'x workspace_file =
  wf_name :: string
  wf_chmod :: "nat \<Rightarrow> 'x \<Rightarrow> gerror option \<times> 'x"
  wf_write :: "string \<Rightarrow> 'x \<Rightarrow> (int \<times> gerror option) \<times> 'x"
  wf_sync :: "'x \<Rightarrow> gerror option \<times> 'x"
  wf_close :: "'x \<Rightarrow> gerror option \<times> 'x"

record 'x workspace_fs =
  wfs_lstat :: "string \<Rightarrow> 'x \<Rightarrow> (gerror + file_info) \<times> 'x"
  wfs_mkdir :: "string \<Rightarrow> nat \<Rightarrow> 'x \<Rightarrow> gerror option \<times> 'x"
  wfs_chmod :: "string \<Rightarrow> nat \<Rightarrow> 'x \<Rightarrow> gerror option \<times> 'x"
  wfs_create_temp :: "string \<Rightarrow> string \<Rightarrow> 'x \<Rightarrow> (gerror + 'x workspace_file) \<times> 'x"
  wfs_link :: "string \<Rightarrow> string \<Rightarrow> 'x \<Rightarrow> gerror option \<times> 'x"
  wfs_remove :: "string \<Rightarrow> 'x \<Rightarrow> gerror option \<times> 'x"

text \<open>The boolean of an event says whether the call returned no error.\<close>

datatype ws_event =
    WLstat string | WMkdir string nat bool | WChmod string nat bool
  | WCreateTemp string string "string option" | WFileChmod string nat bool | WWrite string string int bool
  | WSync string bool | WFileClose string bool | WLink string string bool | WRemove string bool | WPrint string

type_synonym 'x ww = "('x, ws_event) world"

abbreviation temp_name :: "gerror + 'x workspace_file \<Rightarrow> string option" where
  "temp_name r \<equiv> (case r of Inl e \<Rightarrow> None | Inr f \<Rightarrow> Some (wf_name f))"

section \<open>The contents of a workspace\<close>

definition workspaceDirectories :: "string list" where
  "workspaceDirectories = [''profiles'', ''sessions'', ''skills'', ''logs'', ''memory'']"

definition lines :: "string list \<Rightarrow> string" where
  "lines ls = concat (map (\<lambda>l. l @ [CHR 0x0A]) ls)"

definition defaultProfileYAML :: string where
  "defaultProfileYAML = lines
     [''name: default'', ''description: Default OryxOS profile'', [],
      ''identity:'', ''  agent_name: Oryx'', ''  prompt: You are a helpful enterprise assistant.'', [],
      ''provider:'', ''  name: deepseek'', ''  model: deepseek-flash'', ''  temperature: 0.3'', [],
      ''tools:'', ''  - read_file'', ''  - write_file'', ''  - list_dir'', ''  - shell'', ''  - http_get'',
      ''  - http_post'', ''  - save_memory'', ''  - recall_memory'', ''  - notify'', [],
      ''skills: []'', ''mcp_servers: []'', ''notify_channels: []'', ''schedules: []'',
      ''channels:'', ''  - name: cli'', ''    config: {}'',
      ''bootstrap:'', ''  - AGENTS.md'', ''  - SOUL.md'', ''  - USER.md'',
      ''settings:'', ''  max_iterations: 10'', ''  max_history_turns: 20'']"

definition workspaceFiles :: "(string \<times> string) list" where
  "workspaceFiles =
     [(''AGENTS.md'', lines [''# Project Instructions'']), (''SOUL.md'', lines [''# Agent Personality'']),
      (''USER.md'', lines [''# User Preferences'']), (''memory/MEMORY.md'', []),
      (''mcp_servers.yaml'', lines [''servers: []'']), (''profiles/default.yaml'', defaultProfileYAML)]"

section \<open>Directories\<close>

text \<open>\<open>0o750\<close> and \<open>0o600\<close>.\<close>

definition directory_mode :: nat where "directory_mode = 488"
definition file_mode :: nat where "file_mode = 384"

text \<open>The verb \<open>%04o\<close>.\<close>

fun octal :: "nat \<Rightarrow> nat \<Rightarrow> string" where
  "octal 0 n = []"
| "octal (Suc k) n = octal k (n div 8) @ [digit (n mod 8)]"

definition cleanupError :: "string \<Rightarrow> gerror option \<Rightarrow> gerror option" where
  "cleanupError operation err = (case err of
     None \<Rightarrow> None
   | Some e \<Rightarrow> if errors_is ErrNotExist e then None else Some (Wrapf (operation @ '': '') e))"

text \<open>What the code says of an existing directory target.\<close>

definition existing_directory :: "file_info \<Rightarrow> gerror option" where
  "existing_directory info =
     (if fi_symlink info then Some (Errorf ''existing path is a symlink'')
      else if \<not> fi_dir info then Some (Errorf ''existing path is not a directory'')
      else if fi_perm info \<noteq> directory_mode
      then Some (Errorf (''existing directory permissions are '' @ octal 4 (fi_perm info) @ '', want 0750''))
      else None)"

text \<open>
  The retry after a directory that appeared in between may repeat for as long as others create and
  remove it: then the result is \<open>None\<close>.
\<close>

partial_function (option) ensureWorkspaceDirectory ::
  "string \<Rightarrow> 'x workspace_fs \<Rightarrow> 'x ww \<Rightarrow> ((bool \<times> gerror option) \<times> 'x ww) option" where
  "ensureWorkspaceDirectory path fs w =
     (let (info, w1) = outside (wfs_lstat fs path) (\<lambda>_. WLstat path) w in
      case info of
        Inr i \<Rightarrow> Some ((False, existing_directory i), w1)
      | Inl err \<Rightarrow>
          if \<not> errors_is ErrNotExist err then Some ((False, Some err), w1)
          else
            (let (made, w2) = outside (wfs_mkdir fs path directory_mode) (\<lambda>e. WMkdir path directory_mode (e = None)) w1 in
             case made of
               Some e \<Rightarrow>
                 if errors_is ErrExist e then ensureWorkspaceDirectory path fs w2
                 else Some ((False, Some e), w2)
             | None \<Rightarrow>
                 (let (moded, w3) = outside (wfs_chmod fs path directory_mode) (\<lambda>e. WChmod path directory_mode (e = None)) w2 in
                  case moded of
                    None \<Rightarrow> Some ((True, None), w3)
                  | Some e \<Rightarrow>
                      (let (cleanupErr, w4) = outside (wfs_remove fs path) (\<lambda>e. WRemove path (e = None)) w3
                       in Some ((False, join_nils [Some e, cleanupError ''remove directory after chmod failure'' cleanupErr]), w4)))))"

section \<open>Files\<close>

definition existingWorkspaceFile :: "string \<Rightarrow> 'x workspace_fs \<Rightarrow> 'x ww \<Rightarrow> (bool \<times> gerror option) \<times> 'x ww" where
  "existingWorkspaceFile path fs w =
     (let (info, w1) = outside (wfs_lstat fs path) (\<lambda>_. WLstat path) w in
      case info of
        Inl err \<Rightarrow> if errors_is ErrNotExist err then ((False, None), w1) else ((False, Some err), w1)
      | Inr i \<Rightarrow>
          if fi_symlink i then ((False, Some (Errorf ''existing path is a symlink'')), w1)
          else if \<not> fi_regular i then ((False, Some (Errorf ''existing path is not a regular file'')), w1)
          else ((True, None), w1))"

function writeWorkspaceContent :: "'x workspace_file \<Rightarrow> string \<Rightarrow> 'x ww \<Rightarrow> gerror option \<times> 'x ww" where
  "writeWorkspaceContent file content w =
     (if content = [] then (None, w)
      else
        (let ((written, err), w1) = outside (wf_write file content) (\<lambda>(n, e). WWrite (wf_name file) content n (e = None)) w in
         if written < 0 \<or> int (length content) < written then (Some (Sentinel ErrShortWrite), w1)
         else case err of
             Some e \<Rightarrow> (Some e, w1)
           | None \<Rightarrow>
               if written = 0 then (Some (Sentinel ErrShortWrite), w1)
               else writeWorkspaceContent file (drop (nat written) content) w1))"
  by pat_completeness auto
termination
  by (relation "measure (\<lambda>(f, content, w). length content)") (auto split: prod.splits)

declare writeWorkspaceContent.simps [simp del]

text \<open>\<open>cleanupBeforePublication\<close>.\<close>

definition remove_temp :: "string \<Rightarrow> string \<Rightarrow> 'x workspace_fs \<Rightarrow> 'x ww \<Rightarrow> gerror option \<times> 'x ww" where
  "remove_temp operation temp fs w =
     (let (err, w1) = outside (wfs_remove fs temp) (\<lambda>e. WRemove temp (e = None)) w in (cleanupError operation err, w1))"

definition close_file :: "'x workspace_file \<Rightarrow> 'x ww \<Rightarrow> gerror option \<times> 'x ww" where
  "close_file file w = outside (wf_close file) (\<lambda>e. WFileClose (wf_name file) (e = None)) w"

definition cleanupBeforePublication ::
  "'x workspace_file \<Rightarrow> 'x workspace_fs \<Rightarrow> gerror option \<Rightarrow> bool \<Rightarrow> 'x ww \<Rightarrow> gerror option \<times> 'x ww" where
  "cleanupBeforePublication file fs operationErr closeFile w =
     (let (operationErr, w1) =
            (if closeFile
             then let (closeErr, w') = close_file file w
                  in (join_nils [operationErr, cleanupError ''close temporary file'' closeErr], w')
             else (operationErr, w));
          (removeErr, w2) = remove_temp ''remove temporary file'' (wf_name file) fs w1
      in (join_nils [operationErr, removeErr], w2))"

text \<open>The publication of a complete temporary file.\<close>

definition publish ::
  "string \<Rightarrow> string \<Rightarrow> 'x workspace_fs \<Rightarrow> 'x ww \<Rightarrow> (bool \<times> gerror option) \<times> 'x ww" where
  "publish path temp fs w =
     (let (linkErr, w1) = outside (wfs_link fs temp path) (\<lambda>e. WLink temp path (e = None)) w in
      case linkErr of
        Some e \<Rightarrow>
          (let (cleanupErr, w2) = remove_temp ''remove temporary file'' temp fs w1 in
           if errors_is ErrExist e
           then (let ((exists, validationErr), w3) = existingWorkspaceFile path fs w2;
                     validationErr = (if validationErr = None \<and> \<not> exists
                       then Some (Errorf ''publication target disappeared'') else validationErr)
                 in ((False, join_nils [validationErr, cleanupErr]), w3))
           else ((False, join_nils [Some e, cleanupErr]), w2))
      | None \<Rightarrow>
          (let (removeErr, w2) = outside (wfs_remove fs temp) (\<lambda>e. WRemove temp (e = None)) w1
           in (case removeErr of
                 Some e \<Rightarrow> ((True, Some (Wrapf ''remove published temporary file: '' e)), w2)
               | None \<Rightarrow> ((True, None), w2))))"

definition createWorkspaceFile ::
  "string \<Rightarrow> string \<Rightarrow> 'x workspace_fs \<Rightarrow> 'x ww \<Rightarrow> (bool \<times> gerror option) \<times> 'x ww" where
  "createWorkspaceFile path content fs w =
     (let ((exists, err), w1) = existingWorkspaceFile path fs w in
      if err \<noteq> None \<or> exists then ((False, err), w1)
      else
        (let pattern = ''.'' @ Base path @ ''.tmp-*'';
             (created, w2) = outside (wfs_create_temp fs (Dir path) pattern) (\<lambda>r. WCreateTemp (Dir path) pattern (temp_name r)) w1 in
         case created of
           Inl e \<Rightarrow> ((False, Some e), w2)
         | Inr file \<Rightarrow>
             (let (e1, w3) = outside (wf_chmod file file_mode) (\<lambda>e. WFileChmod (wf_name file) file_mode (e = None)) w2 in
              if e1 \<noteq> None then (let (e, w') = cleanupBeforePublication file fs e1 True w3 in ((False, e), w'))
              else
                (let (e2, w4) = writeWorkspaceContent file content w3 in
                 if e2 \<noteq> None then (let (e, w') = cleanupBeforePublication file fs e2 True w4 in ((False, e), w'))
                 else
                   (let (e3, w5) = outside (wf_sync file) (\<lambda>e. WSync (wf_name file) (e = None)) w4 in
                    if e3 \<noteq> None then (let (e, w') = cleanupBeforePublication file fs e3 True w5 in ((False, e), w'))
                    else
                      (let (e4, w6) = close_file file w5 in
                       if e4 \<noteq> None
                       then (let (removeErr, w') = remove_temp ''remove temporary file'' (wf_name file) fs w6
                             in ((False, join_nils [e4, removeErr]), w'))
                       else publish path (wf_name file) fs w6))))))"

section \<open>A workspace\<close>

definition creationResult :: "bool \<Rightarrow> string" where
  "creationResult created = (if created then ''created'' else ''skipped'')"

fun create_directories ::
  "string \<Rightarrow> string list \<Rightarrow> 'x workspace_fs \<Rightarrow> (string \<times> string) list \<Rightarrow> 'x ww \<Rightarrow> ((gerror + (string \<times> string) list) \<times> 'x ww) option" where
  "create_directories workspace [] fs results w = Some (Inr results, w)"
| "create_directories workspace (d # ds) fs results w =
     (case ensureWorkspaceDirectory (Join [workspace, d]) fs w of
        None \<Rightarrow> None
      | Some ((created, err), w1) \<Rightarrow> (case err of
          Some e \<Rightarrow> Some (Inl (Wrapf (''create workspace directory '' @ d @ '': '') e), w1)
        | None \<Rightarrow> create_directories workspace ds fs (put d (creationResult created) results) w1))"

fun create_files ::
  "string \<Rightarrow> string list \<Rightarrow> 'x workspace_fs \<Rightarrow> (string \<times> string) list \<Rightarrow> 'x ww \<Rightarrow> (gerror + (string \<times> string) list) \<times> 'x ww" where
  "create_files workspace [] fs results w = (Inr results, w)"
| "create_files workspace (p # ps) fs results w =
     (let ((created, err), w1) =
            createWorkspaceFile (Join [workspace, p]) (the (map_of workspaceFiles p)) fs w in
      case err of
        Some e \<Rightarrow> (Inl (Wrapf (''create workspace file '' @ p @ '': '') e), w1)
      | None \<Rightarrow> create_files workspace ps fs (put p (creationResult created) results) w1)"

text \<open>The report; the writer \<open>out\<close> is outside.\<close>

fun print_results ::
  "(string \<Rightarrow> 'x \<Rightarrow> gerror option \<times> 'x) \<Rightarrow> (string \<times> string) list \<Rightarrow> string list \<Rightarrow> 'x ww \<Rightarrow> gerror option \<times> 'x ww" where
  "print_results out results [] w = (None, w)"
| "print_results out results (t # ts) w =
     (let line = the (map_of results t) @ '' '' @ t @ [CHR 0x0A];
          (err, w1) = outside (out line) (\<lambda>_. WPrint line) w
      in case err of Some e \<Rightarrow> (Some e, w1) | None \<Rightarrow> print_results out results ts w1)"

definition initializeWorkspace ::
  "string \<Rightarrow> (string \<Rightarrow> 'x \<Rightarrow> gerror option \<times> 'x) \<Rightarrow> 'x workspace_fs \<Rightarrow> 'x ww \<Rightarrow> (gerror option \<times> 'x ww) option" where
  "initializeWorkspace root out fs w =
     (let workspace = Join [root, ''.oryxos''] in
      case ensureWorkspaceDirectory workspace fs w of
        None \<Rightarrow> None
      | Some ((created, err), w1) \<Rightarrow> (case err of
          Some e \<Rightarrow> Some (Some (Wrapf ''create workspace root: '' e), w1)
        | None \<Rightarrow> (case create_directories workspace workspaceDirectories fs [] w1 of
            None \<Rightarrow> None
          | Some (Inl e, w2) \<Rightarrow> Some (Some e, w2)
          | Some (Inr results, w2) \<Rightarrow>
              (let (made, w3) = create_files workspace (sort (map fst workspaceFiles)) fs results w2 in
               case made of
                 Inl e \<Rightarrow> Some (Some e, w3)
               | Inr results \<Rightarrow> Some (print_results out results (sort (map fst results)) w3)))))"

text \<open>\<open>WorkspaceStatus\<close> looks at the real file system, through \<open>os.Lstat\<close>.\<close>

datatype workspace_state = WorkspaceInitialized | WorkspaceNotInitialized

fun workspace_state_text :: "workspace_state \<Rightarrow> string" where
  "workspace_state_text WorkspaceInitialized = ''initialized''"
| "workspace_state_text WorkspaceNotInitialized = ''not_initialized''"

definition isWorkspaceDirectory :: "(string \<Rightarrow> gerror + file_info) \<Rightarrow> string \<Rightarrow> bool" where
  "isWorkspaceDirectory lstat path = (case lstat path of
     Inl e \<Rightarrow> False | Inr i \<Rightarrow> \<not> fi_symlink i \<and> fi_dir i \<and> fi_perm i = directory_mode)"

definition isWorkspaceFile :: "(string \<Rightarrow> gerror + file_info) \<Rightarrow> string \<Rightarrow> bool" where
  "isWorkspaceFile lstat path = (case lstat path of Inl e \<Rightarrow> False | Inr i \<Rightarrow> \<not> fi_symlink i \<and> fi_regular i)"

definition WorkspaceStatus :: "(string \<Rightarrow> gerror + file_info) \<Rightarrow> string \<Rightarrow> workspace_state" where
  "WorkspaceStatus lstat root =
     (let workspace = Join [root, ''.oryxos''] in
      if isWorkspaceDirectory lstat workspace \<and>
         list_all (\<lambda>d. isWorkspaceDirectory lstat (Join [workspace, d])) workspaceDirectories \<and>
         list_all (\<lambda>f. isWorkspaceFile lstat (Join [workspace, fst f])) workspaceFiles
      then WorkspaceInitialized else WorkspaceNotInitialized)"

section \<open>What a creation asks of the file system\<close>

text \<open>
  Permission over a trace: a path is owned from the moment the program itself has created it, as a
  directory or as a temporary file; only owned paths are written, closed, linked, chmoded or removed.
\<close>

fun acquires :: "ws_event \<Rightarrow> string set" where
  "acquires (WMkdir p m ok) = (if ok then {p} else {})"
| "acquires (WCreateTemp d pat t) = set_option t"
| "acquires _ = {}"

fun allowed_on :: "string set \<Rightarrow> ws_event \<Rightarrow> bool" where
  "allowed_on own (WChmod p m ok) = (p \<in> own)"
| "allowed_on own (WFileChmod t m ok) = (t \<in> own)"
| "allowed_on own (WWrite t c n ok) = (t \<in> own)"
| "allowed_on own (WSync t ok) = (t \<in> own)"
| "allowed_on own (WFileClose t ok) = (t \<in> own)"
| "allowed_on own (WLink t p ok) = (t \<in> own)"
| "allowed_on own (WRemove p ok) = (p \<in> own)"
| "allowed_on own _ = True"

fun tidy :: "string set \<Rightarrow> ws_event list \<Rightarrow> bool" where
  "tidy own [] = True"
| "tidy own (e # es) \<longleftrightarrow> allowed_on own e \<and> tidy (own \<union> acquires e) es"

lemma allowed_mono: "allowed_on own e \<Longrightarrow> own \<subseteq> own' \<Longrightarrow> allowed_on own' e"
  by (cases e) auto

lemma tidy_mono: "tidy own es \<Longrightarrow> own \<subseteq> own' \<Longrightarrow> tidy own' es"
proof (induction es arbitrary: own own')
  case (Cons e es)
  have "own \<union> acquires e \<subseteq> own' \<union> acquires e" using Cons.prems(2) by blast
  with Cons show ?case using allowed_mono by auto
qed simp

lemma tidy_append: "tidy own es \<Longrightarrow> tidy own es' \<Longrightarrow> tidy own (es @ es')"
  by (induction es arbitrary: own) (auto intro: tidy_mono)

text \<open>Events on one temporary file, and looks.\<close>

fun on_temp :: "string \<Rightarrow> ws_event \<Rightarrow> bool" where
  "on_temp t (WFileChmod t' m ok) = (t' = t)"
| "on_temp t (WWrite t' c n ok) = (t' = t)"
| "on_temp t (WSync t' ok) = (t' = t)"
| "on_temp t (WFileClose t' ok) = (t' = t)"
| "on_temp t (WRemove t' ok) = (t' = t)"
| "on_temp t (WLstat p) = True"
| "on_temp t _ = False"

lemma tidy_on_temp: "list_all (on_temp t) es \<Longrightarrow> t \<in> own \<Longrightarrow> tidy own es"
proof (induction es arbitrary: own)
  case (Cons e es)
  then show ?case by (cases e) auto
qed simp

fun is_write :: "string \<Rightarrow> ws_event \<Rightarrow> bool" where
  "is_write t (WWrite t' c n ok) = (t' = t)"
| "is_write t _ = False"

lemma write_on_temp: "list_all (is_write t) es \<Longrightarrow> list_all (on_temp t) es"
proof (induction es)
  case (Cons e es)
  then show ?case by (cases e) auto
qed simp

text \<open>What a sequence of writes has put into the file.\<close>

fun written :: "ws_event list \<Rightarrow> string" where
  "written [] = []"
| "written (WWrite t c n ok # es) = take (nat n) c @ written es"
| "written (_ # es) = written es"

lemma write_trace:
  "writeWorkspaceContent f content w = (e, w') \<Longrightarrow>
   \<exists>es. emitted w es w' \<and> list_all (is_write (wf_name f)) es \<and> (e = None \<longrightarrow> written es = content)"
proof (induction f content w arbitrary: e w' rule: writeWorkspaceContent.induct)
  case (1 f content w)
  show ?case
  proof (cases "content = []")
    case True
    then have "w' = w" using 1 by (simp add: writeWorkspaceContent.simps)
    then show ?thesis using True by (intro exI [of _ "[]"]) simp
  next
    case False
    obtain n we w1 where x: "outside (wf_write f content) (\<lambda>(n, e). WWrite (wf_name f) content n (e = None)) w = ((n, we), w1)"
      by (metis prod.exhaust)
    have ev: "emitted w [WWrite (wf_name f) content n (we = None)] w1" using emitted_outside [OF x] by simp
    show ?thesis
    proof (cases "n < 0 \<or> int (length content) < n \<or> we \<noteq> None \<or> n = 0")
      case True
      then have "w' = w1" "e \<noteq> None" using 1(2) False x
        by (auto simp: writeWorkspaceContent.simps [of f content w] split: if_splits option.splits)
      then show ?thesis using ev by (intro exI [of _ "[WWrite (wf_name f) content n (we = None)]"]) auto
    next
      case more: False
      then have "writeWorkspaceContent f (drop (nat n) content) w1 = (e, w')" using 1(2) False x
        by (auto simp: writeWorkspaceContent.simps [of f content w] split: if_splits option.splits)
      from 1(1) [OF False x [symmetric] refl refl _ _ _ this] more obtain es where
        "emitted w1 es w'" "list_all (is_write (wf_name f)) es" "e = None \<longrightarrow> written es = drop (nat n) content" by auto
      then show ?thesis using emitted_trans [OF ev]
        by (intro exI [of _ "WWrite (wf_name f) content n (we = None) # es"]) auto
    qed
  qed
qed

lemma remove_trace: "remove_temp op t fs w = (e, w') \<Longrightarrow> \<exists>ok. emitted w [WRemove t ok] w'"
  by (auto simp: remove_temp_def Let_def split: prod.splits dest!: emitted_outside)

lemma close_trace: "close_file f w = (e, w') \<Longrightarrow> emitted w [WFileClose (wf_name f) (e = None)] w'"
  unfolding close_file_def by (rule emitted_outside)

lemma cleanup_trace:
  assumes "cleanupBeforePublication f fs err True w = (e, w')"
  shows "\<exists>ok ok'. emitted w [WFileClose (wf_name f) ok, WRemove (wf_name f) ok'] w'"
proof -
  obtain ce w1 where c: "close_file f w = (ce, w1)" by fastforce
  obtain re w2 where r: "remove_temp ''remove temporary file'' (wf_name f) fs w1 = (re, w2)" by fastforce
  have "w' = w2" using assms by (simp add: cleanupBeforePublication_def c r)
  moreover obtain ok where "emitted w1 [WRemove (wf_name f) ok] w2" using remove_trace [OF r] by blast
  ultimately show ?thesis using emitted_trans [OF close_trace [OF c]] by auto
qed

lemma existing_trace: "existingWorkspaceFile path fs w = (r, w') \<Longrightarrow> emitted w [WLstat path] w'"
  by (auto simp: existingWorkspaceFile_def Let_def split: prod.splits sum.splits if_splits dest!: emitted_outside)

text \<open>A publication links first, and after that only cleans up.\<close>

lemma publish_trace:
  assumes "publish path t fs w = ((created, err), w')"
  shows "\<exists>rest. emitted w (WLink t path created # rest) w' \<and> list_all (on_temp t) rest"
proof -
  obtain le w1 where l: "outside (wfs_link fs t path) (\<lambda>e. WLink t path (e = None)) w = (le, w1)" by fastforce
  note link = emitted_outside [OF l]
  show ?thesis
  proof (cases le)
    case None
    then have "created" and last: "\<exists>re. outside (wfs_remove fs t) (\<lambda>e. WRemove t (e = None)) w1 = (re, w')"
      using assms l by (auto simp: publish_def split: option.splits prod.splits)
    from last obtain re where "outside (wfs_remove fs t) (\<lambda>e. WRemove t (e = None)) w1 = (re, w')" ..
    from emitted_outside [OF this] have "emitted w1 [WRemove t (re = None)] w'" .
    with link None \<open>created\<close> show ?thesis using emitted_trans
      by (intro exI [of _ "[WRemove t (re = None)]"]) fastforce
  next
    case (Some e)
    obtain ce w2 where r: "remove_temp ''remove temporary file'' t fs w1 = (ce, w2)" by fastforce
    obtain ok where r': "emitted w1 [WRemove t ok] w2" using remove_trace [OF r] by blast
    obtain ex ve w3 where x: "existingWorkspaceFile path fs w2 = ((ex, ve), w3)" by (metis prod.exhaust)
    have "\<not> created" "w' = w2 \<or> w' = w3"
      using assms l r x Some by (auto simp: publish_def Let_def split: if_splits)
    then have "emitted w1 [WRemove t ok] w' \<or> emitted w1 ([WRemove t ok] @ [WLstat path]) w'"
      using r' emitted_trans [OF r' existing_trace [OF x]] by blast
    then obtain rest where "emitted w1 rest w'" "list_all (on_temp t) rest" by fastforce
    with link Some \<open>\<not> created\<close> show ?thesis using emitted_trans [OF link] by (intro exI [of _ rest]) simp
  qed
qed

text \<open>The branches of a creation; with a temporary file, every stage either goes on or cleans up.\<close>

definition temp_pattern :: "string \<Rightarrow> string" where
  "temp_pattern path = ''.'' @ Base path @ ''.tmp-*''"

lemma cleanup_fails: "cleanupBeforePublication f fs (Some e) True w \<noteq> (None, w')"
  by (auto simp: cleanupBeforePublication_def Let_def split: prod.splits)

lemma create_cases [consumes 1, case_names present no_temp temp]:
  assumes "createWorkspaceFile path content fs w = ((created, err), w')"
  obtains ex where "existingWorkspaceFile path fs w = ((ex, err), w')" "err \<noteq> None \<or> ex" "\<not> created"
  | w1 e where "existingWorkspaceFile path fs w = ((False, None), w1)" "err = Some e" "\<not> created"
      "outside (wfs_create_temp fs (Dir path) (temp_pattern path)) (\<lambda>r. WCreateTemp (Dir path) (temp_pattern path) (temp_name r)) w1 = (Inl e, w')"
  | w1 w2 f e1 w3 e2 w4 e3 w5 e4 w6 where "existingWorkspaceFile path fs w = ((False, None), w1)"
      "outside (wfs_create_temp fs (Dir path) (temp_pattern path)) (\<lambda>r. WCreateTemp (Dir path) (temp_pattern path) (temp_name r)) w1 = (Inr f, w2)"
      "outside (wf_chmod f file_mode) (\<lambda>e. WFileChmod (wf_name f) file_mode (e = None)) w2 = (e1, w3)"
      "writeWorkspaceContent f content w3 = (e2, w4)"
      "outside (wf_sync f) (\<lambda>e. WSync (wf_name f) (e = None)) w4 = (e3, w5)"
      "close_file f w5 = (e4, w6)"
      "(\<exists>e0 w0. cleanupBeforePublication f fs (Some e0) True w0 = (err, w') \<and> \<not> created \<and>
          (w0 = w3 \<or> e1 = None \<and> w0 = w4 \<or> e1 = None \<and> w0 = w5)) \<or>
       e1 = None \<and> e2 = None \<and> e3 = None \<and> e4 \<noteq> None \<and> \<not> created \<and> err \<noteq> None \<and>
         (\<exists>re. remove_temp ''remove temporary file'' (wf_name f) fs w6 = (re, w')) \<or>
       e1 = None \<and> e2 = None \<and> e3 = None \<and> e4 = None \<and> publish path (wf_name f) fs w6 = ((created, err), w')"
proof -
  obtain ex e0 w1 where x: "existingWorkspaceFile path fs w = ((ex, e0), w1)" by (metis prod.exhaust)
  show thesis
  proof (cases "e0 \<noteq> None \<or> ex")
    case True
    then show thesis using assms x that(1) by (auto simp: createWorkspaceFile_def)
  next
    case new: False
    obtain r w2 where c: "outside (wfs_create_temp fs (Dir path) (temp_pattern path))
        (\<lambda>r. WCreateTemp (Dir path) (temp_pattern path) (temp_name r)) w1 = (r, w2)" by fastforce
    show thesis
    proof (cases r)
      case (Inl e)
      then show thesis using assms x new c that(2) by (auto simp: createWorkspaceFile_def Let_def temp_pattern_def)
    next
      case (Inr f)
      obtain e1 w3 where m: "outside (wf_chmod f file_mode) (\<lambda>e. WFileChmod (wf_name f) file_mode (e = None)) w2 = (e1, w3)" by fastforce
      obtain e2 w4 where wr: "writeWorkspaceContent f content w3 = (e2, w4)" by fastforce
      obtain e3 w5 where sy: "outside (wf_sync f) (\<lambda>e. WSync (wf_name f) (e = None)) w4 = (e3, w5)" by fastforce
      obtain e4 w6 where cl: "close_file f w5 = (e4, w6)" by fastforce
      note run = assms [unfolded createWorkspaceFile_def Let_def, folded temp_pattern_def, unfolded x, simplified,
          unfolded c Inr, simplified]
      show thesis
      proof (rule that(3) [OF _ c [unfolded Inr] m wr sy cl])
        show "existingWorkspaceFile path fs w = ((False, None), w1)" using x new by simp
        consider "e1 \<noteq> None" | "e1 = None" "e2 \<noteq> None" | "e1 = None" "e2 = None" "e3 \<noteq> None"
          | "e1 = None" "e2 = None" "e3 = None" "e4 \<noteq> None" | "e1 = None" "e2 = None" "e3 = None" "e4 = None" by metis
        then show "(\<exists>e0 w0. cleanupBeforePublication f fs (Some e0) True w0 = (err, w') \<and> \<not> created \<and>
            (w0 = w3 \<or> e1 = None \<and> w0 = w4 \<or> e1 = None \<and> w0 = w5)) \<or>
         e1 = None \<and> e2 = None \<and> e3 = None \<and> e4 \<noteq> None \<and> \<not> created \<and> err \<noteq> None \<and>
           (\<exists>re. remove_temp ''remove temporary file'' (wf_name f) fs w6 = (re, w')) \<or>
         e1 = None \<and> e2 = None \<and> e3 = None \<and> e4 = None \<and> publish path (wf_name f) fs w6 = ((created, err), w')"
        proof cases
          case 1
          then show ?thesis using run new m by (auto split: prod.splits)
        next
          case 2
          then show ?thesis using run new m wr by (auto split: prod.splits)
        next
          case 3
          then show ?thesis using run new m wr sy by (auto split: prod.splits)
        next
          case 4
          then show ?thesis using run new m wr sy cl by (auto split: prod.splits)
        next
          case 5
          then show ?thesis using run new m wr sy cl by simp
        qed
      qed
    qed
  qed
qed

text \<open>The shapes of a creation: nothing done, no temporary file, given up before publication, published.\<close>

definition prologue :: "string \<Rightarrow> string option \<Rightarrow> ws_event list" where
  "prologue path t = [WLstat path, WCreateTemp (Dir path) (temp_pattern path) t]"

lemma create_trace:
  assumes "createWorkspaceFile path content fs w = ((created, err), w')"
  obtains "emitted w [WLstat path] w'" "\<not> created"
  | "emitted w (prologue path None) w'" "\<not> created"
  | t es where "emitted w (prologue path (Some t) @ es) w'" "list_all (on_temp t) es" "\<not> created"
  | t ws rest where "emitted w (prologue path (Some t) @ [WFileChmod t file_mode True] @ ws @
        [WSync t True, WFileClose t True, WLink t path created] @ rest) w'"
      "list_all (is_write t) ws" "written ws = content" "list_all (on_temp t) rest"
  using assms
proof (cases rule: create_cases)
  case (present ex)
  then show thesis using that(1) existing_trace by blast
next
  case (no_temp w1 e)
  from emitted_trans [OF existing_trace [OF no_temp(1)] emitted_outside [OF no_temp(4)]] no_temp(3)
  show thesis by (intro that(2)) (simp_all add: prologue_def)
next
  case (temp w1 w2 f e1 w3 e2 w4 e3 w5 e4 w6)
  let ?t = "wf_name f"
  have start: "emitted w (prologue path (Some ?t)) w2"
    using emitted_trans [OF existing_trace [OF temp(1)] emitted_outside [OF temp(2)]] by (simp add: prologue_def)
  obtain ws where ws: "emitted w3 ws w4" "list_all (is_write ?t) ws" "e2 = None \<longrightarrow> written ws = content"
    using write_trace [OF temp(4)] by blast
  have moded: "emitted w2 [WFileChmod ?t file_mode (e1 = None)] w3" using emitted_outside [OF temp(3)] .
  have synced: "emitted w4 [WSync ?t (e3 = None)] w5" using emitted_outside [OF temp(5)] .
  have closed: "emitted w2 ([WFileChmod ?t file_mode (e1 = None)] @ ws @ [WSync ?t (e3 = None)] @ [WFileClose ?t (e4 = None)]) w6"
    using emitted_trans [OF moded emitted_trans [OF ws(1) emitted_trans [OF synced close_trace [OF temp(6)]]]] by simp
  from temp(7) consider
      (stop) e0 w0 where "cleanupBeforePublication f fs (Some e0) True w0 = (err, w')" "\<not> created"
        "w0 = w3 \<or> e1 = None \<and> w0 = w4 \<or> e1 = None \<and> w0 = w5"
    | (remove) re where "remove_temp ''remove temporary file'' ?t fs w6 = (re, w')" "\<not> created"
    | (publish) "e1 = None" "e2 = None" "e3 = None" "e4 = None" "publish path ?t fs w6 = ((created, err), w')"
    by blast
  then show thesis
  proof cases
    case (stop e0 w0)
    then have "\<exists>es. emitted w2 es w0 \<and> list_all (on_temp ?t) es"
      using moded emitted_trans [OF moded ws(1)] emitted_trans [OF moded emitted_trans [OF ws(1) synced]]
        write_on_temp [OF ws(2)] by fastforce
    then obtain es where es: "emitted w2 es w0" "list_all (on_temp ?t) es" by blast
    obtain ok ok' where "emitted w0 [WFileClose ?t ok, WRemove ?t ok'] w'" using cleanup_trace [OF stop(1)] by blast
    from that(3) [OF emitted_trans [OF start emitted_trans [OF es(1) this]]] es(2) stop(2) show thesis by simp
  next
    case (remove re)
    obtain k where k: "emitted w6 [WRemove ?t k] w'" using remove_trace [OF remove(1)] by blast
    from that(3) [OF emitted_trans [OF start emitted_trans [OF closed k]]] write_on_temp [OF ws(2)] remove(2) show thesis by simp
  next
    case publish
    obtain rest where rest: "emitted w6 (WLink ?t path created # rest) w'" "list_all (on_temp ?t) rest"
      using publish_trace [OF publish(5)] by blast
    show thesis
      using that(4) [OF _ ws(2) _ rest(2)] emitted_trans [OF start emitted_trans [OF closed rest(1)]] publish(1-4) ws(3) by simp
  qed
qed

lemma no_link_on_temp: "list_all (on_temp t) es \<Longrightarrow> WLink u q ok \<notin> set es"
  by (auto simp: list_all_iff)

text \<open>
  C26.  Published files are complete.  In any file system, whatever fails or interferes: a link to the target is
  the only way to create it, it is attempted at most once, and only after the temporary file was given its mode, the
  writes have put exactly the content into it, and it was synced and closed without an error; the call
  says that it created the target exactly when that link succeeded.
\<close>

theorem createWorkspaceFile_publishes_complete:
  assumes run: "createWorkspaceFile path content fs w = ((created, err), w')" and es: "emitted w es w'"
  shows "(created \<longrightarrow> (\<exists>t. WLink t path True \<in> set es)) \<and>
    (\<forall>t q ok. WLink t q ok \<in> set es \<longrightarrow> q = path \<and> ok = created \<and>
       (\<exists>ws rest. es = prologue path (Some t) @ [WFileChmod t file_mode True] @ ws @
            [WSync t True, WFileClose t True, WLink t path created] @ rest \<and>
          list_all (is_write t) ws \<and> written ws = content \<and> list_all (on_temp t) rest))"
  using run
proof (cases rule: create_trace)
  case 1
  then show ?thesis using emitted_unique [OF es] by auto
next
  case 2
  then show ?thesis using emitted_unique [OF es 2(1)] by (auto simp: prologue_def)
next
  case (3 t body)
  then show ?thesis using emitted_unique [OF es 3(1)] no_link_on_temp [OF 3(2)] by (auto simp: prologue_def)
next
  case (4 t ws rest)
  let ?es = "prologue path (Some t) @ [WFileChmod t file_mode True] @ ws @
    [WSync t True, WFileClose t True, WLink t path created] @ rest"
  have eq: "es = ?es" using emitted_unique [OF es 4(1)] by simp
  have "u = t \<and> q = path \<and> ok = created" if "WLink u q ok \<in> set ?es" for u q ok
    using that no_link_on_temp [OF write_on_temp [OF 4(2)]] no_link_on_temp [OF 4(4)] by (auto simp: prologue_def)
  note link = this
  have shape: "\<exists>ws rest. ?es = prologue path (Some u) @ [WFileChmod u file_mode True] @ ws @
      [WSync u True, WFileClose u True, WLink u path created] @ rest \<and>
    list_all (is_write u) ws \<and> written ws = content \<and> list_all (on_temp u) rest" if "u = t" for u
    using that 4(2-4) by blast
  have "created \<longrightarrow> (\<exists>t. WLink t path True \<in> set ?es)" by (intro impI exI [of _ t]) simp
  then show ?thesis unfolding eq using link shape by blast
qed

lemma tidy_create:
  assumes "createWorkspaceFile path content fs w = ((created, err), w')"
  shows "\<exists>es. emitted w es w' \<and> tidy {} es"
  using assms
proof (cases rule: create_trace)
  case 1
  then show ?thesis by (intro exI [of _ "[WLstat path]"]) simp
next
  case 2
  then show ?thesis by (intro exI [of _ "prologue path None"]) (simp add: prologue_def)
next
  case (3 t es)
  then show ?thesis using tidy_on_temp [OF 3(2)] by (intro exI [of _ "prologue path (Some t) @ es"]) (simp add: prologue_def)
next
  case (4 t ws rest)
  have last: "tidy own (WLink t path created # rest)" if "t \<in> own" for own
    using tidy_on_temp [OF 4(4)] that by simp
  have "list_all (on_temp t) ([WFileChmod t file_mode True] @ ws @ [WSync t True, WFileClose t True])"
    using write_on_temp [OF 4(2)] by simp
  from tidy_append [OF tidy_on_temp [OF this, of "{t}"] last [of "{t}"]]
  have "tidy {t} (([WFileChmod t file_mode True] @ ws @ [WSync t True, WFileClose t True]) @ WLink t path created # rest)"
    by simp
  then show ?thesis using 4(1) by (intro exI [of _ "prologue path (Some t) @ [WFileChmod t file_mode True] @ ws @
        [WSync t True, WFileClose t True, WLink t path created] @ rest"]) (simp add: prologue_def)
qed

lemma tidy_trans:
  assumes "\<exists>es. emitted w es w' \<and> tidy {} es" "\<exists>es. emitted w' es w'' \<and> tidy {} es"
  shows "\<exists>es. emitted w es w'' \<and> tidy {} es"
  using assms emitted_trans tidy_append by blast

lemma tidy_harmless: "emitted w [e] w' \<Longrightarrow> (\<And>own. allowed_on own e) \<Longrightarrow> \<exists>es. emitted w es w' \<and> tidy {} es"
  by (intro exI [of _ "[e]"]) simp

lemma tidy_directory:
  assumes "ensureWorkspaceDirectory path fs w = Some (r, w')"
  shows "\<exists>es. emitted w es w' \<and> tidy {} es"
proof -
  have "\<forall>r w'. x = (r, w') \<longrightarrow> (\<exists>es. emitted w es w' \<and> tidy {} es)"
    if "ensureWorkspaceDirectory path fs w = Some x" for x
    using that
  proof (induction rule: ensureWorkspaceDirectory.raw_induct [rotated 1, consumes 1, case_names step])
    case (step ensure path fs w x)
    obtain info w1 where l: "outside (wfs_lstat fs path) (\<lambda>_. WLstat path) w = (info, w1)" by fastforce
    have look: "\<exists>es. emitted w es w1 \<and> tidy {} es" using tidy_harmless [OF emitted_outside [OF l]] by simp
    obtain made w2 where m: "outside (wfs_mkdir fs path directory_mode) (\<lambda>e. WMkdir path directory_mode (e = None)) w1 = (made, w2)"
      by fastforce
    have mk: "emitted w1 [WMkdir path directory_mode (made = None)] w2" using emitted_outside [OF m] .
    then have tried: "\<exists>es. emitted w es w2 \<and> tidy {} es" using tidy_trans [OF look tidy_harmless [OF mk]] by simp
    obtain moded w3 where c: "outside (wfs_chmod fs path directory_mode) (\<lambda>e. WChmod path directory_mode (e = None)) w2 = (moded, w3)"
      by fastforce
    obtain re w4 where r: "outside (wfs_remove fs path) (\<lambda>e. WRemove path (e = None)) w3 = (re, w4)" by fastforce
    note body = step(2) [unfolded l Let_def prod.case, unfolded m c r prod.case]
    show ?case
    proof (cases "\<exists>e. info = Inl e \<and> errors_is ErrNotExist e")
      case False
      then have "snd x = w1" using body by (auto split: sum.splits if_splits)
      then show ?thesis using look by auto
    next
      case missing: True
      show ?thesis
      proof (cases made)
        case (Some e)
        show ?thesis
        proof (cases "errors_is ErrExist e")
          case True
          then have "ensure path fs w2 = Some x" using body missing Some by auto
          then show ?thesis using step(1) tidy_trans [OF tried] by blast
        next
          case False
          then have "snd x = w2" using body missing Some by auto
          then show ?thesis using tried by auto
        qed
      next
        case None
        then have "snd x = w3 \<or> snd x = w4" using body missing by (auto split: option.splits)
        moreover have "emitted w1 [WMkdir path directory_mode True, WChmod path directory_mode (moded = None)] w3"
          using emitted_trans [OF mk emitted_outside [OF c]] None by simp
        moreover from emitted_trans [OF this emitted_outside [OF r]]
        have "emitted w1 [WMkdir path directory_mode True, WChmod path directory_mode (moded = None), WRemove path (re = None)] w4"
          by simp
        ultimately have "\<exists>es. emitted w1 es (snd x) \<and> tidy {} es" by fastforce
        from tidy_trans [OF look this] show ?thesis by auto
      qed
    qed
  qed
  then show ?thesis using assms by blast
qed

lemma tidy_directories:
  "create_directories ws ds fs results w = Some (r, w') \<Longrightarrow> \<exists>es. emitted w es w' \<and> tidy {} es"
proof (induction ds arbitrary: results w)
  case (Cons d ds)
  then obtain b e w1 where x: "ensureWorkspaceDirectory (Join [ws, d]) fs w = Some ((b, e), w1)"
    by (auto split: option.splits)
  show ?case
  proof (cases e)
    case None
    then show ?thesis using Cons x tidy_trans [OF tidy_directory [OF x]] by simp
  next
    case (Some e')
    then show ?thesis using Cons.prems x tidy_directory [OF x] by simp
  qed
qed (auto intro: exI [of _ "[]"])

lemma tidy_files:
  "create_files ws ps fs results w = (r, w') \<Longrightarrow> \<exists>es. emitted w es w' \<and> tidy {} es"
proof (induction ps arbitrary: results w)
  case (Cons p ps)
  obtain b e w1 where x: "createWorkspaceFile (Join [ws, p]) (the (map_of workspaceFiles p)) fs w = ((b, e), w1)"
    by (metis prod.exhaust)
  show ?case
  proof (cases e)
    case None
    then show ?thesis using Cons x tidy_trans [OF tidy_create [OF x]] by simp
  next
    case (Some e')
    then show ?thesis using Cons.prems x tidy_create [OF x] by simp
  qed
qed (auto intro: exI [of _ "[]"])

lemma tidy_print: "print_results out results ts w = (e, w') \<Longrightarrow> \<exists>es. emitted w es w' \<and> tidy {} es"
proof (induction ts arbitrary: w)
  case (Cons t ts)
  let ?line = "the (map_of results t) @ '' '' @ t @ [CHR 0x0A]"
  obtain err w1 where x: "outside (out ?line) (\<lambda>_. WPrint ?line) w = (err, w1)" by fastforce
  have "\<exists>es. emitted w es w1 \<and> tidy {} es" using tidy_harmless [OF emitted_outside [OF x]] by simp
  then show ?case using Cons x tidy_trans by (fastforce simp: Let_def split: option.splits)
qed (auto intro: exI [of _ "[]"])

text \<open>The four ways an initialisation ends.\<close>

lemma initialize_cases [consumes 1, case_names root directories files report]:
  assumes "initializeWorkspace root out fs w = Some (err, w')"
  obtains
    b e where "ensureWorkspaceDirectory (Join [root, ''.oryxos'']) fs w = Some ((b, Some e), w')" "err \<noteq> None"
  | b w1 e where "ensureWorkspaceDirectory (Join [root, ''.oryxos'']) fs w = Some ((b, None), w1)"
      "create_directories (Join [root, ''.oryxos'']) workspaceDirectories fs [] w1 = Some (Inl e, w')" "err \<noteq> None"
  | b w1 made w2 e where "ensureWorkspaceDirectory (Join [root, ''.oryxos'']) fs w = Some ((b, None), w1)"
      "create_directories (Join [root, ''.oryxos'']) workspaceDirectories fs [] w1 = Some (Inr made, w2)"
      "create_files (Join [root, ''.oryxos'']) (sort (map fst workspaceFiles)) fs made w2 = (Inl e, w')" "err \<noteq> None"
  | b w1 made w2 results w3 where "ensureWorkspaceDirectory (Join [root, ''.oryxos'']) fs w = Some ((b, None), w1)"
      "create_directories (Join [root, ''.oryxos'']) workspaceDirectories fs [] w1 = Some (Inr made, w2)"
      "create_files (Join [root, ''.oryxos'']) (sort (map fst workspaceFiles)) fs made w2 = (Inr results, w3)"
      "print_results out results (sort (map fst results)) w3 = (err, w')"
proof -
  let ?ws = "Join [root, ''.oryxos'']"
  obtain b e w1 where r: "ensureWorkspaceDirectory ?ws fs w = Some ((b, e), w1)"
    using assms by (auto simp: initializeWorkspace_def Let_def split: option.splits)
  show thesis
  proof (cases e)
    case (Some e')
    then show thesis using assms r that(1) by (auto simp: initializeWorkspace_def Let_def)
  next
    case None
    then obtain ds w2 where d: "create_directories ?ws workspaceDirectories fs [] w1 = Some (ds, w2)"
      using assms r by (auto simp: initializeWorkspace_def Let_def split: option.splits)
    obtain fl w3 where f: "create_files ?ws (sort (map fst workspaceFiles)) fs (case ds of Inr m \<Rightarrow> m) w2 = (fl, w3)"
      by fastforce
    show thesis
      using assms r None d f that(2-4) by (cases ds; cases fl) (auto simp: initializeWorkspace_def Let_def)
  qed
qed

text \<open>
  C27.  Initialisation touches only what it has created.  In any file system, whatever fails or interferes:
  every path that the initialisation changes the mode of, writes, links from or removes was
  created by itself before, as a directory that did not exist or as a fresh temporary file; targets come
  into being only by exclusive creation, a directory or a link.
\<close>

theorem initializeWorkspace_tidy:
  assumes "initializeWorkspace root out fs w = Some (err, w')" "emitted w es w'"
  shows "tidy {} es"
proof -
  have "\<exists>es. emitted w es w' \<and> tidy {} es"
    using assms(1)
  proof (cases rule: initialize_cases)
    case root
    then show ?thesis using tidy_directory by blast
  next
    case directories
    then show ?thesis using tidy_trans [OF tidy_directory tidy_directories] by blast
  next
    case files
    then show ?thesis using tidy_trans [OF tidy_trans [OF tidy_directory tidy_directories] tidy_files] by blast
  next
    case (report b w1 made w2 results w3)
    show ?thesis
      by (rule tidy_trans [OF tidy_trans [OF tidy_trans [OF tidy_directory [OF report(1)] tidy_directories [OF report(2)]]
          tidy_files [OF report(3)]] tidy_print [OF report(4)]])
  qed
  then show ?thesis using emitted_unique [OF assms(2)] by blast
qed

section \<open>Examples\<close>

text \<open>A file system in which nothing exists, every creation succeeds, and at most two bytes are written at a time.\<close>

definition demo_file :: "nat workspace_file" where
  "demo_file = \<lparr>wf_name = ''t'', wf_chmod = (\<lambda>m x. (None, x)), wf_write = (\<lambda>c x. ((int (min 2 (length c)), None), x)),
     wf_sync = (\<lambda>x. (None, x)), wf_close = (\<lambda>x. (None, x))\<rparr>"

definition demo_fs :: "nat workspace_fs" where
  "demo_fs = \<lparr>wfs_lstat = (\<lambda>p x. (Inl (Sentinel ErrNotExist), x)), wfs_mkdir = (\<lambda>p m x. (None, x)),
     wfs_chmod = (\<lambda>p m x. (None, x)), wfs_create_temp = (\<lambda>d p x. (Inr demo_file, x)),
     wfs_link = (\<lambda>p q x. (None, x)), wfs_remove = (\<lambda>p x. (None, x))\<rparr>"

lemma demo_create:
  "createWorkspaceFile ''a'' ''xyz'' demo_fs \<lparr>w_ext = 0, w_trace = []\<rparr> =
     ((True, None), \<lparr>w_ext = 0, w_trace = prologue ''a'' (Some ''t'') @ [WFileChmod ''t'' file_mode True,
        WWrite ''t'' ''xyz'' 2 True, WWrite ''t'' ''z'' 1 True, WSync ''t'' True, WFileClose ''t'' True,
        WLink ''t'' ''a'' True, WRemove ''t'' True]\<rparr>)"
  by (simp add: createWorkspaceFile_def existingWorkspaceFile_def demo_fs_def demo_file_def outside_def
      writeWorkspaceContent.simps close_file_def publish_def prologue_def temp_pattern_def Let_def)

theorem createWorkspaceFile_publishes_complete_witness:
  "\<exists>ws. written ws = ''xyz'' \<and> list_all (is_write ''t'') ws \<and>
     w_trace (snd (createWorkspaceFile ''a'' ''xyz'' demo_fs \<lparr>w_ext = 0, w_trace = []\<rparr>)) =
       prologue ''a'' (Some ''t'') @ [WFileChmod ''t'' file_mode True] @ ws @
         [WSync ''t'' True, WFileClose ''t'' True, WLink ''t'' ''a'' True, WRemove ''t'' True]"
proof -
  let ?es = "prologue ''a'' (Some ''t'') @ [WFileChmod ''t'' file_mode True,
        WWrite ''t'' ''xyz'' 2 True, WWrite ''t'' ''z'' 1 True, WSync ''t'' True, WFileClose ''t'' True,
        WLink ''t'' ''a'' True, WRemove ''t'' True]"
  have "emitted \<lparr>w_ext = 0, w_trace = []\<rparr> ?es \<lparr>w_ext = 0, w_trace = ?es\<rparr>" by (simp add: emitted_def)
  note complete = createWorkspaceFile_publishes_complete [OF demo_create this]
  have "\<exists>ws rest. ?es = prologue ''a'' (Some ''t'') @ [WFileChmod ''t'' file_mode True] @ ws @
      [WSync ''t'' True, WFileClose ''t'' True, WLink ''t'' ''a'' True] @ rest \<and>
    list_all (is_write ''t'') ws \<and> written ws = ''xyz'' \<and> list_all (on_temp ''t'') rest"
    using complete by fastforce
  then obtain ws rest where ws: "?es = prologue ''a'' (Some ''t'') @ [WFileChmod ''t'' file_mode True] @ ws @
      [WSync ''t'' True, WFileClose ''t'' True, WLink ''t'' ''a'' True] @ rest"
    "list_all (is_write ''t'') ws" "written ws = ''xyz''" by blast
  have "ws = [WWrite ''t'' ''xyz'' 2 True, WWrite ''t'' ''z'' 1 True] \<and> rest = [WRemove ''t'' True]"
    using ws(1,2) by (auto simp: Cons_eq_append_conv)
  then show ?thesis using ws(2,3) by (auto simp: demo_create)
qed

end
