(* ===== verification/Workspace_Fs.thy ===== *)
theory Workspace_Fs
  imports Workspace
begin

text \<open>
  What the initialisation of a workspace promises on a file system that keeps its word: the interface
  between \<open>initializeWorkspace\<close> and \<open>workspaceFS\<close> as a locale, and
  \<open>osWorkspaceFS\<close> over a model of the operating system's files as its instance.
\<close>

section \<open>Views of a file system\<close>

text \<open>A view gives what is at a path: the information on it and its text.\<close>

type_synonym 'x view = "'x \<Rightarrow> string \<Rightarrow> (file_info \<times> string) option"

definition kept :: "'x view \<Rightarrow> 'x \<Rightarrow> 'x \<Rightarrow> bool" where
  "kept look x x' \<longleftrightarrow> (\<forall>p. look x p \<noteq> None \<longrightarrow> look x' p = look x p)"

definition others_same :: "'x view \<Rightarrow> string \<Rightarrow> 'x \<Rightarrow> 'x \<Rightarrow> bool" where
  "others_same look t x x' \<longleftrightarrow> (\<forall>p. p \<noteq> t \<longrightarrow> look x' p = look x p)"

definition holds_file :: "(file_info \<times> string) option \<Rightarrow> string \<Rightarrow> bool" where
  "holds_file node s \<longleftrightarrow> (case node of None \<Rightarrow> False | Some (i, t) \<Rightarrow> fi_regular i \<and> \<not> fi_symlink i \<and> t = s)"

definition is_file :: "(file_info \<times> string) option \<Rightarrow> bool" where
  "is_file node \<longleftrightarrow> (case node of None \<Rightarrow> False | Some (i, t) \<Rightarrow> fi_regular i \<and> \<not> fi_symlink i)"

definition is_directory :: "(file_info \<times> string) option \<Rightarrow> bool" where
  "is_directory node \<longleftrightarrow> (case node of None \<Rightarrow> False
     | Some (i, t) \<Rightarrow> \<not> fi_symlink i \<and> fi_dir i \<and> fi_perm i = directory_mode)"

lemma kept_refl [simp]: "kept look x x"
  by (simp add: kept_def)

lemma kept_same: "look x' = look x \<Longrightarrow> kept look x x'"
  by (simp add: kept_def)

lemma kept_trans: "kept look x x' \<Longrightarrow> kept look x' x'' \<Longrightarrow> kept look x x''"
  by (simp add: kept_def)

lemma others_trans: "others_same look t x x' \<Longrightarrow> others_same look t x' x'' \<Longrightarrow> others_same look t x x''"
  by (simp add: others_same_def)

lemma kept_others: "look x t = None \<Longrightarrow> others_same look t x x' \<Longrightarrow> kept look x x'"
  unfolding kept_def others_same_def by metis

lemma kept_is_directory: "kept look x x' \<Longrightarrow> is_directory (look x p) \<Longrightarrow> is_directory (look x' p)"
  by (auto simp: kept_def is_directory_def split: option.splits)

lemma kept_is_file: "kept look x x' \<Longrightarrow> is_file (look x p) \<Longrightarrow> is_file (look x' p)"
  by (auto simp: kept_def is_file_def split: option.splits)

lemma holds_is_file: "holds_file n s \<Longrightarrow> is_file n"
  by (auto simp: holds_file_def is_file_def split: option.splits)

section \<open>The contract\<close>

locale workspace_port =
  fixes look :: "'x view" and fs :: "'x workspace_fs"
  assumes lstat_law: "wfs_lstat fs p x = (found, x') \<Longrightarrow> look x' = look x \<and>
      (case found of Inl e \<Rightarrow> errors_is ErrNotExist e \<longrightarrow> look x p = None | Inr i \<Rightarrow> \<exists>s. look x p = Some (i, s))"
    and mkdir_law: "wfs_mkdir fs p m x = (r, x') \<Longrightarrow>
      (case r of None \<Rightarrow> look x p = None \<and> (\<exists>i. fi_dir i \<and> \<not> fi_symlink i \<and> look x' = (look x)(p \<mapsto> (i, [])))
       | Some e \<Rightarrow> look x' = look x \<and> (errors_is ErrExist e \<longrightarrow> look x p \<noteq> None))"
    and chmod_law: "wfs_chmod fs p m x = (r, x') \<Longrightarrow> look x p = Some (i, s) \<Longrightarrow> \<not> fi_symlink i \<Longrightarrow>
      look x' = (if r = None then (look x)(p \<mapsto> (i\<lparr>fi_perm := m\<rparr>, s)) else look x)"
    and temp_law: "wfs_create_temp fs d pattern x = (made, x') \<Longrightarrow>
      (case made of Inl e \<Rightarrow> look x' = look x
       | Inr f \<Rightarrow> look x (wf_name f) = None \<and> others_same look (wf_name f) x x' \<and> holds_file (look x' (wf_name f)) [])"
    and file_chmod_law: "wfs_create_temp fs d pattern x0 = (Inr f, x1) \<Longrightarrow> wf_chmod f m x = (e, x') \<Longrightarrow>
      others_same look (wf_name f) x x' \<and> (holds_file (look x (wf_name f)) s \<longrightarrow> holds_file (look x' (wf_name f)) s)"
    and file_write_law: "wfs_create_temp fs d pattern x0 = (Inr f, x1) \<Longrightarrow> wf_write f c x = ((n, e), x') \<Longrightarrow>
      others_same look (wf_name f) x x' \<and>
      (holds_file (look x (wf_name f)) s \<longrightarrow> holds_file (look x' (wf_name f)) (s @ take (nat n) c))"
    and file_sync_law: "wfs_create_temp fs d pattern x0 = (Inr f, x1) \<Longrightarrow> wf_sync f x = (e, x') \<Longrightarrow> look x' = look x"
    and file_close_law: "wfs_create_temp fs d pattern x0 = (Inr f, x1) \<Longrightarrow> wf_close f x = (e, x') \<Longrightarrow> look x' = look x"
    and link_law: "wfs_link fs p q x = (r, x') \<Longrightarrow>
      (if r = None then look x q = None \<and> look x' = (look x)(q := look x p) else look x' = look x)"
    and remove_law: "wfs_remove fs p x = (r, x') \<Longrightarrow> look x' = (if r = None then (look x)(p := None) else look x)"
begin

text \<open>Without interference a directory is ensured in one round.\<close>

lemma ensure_directory:
  "\<exists>b e w'. ensureWorkspaceDirectory path fs w = Some ((b, e), w') \<and> kept look (w_ext w) (w_ext w') \<and>
     (e = None \<longrightarrow> is_directory (look (w_ext w') path))"
proof -
  obtain info w1 where l: "outside (wfs_lstat fs path) (\<lambda>_. WLstat path) w = (info, w1)" by fastforce
  note looked = lstat_law [OF ext_outside [OF l]]
  note body = ensureWorkspaceDirectory.simps [of path fs w, unfolded l Let_def prod.case]
  show ?thesis
  proof (cases info)
    case (Inr i)
    then have "ensureWorkspaceDirectory path fs w = Some ((False, existing_directory i), w1)" using body by simp
    moreover have "kept look (w_ext w) (w_ext w1)" using looked by (simp add: kept_same)
    moreover have "is_directory (look (w_ext w1) path)" if "existing_directory i = None"
      using looked that Inr by (auto simp: is_directory_def existing_directory_def split: if_splits)
    ultimately show ?thesis by auto
  next
    case (Inl err)
    show ?thesis
    proof (cases "errors_is ErrNotExist err")
      case False
      then show ?thesis using body Inl looked by (auto intro: kept_same)
    next
      case True
      then have fresh: "look (w_ext w1) path = None" "look (w_ext w1) = look (w_ext w)" using looked Inl by auto
      obtain made w2 where m: "outside (wfs_mkdir fs path directory_mode) (\<lambda>e. WMkdir path directory_mode (e = None)) w1 = (made, w2)"
        by fastforce
      note made = mkdir_law [OF ext_outside [OF m]]
      show ?thesis
      proof (cases made)
        case (Some e)
        with made fresh have "look (w_ext w2) = look (w_ext w)" "\<not> errors_is ErrExist e" by auto
        then show ?thesis using body Inl True m Some by (auto intro: kept_same)
      next
        case None
        then obtain i where i: "fi_dir i" "\<not> fi_symlink i" "look (w_ext w2) = (look (w_ext w))(path \<mapsto> (i, []))"
          using made fresh by auto
        obtain moded w3 where c: "outside (wfs_chmod fs path directory_mode) (\<lambda>e. WChmod path directory_mode (e = None)) w2 = (moded, w3)"
          by fastforce
        have w3: "look (w_ext w3) = (look (w_ext w))(path \<mapsto> (if moded = None then i\<lparr>fi_perm := directory_mode\<rparr> else i, []))"
          using chmod_law [OF ext_outside [OF c], of i "[]"] i by simp
        show ?thesis
        proof (cases moded)
          case None
          then have "ensureWorkspaceDirectory path fs w = Some ((True, None), w3)"
            using body Inl True m \<open>made = None\<close> c by simp
          moreover have "kept look (w_ext w) (w_ext w3)" using w3 fresh by (simp add: kept_def)
          moreover have "is_directory (look (w_ext w3) path)" using w3 None i by (simp add: is_directory_def)
          ultimately show ?thesis by auto
        next
          case (Some e)
          obtain re w4 where r: "outside (wfs_remove fs path) (\<lambda>e. WRemove path (e = None)) w3 = (re, w4)" by fastforce
          have "kept look (w_ext w) (w_ext w4)"
            using remove_law [OF ext_outside [OF r]] w3 fresh by (auto simp: kept_def)
          then show ?thesis using body Inl True m \<open>made = None\<close> c Some r by auto
        qed
      qed
    qed
  qed
qed

lemma existing_file:
  assumes "existingWorkspaceFile path fs w = ((b, e), w')"
  shows "look (w_ext w') = look (w_ext w)" "e = None \<Longrightarrow> b \<Longrightarrow> is_file (look (w_ext w) path)"
proof -
  obtain info w1 where l: "outside (wfs_lstat fs path) (\<lambda>_. WLstat path) w = (info, w1)" by fastforce
  note looked = lstat_law [OF ext_outside [OF l]]
  show "look (w_ext w') = look (w_ext w)" "e = None \<Longrightarrow> b \<Longrightarrow> is_file (look (w_ext w) path)"
    using assms looked by (auto simp: existingWorkspaceFile_def l is_file_def split: sum.splits if_splits)
qed

lemma remove_temp_law:
  assumes "remove_temp op t fs w = (e, w')" "look x t = None" "others_same look t x (w_ext w)"
  shows "kept look x (w_ext w')"
proof -
  obtain re w1 where r: "outside (wfs_remove fs t) (\<lambda>e. WRemove t (e = None)) w = (re, w1)" by fastforce
  then have "w' = w1" using assms(1) by (simp add: remove_temp_def)
  have "others_same look t (w_ext w) (w_ext w1)"
    unfolding remove_law [OF ext_outside [OF r]] others_same_def by simp
  from kept_others [OF assms(2) others_trans [OF assms(3) this]] show ?thesis
    unfolding \<open>w' = w1\<close> .
qed

text \<open>After the writes of a success the temporary file holds the whole content.\<close>

lemma write_content:
  assumes "wfs_create_temp fs d pattern x0 = (Inr f, x1)"
  shows "writeWorkspaceContent f content w = (e, w') \<Longrightarrow> others_same look (wf_name f) (w_ext w) (w_ext w') \<and>
    (e = None \<longrightarrow> holds_file (look (w_ext w) (wf_name f)) s \<longrightarrow> holds_file (look (w_ext w') (wf_name f)) (s @ content))"
proof (induction "length content" arbitrary: content w s rule: less_induct)
  case less
  show ?case
  proof (cases "content = []")
    case True
    then have "w' = w" using less(2) by (simp add: writeWorkspaceContent.simps)
    then show ?thesis using True by (simp add: others_same_def)
  next
    case False
    obtain n we w1 where x: "outside (wf_write f content) (\<lambda>(n, e). WWrite (wf_name f) content n (e = None)) w = ((n, we), w1)"
      by (metis prod.exhaust)
    have one: "others_same look (wf_name f) (w_ext w) (w_ext w1)"
      "holds_file (look (w_ext w) (wf_name f)) s \<Longrightarrow> holds_file (look (w_ext w1) (wf_name f)) (s @ take (nat n) content)"
      using file_write_law [OF assms ext_outside [OF x]] by auto
    show ?thesis
    proof (cases "n < 0 \<or> int (length content) < n \<or> we \<noteq> None \<or> n = 0")
      case True
      then have "w' = w1" "e \<noteq> None" using less(2) False x
        by (auto simp: writeWorkspaceContent.simps [of f content w] split: if_splits option.splits)
      then show ?thesis using one(1) by auto
    next
      case more: False
      then have rest: "writeWorkspaceContent f (drop (nat n) content) w1 = (e, w')" using less(2) False x
        by (auto simp: writeWorkspaceContent.simps [of f content w] split: if_splits option.splits)
      have "length (drop (nat n) content) < length content" using more False by simp
      from less(1) [OF this rest, of "s @ take (nat n) content"] one more show ?thesis
        using others_trans [OF one(1)] by simp
    qed
  qed
qed

lemma publish_file:
  assumes "publish path t fs w = ((created, err), w')"
    and "look x t = None" "others_same look t x (w_ext w)" "holds_file (look (w_ext w) t) content"
  shows "kept look x (w_ext w') \<and> (err = None \<longrightarrow> is_file (look (w_ext w') path)) \<and>
    (created \<and> err = None \<longrightarrow> look x path = None \<and> holds_file (look (w_ext w') path) content)"
proof -
  obtain le w1 where l: "outside (wfs_link fs t path) (\<lambda>e. WLink t path (e = None)) w = (le, w1)" by fastforce
  note linked = link_law [OF ext_outside [OF l]]
  show ?thesis
  proof (cases le)
    case None
    obtain re w2 where r: "outside (wfs_remove fs t) (\<lambda>e. WRemove t (e = None)) w1 = (re, w2)" by fastforce
    note removed = remove_law [OF ext_outside [OF r]]
    have run: "w' = w2" "err = map_option (Wrapf ''remove published temporary file: '') re"
      using assms(1) l None r by (auto simp: publish_def split: option.splits)
    have free: "look (w_ext w) path = None" "look (w_ext w1) = (look (w_ext w))(path := look (w_ext w) t)"
      using linked None by auto
    then have "path \<noteq> t" using assms(4) by (auto simp: holds_file_def)
    moreover have "look x path = None" using assms(3) free(1) \<open>path \<noteq> t\<close> by (simp add: others_same_def)
    moreover have "look (w_ext w') p = look x p" if "look x p \<noteq> None" for p
    proof -
      have "p \<noteq> t" "p \<noteq> path" using that assms(2) \<open>look x path = None\<close> by auto
      then show ?thesis using assms(3) unfolding run(1) removed free(2) others_same_def by simp
    qed
    then have "kept look x (w_ext w')" by (simp add: kept_def)
    moreover have "holds_file (look (w_ext w') path) content" if "err = None"
      using that assms(4) free \<open>path \<noteq> t\<close> unfolding run(1) removed by (auto simp: run(2))
    ultimately show ?thesis using holds_is_file \<open>kept look x (w_ext w')\<close> by blast
  next
    case (Some e)
    obtain ce w2 where r: "remove_temp ''remove temporary file'' t fs w1 = (ce, w2)" by fastforce
    have "others_same look t x (w_ext w1)" using linked Some assms(3) by (simp add: others_same_def)
    from remove_temp_law [OF r assms(2) this] have kept: "kept look x (w_ext w2)" .
    obtain ex ve w3 where v: "existingWorkspaceFile path fs w2 = ((ex, ve), w3)" by (metis prod.exhaust)
    have w3: "kept look x (w_ext w3)" using kept existing_file(1) [OF v] by (simp add: kept_def)
    show ?thesis
    proof (cases "errors_is ErrExist e")
      case True
      then have run: "\<not> created" "w' = w3" "err = None \<longrightarrow> ve = None \<and> ex"
        using assms(1) l Some r v by (auto simp: publish_def split: if_splits)
      have "is_file (look (w_ext w3) path)" if "err = None"
        using existing_file [OF v] run(3) that by auto
      with run w3 show ?thesis by blast
    next
      case False
      then have "\<not> created" "w' = w2" "err \<noteq> None" using assms(1) l Some r by (auto simp: publish_def)
      with kept show ?thesis by blast
    qed
  qed
qed

lemma cleanup_kept:
  assumes "cleanupBeforePublication f fs err0 True w = (err, w')"
    and "wfs_create_temp fs d pattern x0 = (Inr f, x1)" "look x (wf_name f) = None" "others_same look (wf_name f) x (w_ext w)"
  shows "kept look x (w_ext w')"
proof -
  obtain ce w1 where c: "close_file f w = (ce, w1)" by fastforce
  have "look (w_ext w1) = look (w_ext w)"
    using file_close_law [OF assms(2) ext_outside [OF c [unfolded close_file_def]]] .
  then have "others_same look (wf_name f) x (w_ext w1)" using assms(4) by (simp add: others_same_def)
  moreover obtain re w2 where r: "remove_temp ''remove temporary file'' (wf_name f) fs w1 = (re, w2)" by fastforce
  ultimately have "kept look x (w_ext w2)" using remove_temp_law [OF r assms(3)] by blast
  then show ?thesis using assms(1) c r by (simp add: cleanupBeforePublication_def)
qed

lemma create_file:
  assumes "createWorkspaceFile path content fs w = ((created, err), w')"
  shows "kept look (w_ext w) (w_ext w') \<and> (err = None \<longrightarrow> is_file (look (w_ext w') path)) \<and>
    (created \<and> err = None \<longrightarrow> look (w_ext w) path = None \<and> holds_file (look (w_ext w') path) content)"
  using assms
proof (cases rule: create_cases)
  case (present ex)
  have "kept look (w_ext w) (w_ext w')" using existing_file(1) [OF present(1)] by (simp add: kept_def)
  moreover have "is_file (look (w_ext w') path)" if "err = None"
    unfolding existing_file(1) [OF present(1)] using existing_file(2) [OF present(1) that] present(2) that by blast
  ultimately show ?thesis using present(3) by blast
next
  case (no_temp w1 e)
  have "look (w_ext w') = look (w_ext w)"
    using temp_law [OF ext_outside [OF no_temp(4)]] existing_file(1) [OF no_temp(1)] by simp
  then show ?thesis using no_temp by (simp add: kept_same)
next
  case (temp w1 w2 f e1 w3 e2 w4 e3 w5 e4 w6)
  let ?t = "wf_name f" and ?x = "w_ext w"
  note same = existing_file(1) [OF temp(1)]
  note ct = ext_outside [OF temp(2)]
  have made: "look ?x ?t = None" "others_same look ?t ?x (w_ext w2)" "holds_file (look (w_ext w2) ?t) []"
    using temp_law [OF ct] same by (auto simp: others_same_def)
  have s3: "others_same look ?t ?x (w_ext w3)" "holds_file (look (w_ext w3) ?t) []"
    using file_chmod_law [OF ct ext_outside [OF temp(3)], of "[]"] made(3) others_trans [OF made(2)] by auto
  note wr = write_content [OF ct temp(4), of "[]"]
  have s4: "others_same look ?t ?x (w_ext w4)" using wr others_trans [OF s3(1)] by blast
  have s5: "look (w_ext w5) = look (w_ext w4)" using file_sync_law [OF ct ext_outside [OF temp(5)]] .
  have s6: "look (w_ext w6) = look (w_ext w5)"
    using file_close_law [OF ct ext_outside [OF temp(6) [unfolded close_file_def]]] .
  have o5: "others_same look ?t ?x (w_ext w5)" "others_same look ?t ?x (w_ext w6)"
    using s4 s5 s6 by (simp_all add: others_same_def)
  from temp(7) consider
      (stop) e0 w0 where "cleanupBeforePublication f fs (Some e0) True w0 = (err, w')" "\<not> created"
        "w0 = w3 \<or> e1 = None \<and> w0 = w4 \<or> e1 = None \<and> w0 = w5"
    | (remove) re where "remove_temp ''remove temporary file'' ?t fs w6 = (re, w')" "\<not> created" "err \<noteq> None"
    | (publish) "e2 = None" "publish path ?t fs w6 = ((created, err), w')"
    by blast
  then show ?thesis
  proof cases
    case (stop e0 w0)
    then have "others_same look ?t ?x (w_ext w0)" using s3 s4 o5 by blast
    from cleanup_kept [OF stop(1) ct made(1) this] have "kept look ?x (w_ext w')" .
    moreover have "err \<noteq> None" using stop(1) cleanup_fails by metis
    ultimately show ?thesis by blast
  next
    case (remove re)
    then show ?thesis using remove_temp_law [OF remove(1) made(1) o5(2)] by blast
  next
    case publish
    have "holds_file (look (w_ext w6) ?t) content" using wr publish(1) s3(2) s5 s6 by simp
    from publish_file [OF publish(2) made(1) o5(2) this] show ?thesis .
  qed
qed

lemma directories_ensured:
  "\<exists>r w'. create_directories ws ds fs results w = Some (r, w') \<and> kept look (w_ext w) (w_ext w') \<and>
     (\<forall>made. r = Inr made \<longrightarrow> (\<forall>d \<in> set ds. is_directory (look (w_ext w') (Join [ws, d]))))"
proof (induction ds arbitrary: results w)
  case (Cons d ds)
  obtain b e w1 where x: "ensureWorkspaceDirectory (Join [ws, d]) fs w = Some ((b, e), w1)"
    "kept look (w_ext w) (w_ext w1)" "e = None \<Longrightarrow> is_directory (look (w_ext w1) (Join [ws, d]))"
    using ensure_directory by metis
  show ?case
  proof (cases e)
    case (Some e')
    then show ?thesis using x by simp
  next
    case None
    obtain r w' where rest: "create_directories ws ds fs (put d (creationResult b) results) w1 = Some (r, w')"
      "kept look (w_ext w1) (w_ext w')" "\<forall>made. r = Inr made \<longrightarrow> (\<forall>d \<in> set ds. is_directory (look (w_ext w') (Join [ws, d])))"
      using Cons.IH by blast
    have "is_directory (look (w_ext w') (Join [ws, d]))" using kept_is_directory [OF rest(2)] x(3) None by simp
    then show ?thesis using x(1) None rest kept_trans [OF x(2) rest(2)] by simp
  qed
qed simp

lemma files_created:
  "create_files ws ps fs results w = (r, w') \<Longrightarrow> kept look (w_ext w) (w_ext w') \<and>
     (\<forall>made. r = Inr made \<longrightarrow> (\<forall>p \<in> set ps. is_file (look (w_ext w') (Join [ws, p]))))"
proof (induction ps arbitrary: results w)
  case (Cons p ps)
  obtain b e w1 where x: "createWorkspaceFile (Join [ws, p]) (the (map_of workspaceFiles p)) fs w = ((b, e), w1)"
    by (metis prod.exhaust)
  note made = create_file [OF x]
  show ?case
  proof (cases e)
    case (Some e')
    then show ?thesis using Cons.prems x made by auto
  next
    case None
    then have run: "create_files ws ps fs (put p (creationResult b) results) w1 = (r, w')" using Cons.prems x by simp
    note rest = Cons.IH [OF run]
    have later: "kept look (w_ext w1) (w_ext w')" using rest by simp
    have "is_file (look (w_ext w') (Join [ws, p]))" using kept_is_file [OF later] made None by simp
    moreover have "kept look (w_ext w) (w_ext w')" using kept_trans [OF _ later] made by simp
    ultimately show ?thesis using rest by simp
  qed
qed simp

lemma print_keeps:
  assumes "\<And>l x. look (snd (out l x)) = look x"
  shows "print_results out results ts w = (e, w') \<Longrightarrow> look (w_ext w') = look (w_ext w)"
proof (induction ts arbitrary: w)
  case (Cons t ts)
  let ?line = "the (map_of results t) @ '' '' @ t @ [CHR 0x0A]"
  obtain err w1 where x: "outside (out ?line) (\<lambda>_. WPrint ?line) w = (err, w1)" by fastforce
  have "look (w_ext w1) = look (w_ext w)" using assms [of ?line "w_ext w"] ext_outside [OF x] by simp
  then show ?case using Cons x by (cases err) (auto simp: Let_def)
qed simp

lemma initialized:
  assumes "\<And>l x. look (snd (out l x)) = look x"
  shows "\<exists>err w'. initializeWorkspace root out fs w = Some (err, w') \<and> kept look (w_ext w) (w_ext w') \<and>
    (err = None \<longrightarrow> is_directory (look (w_ext w') (Join [root, ''.oryxos''])) \<and>
       (\<forall>d \<in> set workspaceDirectories. is_directory (look (w_ext w') (Join [Join [root, ''.oryxos''], d]))) \<and>
       (\<forall>p \<in> fst ` set workspaceFiles. is_file (look (w_ext w') (Join [Join [root, ''.oryxos''], p]))))"
proof -
  let ?ws = "Join [root, ''.oryxos'']"
  obtain b e w1 where r: "ensureWorkspaceDirectory ?ws fs w = Some ((b, e), w1)" "kept look (w_ext w) (w_ext w1)"
    "e = None \<Longrightarrow> is_directory (look (w_ext w1) ?ws)" using ensure_directory by metis
  show ?thesis
  proof (cases e)
    case (Some e')
    then show ?thesis using r by (simp add: initializeWorkspace_def Let_def)
  next
    case root: None
    obtain ds w2 where d: "create_directories ?ws workspaceDirectories fs [] w1 = Some (ds, w2)" "kept look (w_ext w1) (w_ext w2)"
      "\<forall>made. ds = Inr made \<longrightarrow> (\<forall>d \<in> set workspaceDirectories. is_directory (look (w_ext w2) (Join [?ws, d])))"
      using directories_ensured by metis
    note kept2 = kept_trans [OF r(2) d(2)]
    show ?thesis
    proof (cases ds)
      case (Inl e')
      then show ?thesis using r(1) root d(1) kept2 by (simp add: initializeWorkspace_def Let_def)
    next
      case dirs: (Inr results)
      obtain made w3 where f: "create_files ?ws (sort (map fst workspaceFiles)) fs results w2 = (made, w3)" by fastforce
      note files = files_created [OF f]
      then have later: "kept look (w_ext w2) (w_ext w3)" by simp
      have kept3: "kept look (w_ext w) (w_ext w3)" using kept_trans [OF kept2 later] .
      show ?thesis
      proof (cases made)
        case (Inl e')
        then show ?thesis using r(1) root d(1) dirs f kept3 by (simp add: initializeWorkspace_def Let_def)
      next
        case (Inr final)
        obtain err w4 where p: "print_results out final (sort (map fst final)) w3 = (err, w4)" by fastforce
        have same: "look (w_ext w4) = look (w_ext w3)" using print_keeps [OF assms p] .
        have "initializeWorkspace root out fs w = Some (err, w4)"
          using r(1) root d(1) dirs f Inr p by (simp add: initializeWorkspace_def Let_def)
        moreover have "is_directory (look (w_ext w4) ?ws)"
          unfolding same using kept_is_directory [OF kept_trans [OF d(2) later]] r(3) [OF root] .
        moreover have "\<forall>d \<in> set workspaceDirectories. is_directory (look (w_ext w4) (Join [?ws, d]))"
          unfolding same using kept_is_directory [OF later] d(3) dirs by simp
        moreover have "\<forall>p \<in> fst ` set workspaceFiles. is_file (look (w_ext w4) (Join [?ws, p]))"
          unfolding same using files Inr by simp
        moreover have "kept look (w_ext w) (w_ext w4)" using kept3 same by (simp add: kept_def)
        ultimately show ?thesis by blast
      qed
    qed
  qed
qed

end

section \<open>The files of the operating system\<close>

text \<open>
  A Unix file system seen through its paths, with the mask for new files, the source of random names, and
  the faults: at any call the system may report an error of its own instead of acting.
\<close>

record posix =
  px_nodes :: "(string \<times> (file_info \<times> string)) list"
  px_umask :: "nat \<Rightarrow> nat"
  px_random :: "nat \<Rightarrow> string"
  px_fault :: "nat \<Rightarrow> string option"
  px_calls :: nat

definition px_look :: "posix view" where
  "px_look x p = map_of (px_nodes x) p"

definition system_call :: "(gerror \<Rightarrow> 'r) \<Rightarrow> (posix \<Rightarrow> 'r \<times> posix) \<Rightarrow> posix \<Rightarrow> 'r \<times> posix" where
  "system_call failed act x =
     (let x1 = x\<lparr>px_calls := Suc (px_calls x)\<rparr> in
      case px_fault x (px_calls x) of
        Some message \<Rightarrow> (failed (Foreign message None None []), x1)
      | None \<Rightarrow> act x1)"

definition parent_exists :: "posix \<Rightarrow> string \<Rightarrow> bool" where
  "parent_exists x p \<longleftrightarrow> (case px_look x (Dir p) of None \<Rightarrow> False | Some (i, s) \<Rightarrow> fi_dir i)"

definition os_not_exist :: "string \<Rightarrow> gerror" where
  "os_not_exist p = Foreign (p @ '': no such file or directory'') None None [Sentinel ErrNotExist]"

definition os_exist :: "string \<Rightarrow> gerror" where
  "os_exist p = Foreign (p @ '': file exists'') None None [Sentinel ErrExist]"

definition os_Lstat :: "string \<Rightarrow> posix \<Rightarrow> (gerror + file_info) \<times> posix" where
  "os_Lstat p = system_call Inl (\<lambda>x. (case px_look x p of None \<Rightarrow> Inl (os_not_exist p) | Some (i, s) \<Rightarrow> Inr i, x))"

definition os_Mkdir :: "string \<Rightarrow> nat \<Rightarrow> posix \<Rightarrow> gerror option \<times> posix" where
  "os_Mkdir p m = system_call Some (\<lambda>x.
     if px_look x p \<noteq> None then (Some (os_exist p), x)
     else if \<not> parent_exists x p then (Some (os_not_exist p), x)
     else (None, x\<lparr>px_nodes := put p
       (\<lparr>fi_symlink = False, fi_dir = True, fi_regular = False, fi_perm = px_umask x m\<rparr>, []) (px_nodes x)\<rparr>))"

text \<open>A link is followed, and what it leads to is outside this model.\<close>

definition os_Chmod :: "string \<Rightarrow> nat \<Rightarrow> posix \<Rightarrow> gerror option \<times> posix" where
  "os_Chmod p m = system_call Some (\<lambda>x. case px_look x p of
     None \<Rightarrow> (Some (os_not_exist p), x)
   | Some (i, s) \<Rightarrow> if fi_symlink i then (None, x) else (None, x\<lparr>px_nodes := put p (i\<lparr>fi_perm := m\<rparr>, s) (px_nodes x)\<rparr>))"

definition os_file :: "string \<Rightarrow> posix workspace_file" where
  "os_file name = \<lparr>wf_name = name, wf_chmod = os_Chmod name,
     wf_write = (\<lambda>c. system_call (\<lambda>e. (0, Some e)) (\<lambda>x. case px_look x name of
        None \<Rightarrow> ((int (length c), None), x)
      | Some (i, s) \<Rightarrow> ((int (length c), None), x\<lparr>px_nodes := put name (i, s @ c) (px_nodes x)\<rparr>))),
     wf_sync = system_call Some (\<lambda>x. (None, x)), wf_close = system_call Some (\<lambda>x. (None, x))\<rparr>"

text \<open>\<open>os.CreateTemp\<close> puts a random string for the last star and tries 10000 times.\<close>

definition temp_path :: "string \<Rightarrow> string \<Rightarrow> string \<Rightarrow> string" where
  "temp_path d pattern r = d @ ''/'' @ takeWhile (\<lambda>c. c \<noteq> CHR ''*'') pattern @ r @ tl (dropWhile (\<lambda>c. c \<noteq> CHR ''*'') pattern)"

definition os_CreateTemp :: "string \<Rightarrow> string \<Rightarrow> posix \<Rightarrow> (gerror + posix workspace_file) \<times> posix" where
  "os_CreateTemp d pattern = system_call Inl (\<lambda>x.
     case find (\<lambda>p. px_look x p = None) (map (\<lambda>k. temp_path d pattern (px_random x (px_calls x + k))) [0..<10000]) of
       None \<Rightarrow> (Inl (os_exist d), x)
     | Some name \<Rightarrow>
         if \<not> parent_exists x name then (Inl (os_not_exist d), x)
         else (Inr (os_file name), x\<lparr>px_nodes := put name
           (\<lparr>fi_symlink = False, fi_dir = False, fi_regular = True, fi_perm = px_umask x file_mode\<rparr>, []) (px_nodes x)\<rparr>))"

definition os_Link :: "string \<Rightarrow> string \<Rightarrow> posix \<Rightarrow> gerror option \<times> posix" where
  "os_Link p q = system_call Some (\<lambda>x. case px_look x p of
     None \<Rightarrow> (Some (os_not_exist p), x)
   | Some node \<Rightarrow>
       if px_look x q \<noteq> None then (Some (os_exist q), x)
       else if \<not> parent_exists x q then (Some (os_not_exist q), x)
       else (None, x\<lparr>px_nodes := put q node (px_nodes x)\<rparr>))"

text \<open>A directory with entries is not removed.\<close>

definition os_Remove :: "string \<Rightarrow> posix \<Rightarrow> gerror option \<times> posix" where
  "os_Remove p = system_call Some (\<lambda>x. case px_look x p of
     None \<Rightarrow> (Some (os_not_exist p), x)
   | Some (i, s) \<Rightarrow>
       if fi_dir i \<and> list_ex (\<lambda>n. fst n \<noteq> p \<and> Dir (fst n) = p) (px_nodes x)
       then (Some (Foreign (p @ '': directory not empty'') None None []), x)
       else (None, x\<lparr>px_nodes := filter (\<lambda>n. fst n \<noteq> p) (px_nodes x)\<rparr>))"

definition osWorkspaceFS :: "posix workspace_fs" where
  "osWorkspaceFS = \<lparr>wfs_lstat = os_Lstat, wfs_mkdir = os_Mkdir, wfs_chmod = os_Chmod,
     wfs_create_temp = os_CreateTemp, wfs_link = os_Link, wfs_remove = os_Remove\<rparr>"

definition InitializeWorkspace ::
  "string \<Rightarrow> (string \<Rightarrow> posix \<Rightarrow> gerror option \<times> posix) \<Rightarrow> posix ww \<Rightarrow> (gerror option \<times> posix ww) option" where
  "InitializeWorkspace root out = initializeWorkspace root out osWorkspaceFS"

lemma px_look_put [simp]: "px_look (x\<lparr>px_nodes := put p n (px_nodes y)\<rparr>) = (px_look y)(p \<mapsto> n)"
  by (auto simp: px_look_def)

lemma px_look_filter [simp]: "px_look (x\<lparr>px_nodes := filter (\<lambda>n. fst n \<noteq> p) (px_nodes y)\<rparr>) = (px_look y)(p := None)"
proof
  fix q
  have "map_of (filter (\<lambda>n. fst n \<noteq> p) m) q = (if q = p then None else map_of m q)" for m :: "(string \<times> (file_info \<times> string)) list"
    by (induction m) auto
  then show "px_look (x\<lparr>px_nodes := filter (\<lambda>n. fst n \<noteq> p) (px_nodes y)\<rparr>) q = ((px_look y)(p := None)) q"
    by (simp add: px_look_def)
qed

text \<open>A call fails and changes nothing but the count, or acts.\<close>

lemma system_call_cases [consumes 1, case_names faulted acted]:
  assumes "system_call failed act x = (r, x')"
  obtains m where "r = failed (Foreign m None None [])" "px_look x' = px_look x"
  | y where "act y = (r, x')" "px_look y = px_look x"
proof -
  have count: "px_look (x\<lparr>px_calls := n\<rparr>) = px_look x" for n by (auto simp: px_look_def)
  show thesis
    using assms that count by (auto simp: system_call_def Let_def split: option.splits)
qed

lemma os_created: "os_CreateTemp d pattern x = (Inr f, x') \<Longrightarrow> \<exists>name. f = os_file name"
  unfolding os_CreateTemp_def by (erule system_call_cases) (auto split: option.splits if_splits)

lemma holds_file_update [simp]:
  "holds_file (Some (i, s)) t \<longleftrightarrow> fi_regular i \<and> \<not> fi_symlink i \<and> s = t"
  by (simp add: holds_file_def)

lemma no_pair [simp]: "(\<forall>a b. n \<noteq> Some (a, b)) \<longleftrightarrow> n = None"
  by (cases n) auto

lemma made_directory:
  "\<exists>i. fi_dir i \<and> \<not> fi_symlink i \<and>
     f(p \<mapsto> (\<lparr>fi_symlink = False, fi_dir = True, fi_regular = False, fi_perm = k\<rparr>, [])) = f(p \<mapsto> (i, []))"
  by (rule exI [of _ "\<lparr>fi_symlink = False, fi_dir = True, fi_regular = False, fi_perm = k\<rparr>"]) simp

interpretation os_files: workspace_port px_look osWorkspaceFS
proof
  fix p q d pattern s :: string and x x' :: posix and m :: nat and r e :: "gerror option" and found and made and i :: file_info
  show "px_look x' = px_look x \<and> (case found of Inl e \<Rightarrow> errors_is ErrNotExist e \<longrightarrow> px_look x p = None
        | Inr i \<Rightarrow> \<exists>s. px_look x p = Some (i, s))"
    if "wfs_lstat osWorkspaceFS p x = (found, x')"
    using that by (auto simp: osWorkspaceFS_def os_Lstat_def elim!: system_call_cases split: option.splits)
  show "case r of None \<Rightarrow> px_look x p = None \<and> (\<exists>i. fi_dir i \<and> \<not> fi_symlink i \<and> px_look x' = (px_look x)(p \<mapsto> (i, [])))
      | Some e \<Rightarrow> px_look x' = px_look x \<and> (errors_is ErrExist e \<longrightarrow> px_look x p \<noteq> None)"
    if "wfs_mkdir osWorkspaceFS p m x = (r, x')"
    using that by (auto simp: osWorkspaceFS_def os_Mkdir_def os_exist_def os_not_exist_def intro!: made_directory
        elim!: system_call_cases split: if_splits)
  show "px_look x' = (if r = None then (px_look x)(p \<mapsto> (i\<lparr>fi_perm := m\<rparr>, s)) else px_look x)"
    if "wfs_chmod osWorkspaceFS p m x = (r, x')" "px_look x p = Some (i, s)" "\<not> fi_symlink i"
    using that by (auto simp: osWorkspaceFS_def os_Chmod_def elim!: system_call_cases split: option.splits if_splits)
  show "case made of Inl e \<Rightarrow> px_look x' = px_look x
      | Inr f \<Rightarrow> px_look x (wf_name f) = None \<and> others_same px_look (wf_name f) x x' \<and> holds_file (px_look x' (wf_name f)) []"
    if "wfs_create_temp osWorkspaceFS d pattern x = (made, x')"
    using that by (auto simp: osWorkspaceFS_def os_CreateTemp_def os_file_def others_same_def find_Some_iff
        elim!: system_call_cases split: option.splits if_splits)
  show "if r = None then px_look x q = None \<and> px_look x' = (px_look x)(q := px_look x p) else px_look x' = px_look x"
    if "wfs_link osWorkspaceFS p q x = (r, x')"
    using that by (auto simp: osWorkspaceFS_def os_Link_def elim!: system_call_cases split: option.splits if_splits)
  show "px_look x' = (if r = None then (px_look x)(p := None) else px_look x)"
    if "wfs_remove osWorkspaceFS p x = (r, x')"
    using that by (auto simp: osWorkspaceFS_def os_Remove_def elim!: system_call_cases split: option.splits if_splits)
  fix f and x0 x1 :: posix
  assume "wfs_create_temp osWorkspaceFS d pattern x0 = (Inr f, x1)"
  then have "os_CreateTemp d pattern x0 = (Inr f, x1)" by (simp add: osWorkspaceFS_def)
  then obtain name where f: "f = os_file name" using os_created by blast
  show "others_same px_look (wf_name f) x x' \<and> (holds_file (px_look x (wf_name f)) s \<longrightarrow> holds_file (px_look x' (wf_name f)) s)"
    if "wf_chmod f m x = (e, x')"
    using that by (auto simp: f os_file_def os_Chmod_def others_same_def elim!: system_call_cases split: option.splits if_splits)
  show "others_same px_look (wf_name f) x x' \<and>
      (holds_file (px_look x (wf_name f)) s \<longrightarrow> holds_file (px_look x' (wf_name f)) (s @ take (nat n) c))"
    if "wf_write f c x = ((n, e), x')" for c n
    using that by (auto simp: f os_file_def others_same_def holds_file_def elim!: system_call_cases split: option.splits)
  show "px_look x' = px_look x" if "wf_sync f x = (e, x')"
    using that by (auto simp: f os_file_def elim!: system_call_cases)
  show "px_look x' = px_look x" if "wf_close f x = (e, x')"
    using that by (auto simp: f os_file_def elim!: system_call_cases)
qed

section \<open>The workspace after an initialisation\<close>

text \<open>\<open>os.Lstat\<close> as \<open>WorkspaceStatus\<close> calls it, when it does not fail.\<close>

definition lstat_now :: "posix \<Rightarrow> string \<Rightarrow> gerror + file_info" where
  "lstat_now x p = (case px_look x p of None \<Rightarrow> Inl (os_not_exist p) | Some (i, s) \<Rightarrow> Inr i)"

lemma lstat_now_directory: "isWorkspaceDirectory (lstat_now x) p = is_directory (px_look x p)"
  by (auto simp: isWorkspaceDirectory_def lstat_now_def is_directory_def split: option.splits)

lemma lstat_now_file: "isWorkspaceFile (lstat_now x) p = is_file (px_look x p)"
  by (auto simp: isWorkspaceFile_def lstat_now_def is_file_def split: option.splits)

lemma initialization_completes:
  assumes out: "\<And>l x. px_look (snd (out l x)) = px_look x"
  shows "\<exists>err w'. InitializeWorkspace root out w = Some (err, w') \<and>
    (\<forall>p n. px_look (w_ext w) p = Some n \<longrightarrow> px_look (w_ext w') p = Some n) \<and>
    (err = None \<longrightarrow> WorkspaceStatus (lstat_now (w_ext w')) root = WorkspaceInitialized)"
proof -
  obtain err w' where "initializeWorkspace root out osWorkspaceFS w = Some (err, w')" "kept px_look (w_ext w) (w_ext w')"
    "err = None \<longrightarrow> is_directory (px_look (w_ext w') (Join [root, ''.oryxos''])) \<and>
       (\<forall>d \<in> set workspaceDirectories. is_directory (px_look (w_ext w') (Join [Join [root, ''.oryxos''], d]))) \<and>
       (\<forall>p \<in> fst ` set workspaceFiles. is_file (px_look (w_ext w') (Join [Join [root, ''.oryxos''], p])))"
    using os_files.initialized [of out, OF out] by blast
  then show ?thesis
    by (auto simp: InitializeWorkspace_def kept_def WorkspaceStatus_def lstat_now_directory lstat_now_file list_all_iff)
qed

text \<open>
  C25.  An initialisation completes the workspace and keeps what was there.  On the files of an operating system
  where calls may fail but nobody else interferes, the initialisation returns; whatever it returns, every
  path that existed has the same information and text as before; and when it reports no error the workspace's
  status is initialized.
\<close>

theorem InitializeWorkspace_completes:
  assumes out: "\<And>l x. px_look (snd (out l x)) = px_look x"
  shows "\<exists>err w'. InitializeWorkspace root out w = Some (err, w') \<and>
    (\<forall>p n. px_look (w_ext w) p = Some n \<longrightarrow> px_look (w_ext w') p = Some n) \<and>
    (err = None \<longrightarrow> WorkspaceStatus (lstat_now (w_ext w')) root = WorkspaceInitialized)"
  by (rule initialization_completes [OF out])

section \<open>Examples\<close>

definition demo_posix :: posix where
  "demo_posix = \<lparr>px_nodes = [(''.'', \<lparr>fi_symlink = False, fi_dir = True, fi_regular = False, fi_perm = directory_mode\<rparr>, [])],
     px_umask = id, px_random = itoa_nat, px_fault = (\<lambda>n. None), px_calls = 0\<rparr>"

definition demo_out :: "string \<Rightarrow> posix \<Rightarrow> gerror option \<times> posix" where
  "demo_out l x = (None, x)"

theorem InitializeWorkspace_completes_witness:
  "\<exists>err w'. InitializeWorkspace ''.'' demo_out \<lparr>w_ext = demo_posix, w_trace = []\<rparr> = Some (err, w') \<and>
     px_look (w_ext w') ''.'' = px_look demo_posix ''.'' \<and>
     (err = None \<longrightarrow> WorkspaceStatus (lstat_now (w_ext w')) ''.'' = WorkspaceInitialized)"
proof -
  have "px_look (snd (demo_out l x)) = px_look x" for l x by (simp add: demo_out_def)
  moreover have "px_look demo_posix ''.'' = Some (\<lparr>fi_symlink = False, fi_dir = True, fi_regular = False, fi_perm = directory_mode\<rparr>, [])"
    by (simp add: demo_posix_def px_look_def)
  ultimately show ?thesis
    using InitializeWorkspace_completes [of demo_out "''.''" "\<lparr>w_ext = demo_posix, w_trace = []\<rparr>"] by auto
qed

theorem initializeWorkspace_tidy_witness:
  "\<exists>err w'. initializeWorkspace ''.'' demo_out osWorkspaceFS \<lparr>w_ext = demo_posix, w_trace = []\<rparr> = Some (err, w') \<and>
     tidy {} (w_trace w')"
proof -
  have out: "px_look (snd (demo_out l x)) = px_look x" for l x by (simp add: demo_out_def)
  obtain err w' where run: "initializeWorkspace ''.'' demo_out osWorkspaceFS \<lparr>w_ext = demo_posix, w_trace = []\<rparr> = Some (err, w')"
    using os_files.initialized [of demo_out, OF out] by blast
  have "emitted \<lparr>w_ext = demo_posix, w_trace = []\<rparr> (w_trace w') w'" by (simp add: emitted_def)
  from initializeWorkspace_tidy [OF run this] run show ?thesis by blast
qed

end
