(* ===== verification/Command_Line.thy ===== *)
theory Command_Line
  imports Foundation Workspace_Fs
begin

text \<open>
  cmd/oryxos (commands.go, root.go, main.go): the tree of commands and what each of them runs.  The library that
  parses the arguments and picks a command of the tree is a parameter, and so are the environment of
  the served application and the writers.
\<close>

section \<open>Commands\<close>

text \<open>The files that the workspace commands work on, and the world of the application.\<close>

record 'x cli =
  cl_files :: "posix ww"
  cl_app :: "'x app_world"

text \<open>A command returns an error or none, or is still serving.\<close>

type_synonym 'x run_e = "'x cli \<Rightarrow> (gerror option \<times> 'x cli) option"

datatype positional_args = NoArgs | ExactArgs nat

datatype 'x command = Command (cm_use: string) (cm_args: "positional_args option") (cm_run: "'x run_e option")
  (cm_flags: "(string \<times> string) list") (cm_children: "'x command list")

type_synonym writer = "string \<Rightarrow> posix \<Rightarrow> gerror option \<times> posix"

record ('w, 'f, 's) command_dependencies =
  cd_workspace_root :: string
  cd_foundation_options :: "('w, 'f, 's) foundation_options"
  cd_output :: "writer option"

definition workspaceRoot :: "('w, 'f, 's) command_dependencies \<Rightarrow> string" where
  "workspaceRoot dependencies =
     (if cd_workspace_root dependencies = [] then ''.'' else Clean (cd_workspace_root dependencies))"

definition newInitCommand :: "writer \<Rightarrow> ('w, 'f, 's) command_dependencies \<Rightarrow> 'x command" where
  "newInitCommand out dependencies = Command ''init'' (Some NoArgs)
     (Some (\<lambda>w. case InitializeWorkspace (workspaceRoot dependencies) out (cl_files w) of
        None \<Rightarrow> None
      | Some (err, files) \<Rightarrow> Some (err, w\<lparr>cl_files := files\<rparr>))) [] []"

definition status_text :: "workspace_state \<Rightarrow> string" where
  "status_text state = ''mode: foundation'' @ [CHR 0x0A] @ ''workspace: '' @ workspace_state_text state @ [CHR 0x0A]"

definition newStatusCommand ::
  "(posix \<Rightarrow> string \<Rightarrow> gerror + file_info) \<Rightarrow> writer \<Rightarrow> ('w, 'f, 's) command_dependencies \<Rightarrow> 'x command" where
  "newStatusCommand lstat out dependencies = Command ''status'' (Some NoArgs)
     (Some (\<lambda>w. let state = WorkspaceStatus (lstat (w_ext (cl_files w))) (workspaceRoot dependencies);
                   (err, files) = outside (out (status_text state)) (\<lambda>_. WPrint (status_text state)) (cl_files w)
               in Some (err, w\<lparr>cl_files := files\<rparr>))) [] []"

text \<open>
  What a run of the application meets: its signals and deadlines, for the signal factory given, and what its
  waiting loop is told.
\<close>

type_synonym ('s, 'x) surroundings = "'s option \<Rightarrow> 'x lifecycle_env \<times> selection list"

definition newServeCommand ::
  "('w, 'f, 'h, 'x) process \<Rightarrow> ('s, 'x) surroundings \<Rightarrow> ('w, 'f, 's) command_dependencies \<Rightarrow> 'x command" where
  "newServeCommand P surroundings dependencies = Command ''serve'' (Some NoArgs)
     (Some (\<lambda>w. let options = (cd_foundation_options dependencies)\<lparr>fo_server_yaml := []\<rparr> in
        case NewFoundation P options of
          Inl e \<Rightarrow> Some (Some e, w)
        | Inr (server, logger, application) \<Rightarrow>
            (let (L, selections) = surroundings (fo_signal_context options) in
             case Run_app L selections application (cl_app w) of
               None \<Rightarrow> None
             | Some (err, a, x) \<Rightarrow> Some (err, w\<lparr>cl_app := x\<rparr>)))) [] []"

definition newDeferredCommand :: "string \<Rightarrow> positional_args option \<Rightarrow> 'x command" where
  "newDeferredCommand use arguments = Command use arguments (Some (\<lambda>w. Some (Some (Sentinel ErrNotImplemented), w))) [] []"

definition newChatCommand :: "'x command" where
  "newChatCommand = (case newDeferredCommand ''chat [--profile <name>]'' (Some NoArgs) of
     Command use args run flags children \<Rightarrow> Command use args run (flags @ [(''profile'', [])]) children)"

definition newProfileCommand :: "'x command" where
  "newProfileCommand = Command ''profile'' None None []
     [newDeferredCommand ''list'' (Some NoArgs), newDeferredCommand ''create <name>'' (Some (ExactArgs 1)),
      newDeferredCommand ''show <name>'' (Some (ExactArgs 1)), newDeferredCommand ''delete <name>'' (Some (ExactArgs 1))]"

definition newDeferredGroup :: "string \<Rightarrow> string \<Rightarrow> 'x command" where
  "newDeferredGroup name leaf = Command name None None [] [newDeferredCommand leaf (Some NoArgs)]"

definition NewRootCommand ::
  "('w, 'f, 'h, 'x) process \<Rightarrow> ('s, 'x) surroundings \<Rightarrow> (posix \<Rightarrow> string \<Rightarrow> gerror + file_info) \<Rightarrow> writer
     \<Rightarrow> ('w, 'f, 's) command_dependencies \<Rightarrow> 'x command" where
  "NewRootCommand P surroundings lstat stdout dependencies =
     (let out = (case cd_output dependencies of None \<Rightarrow> stdout | Some o1 \<Rightarrow> o1) in
      Command ''oryxos'' None None []
        [newInitCommand out dependencies, newStatusCommand lstat out dependencies, newChatCommand,
         newServeCommand P surroundings dependencies, newDeferredCommand ''gateway'' None, newProfileCommand,
         newDeferredGroup ''provider'' ''list'', newDeferredGroup ''tool'' ''list'', newDeferredGroup ''session'' ''list''])"

text \<open>\<open>Execute\<close> of the library is a parameter; the result is the exit status and what goes to the standard error.\<close>

definition main_command ::
  "('x command \<Rightarrow> 'x cli \<Rightarrow> (gerror option \<times> 'x cli) option) \<Rightarrow> 'x command \<Rightarrow> 'x cli \<Rightarrow> (nat \<times> string \<times> 'x cli) option" where
  "main_command Execute root w = (case Execute root w of
     None \<Rightarrow> None
   | Some (None, w1) \<Rightarrow> Some (0, [], w1)
   | Some (Some e, w1) \<Rightarrow> Some (1, error_text e @ [CHR 0x0A], w1))"

section \<open>The tree\<close>

text \<open>The name of a command is its use line up to the first space; a path of names leads to a command.\<close>

definition command_name :: "'x command \<Rightarrow> string" where
  "command_name c = takeWhile (\<lambda>ch. ch \<noteq> CHR '' '') (cm_use c)"

fun command_at :: "string list \<Rightarrow> 'x command \<Rightarrow> 'x command option" where
  "command_at [] c = Some c"
| "command_at (n # ns) c = (case find (\<lambda>d. command_name d = n) (cm_children c) of
     None \<Rightarrow> None | Some d \<Rightarrow> command_at ns d)"

text \<open>The runs of a command and of all below it, with their paths.\<close>

fun command_runs :: "string list \<Rightarrow> 'x command \<Rightarrow> (string list \<times> 'x run_e) list" where
  "command_runs path (Command use args run flags children) =
     (case run of None \<Rightarrow> [] | Some r \<Rightarrow> [(path, r)]) @
     concat (map (\<lambda>d. command_runs (path @ [command_name d]) d) children)"

definition run_at :: "string list \<Rightarrow> 'x command \<Rightarrow> 'x run_e" where
  "run_at path c = (case command_at path c of None \<Rightarrow> (\<lambda>w. None) | Some d \<Rightarrow> the (cm_run d))"

lemmas command_defs = NewRootCommand_def newInitCommand_def newStatusCommand_def newServeCommand_def newDeferredCommand_def
  newChatCommand_def newProfileCommand_def newDeferredGroup_def command_name_def Let_def

lemma run_at_init:
  "run_at [''init''] (NewRootCommand P S lstat stdout D) w =
     (case InitializeWorkspace (workspaceRoot D) (case cd_output D of None \<Rightarrow> stdout | Some o1 \<Rightarrow> o1) (cl_files w) of
        None \<Rightarrow> None | Some (err, files) \<Rightarrow> Some (err, w\<lparr>cl_files := files\<rparr>))"
  by (simp add: run_at_def command_defs)

lemma run_at_status:
  "run_at [''status''] (NewRootCommand P S lstat stdout D) w =
     (let state = WorkspaceStatus (lstat (w_ext (cl_files w))) (workspaceRoot D);
          (err, files) = outside ((case cd_output D of None \<Rightarrow> stdout | Some o1 \<Rightarrow> o1) (status_text state)) (\<lambda>_. WPrint (status_text state)) (cl_files w)
      in Some (err, w\<lparr>cl_files := files\<rparr>))"
  by (simp add: run_at_def command_defs)

lemma serve_named: "cm_use (newServeCommand P S D) = ''serve''"
  by (simp add: newServeCommand_def)

lemma serve_command: "command_at [''serve''] (NewRootCommand P S lstat stdout D) = Some (newServeCommand P S D)"
  by (simp add: NewRootCommand_def newInitCommand_def newStatusCommand_def newDeferredCommand_def newChatCommand_def
      command_name_def serve_named Let_def)

lemma run_at_serve:
  "run_at [''serve''] (NewRootCommand P S lstat stdout D) w =
     (let options = (cd_foundation_options D)\<lparr>fo_server_yaml := []\<rparr> in
      case NewFoundation P options of
        Inl e \<Rightarrow> Some (Some e, w)
      | Inr (server, logger, application) \<Rightarrow>
          (let (L, selections) = S (fo_signal_context options) in
           case Run_app L selections application (cl_app w) of
             None \<Rightarrow> None
           | Some (err, a, x) \<Rightarrow> Some (err, w\<lparr>cl_app := x\<rparr>)))"
  unfolding run_at_def serve_command by (simp add: newServeCommand_def)

text \<open>Every command besides the three returns the error at once and changes nothing.\<close>

lemma deferred_commands_inert:
  assumes "(path, run) \<in> set (command_runs [] (NewRootCommand P S lstat stdout D))"
  shows "path \<in> {[''init''], [''status''], [''serve'']} \<or> run = (\<lambda>w. Some (Some (Sentinel ErrNotImplemented), w))"
  using assms by (auto simp: command_defs)

section \<open>Initialising, then asking\<close>

text \<open>
  C34.  The status after an initialisation.  On the files of an operating system where calls may fail but nobody
  else interferes, the init command returns, keeps every path that existed, and touches no application;
  and if it reports no error, then the status command prints that the workspace is initialized, once, and changes no
  path.
\<close>

theorem init_then_status:
  fixes P :: "('w, 'f, 'h, 'x) process" and S :: "('s, 'x) surroundings" and D :: "('w, 'f, 's) command_dependencies"
  assumes printer: "cd_output D = Some out" and quiet: "\<And>l x. px_look (snd (out l x)) = px_look x"
    and root: "root = NewRootCommand P S lstat_now stdout D"
  shows "\<exists>err w1. run_at [''init''] root w = Some (err, w1) \<and> cl_app w1 = cl_app w \<and>
    (\<forall>p n. px_look (w_ext (cl_files w)) p = Some n \<longrightarrow> px_look (w_ext (cl_files w1)) p = Some n) \<and>
    (err = None \<longrightarrow> (\<exists>w2. run_at [''status''] root w1 = Some (fst (out (status_text WorkspaceInitialized) (w_ext (cl_files w1))), w2) \<and>
       emitted (cl_files w1) [WPrint (''mode: foundation'' @ [CHR 0x0A] @ ''workspace: initialized'' @ [CHR 0x0A])] (cl_files w2) \<and>
       px_look (w_ext (cl_files w2)) = px_look (w_ext (cl_files w1)) \<and> cl_app w2 = cl_app w))"
proof -
  obtain err files where init: "InitializeWorkspace (workspaceRoot D) out (cl_files w) = Some (err, files)"
      "\<forall>p n. px_look (w_ext (cl_files w)) p = Some n \<longrightarrow> px_look (w_ext files) p = Some n"
      "err = None \<longrightarrow> WorkspaceStatus (lstat_now (w_ext files)) (workspaceRoot D) = WorkspaceInitialized"
    using initialization_completes [of out, OF quiet] by blast
  let ?w1 = "w\<lparr>cl_files := files\<rparr>" and ?text = "status_text WorkspaceInitialized"
  have run: "run_at [''init''] root w = Some (err, ?w1)"
    by (simp add: root run_at_init printer init(1))
  obtain e files2 where print: "outside (out ?text) (\<lambda>_. WPrint ?text) files = (e, files2)" by fastforce
  have "run_at [''status''] root ?w1 = Some (e, ?w1\<lparr>cl_files := files2\<rparr>)" if "err = None"
    using init(3) that by (simp add: root run_at_status printer print)
  moreover have "emitted files [WPrint ?text] files2" using emitted_outside [OF print] .
  moreover have "e = fst (out ?text (w_ext files))" "w_ext files2 = snd (out ?text (w_ext files))"
    using ext_outside [OF print] by simp_all
  ultimately show ?thesis using run init(2) quiet [of ?text "w_ext files"]
    by (intro exI [of _ err] exI [of _ ?w1]) (auto simp: status_text_def intro!: exI [of _ "?w1\<lparr>cl_files := files2\<rparr>"])
qed

section \<open>Serving\<close>

text \<open>
  C35.  What the serve command does.  A run that ends has not touched the files.  Either the configuration was
  refused and nothing was started, or the one server, on an address with a host and a port, was started, and
  the run was one of two: the start failed and the server was never announced ready nor closed, or it was
  announced ready, then the signals were released, then it was announced not ready, then closed, once; after
  that at most the failure is logged.
\<close>

theorem serve_runs_once:
  assumes run: "run_at [''serve''] (NewRootCommand P S lstat stdout D) w = Some (err, w')"
    and es: "emitted (cl_app w) es (cl_app w')"
  shows "cl_files w' = cl_files w \<and>
    ((\<exists>e. err = Some (Wrapf ''load server configuration: '' e) \<and> es = []) \<or>
     (\<exists>server logger application tail.
        NewFoundation P ((cd_foundation_options D)\<lparr>fo_server_yaml := []\<rparr>) = Inr (server, logger, application) \<and>
        usable_address (hs_addr (sv_http server)) \<and> set tail \<subseteq> {AppLog ''app.shutdown_failed''} \<and>
        (es = [AppStart 0, AppStop, AppReady False] @ tail \<or>
         es = [AppStart 0, AppReady True, AppStop, AppReady False, AppClose 0] @ tail)))"
proof -
  let ?options = "(cd_foundation_options D)\<lparr>fo_server_yaml := []\<rparr>"
  show ?thesis
  proof (cases "NewFoundation P ?options")
    case (Inl e)
    then have "err = Some e" "w' = w" using run by (simp_all add: run_at_serve)
    moreover have "\<exists>e'. e = Wrapf ''load server configuration: '' e'"
      using Inl by (auto simp: NewFoundation_def Let_def split: sum.splits)
    moreover have "es = []" using emitted_unique [OF es] emitted_refl \<open>w' = w\<close> by simp
    ultimately show ?thesis by blast
  next
    case (Inr r)
    obtain server logger application where r: "r = (server, logger, application)" by (metis prod_cases3)
    obtain L sels where S: "S (fo_signal_context (cd_foundation_options D)) = (L, sels)" by fastforce
    obtain a x where x: "Run_app L sels application (cl_app w) = Some (err, a, x)" "w' = w\<lparr>cl_app := x\<rparr>"
      using run by (auto simp: run_at_serve Inr r S split: option.splits)
    have sound: "usable_address (hs_addr (sv_http server))"
      "NewApplication (ap_timeout application) True True [Some (ps_component P server logger)] = Inr application"
      using NewFoundation_usable [OF Inr [unfolded r]] by blast+
    then obtain timeout where app: "application = newApplication timeout True True [Some (ps_component P server logger)]"
      by (metis NewApplication_def Inr_inject Inl_Inr_False)
    have "emitted (cl_app w) es x" using es x(2) by simp
    from run_app_ordered [OF x(1) [unfolded app] this] obtain tail where t: "set tail \<subseteq> {AppLog ''app.shutdown_failed''}"
      "es = [AppStart 0, AppStop, AppReady False] @ tail \<or>
       es = [AppStart 0, AppReady True, AppStop, AppReady False, AppClose 0] @ tail"
      by auto
    then show ?thesis using Inr r sound(1) t x(2) by auto
  qed
qed

section \<open>Examples\<close>

definition demo_process :: "(unit, unit, unit, nat) process" where
  "demo_process = \<lparr>ps_url = (\<lambda>s. None), ps_yaml = demo_yaml, ps_lookup_env = (\<lambda>n. None), ps_stderr = (), ps_net_listen = (),
     ps_json_handler = (\<lambda>l. ()), ps_component = (\<lambda>s l. demo_component)\<rparr>"

definition demo_dependencies :: "(unit, unit, unit) command_dependencies" where
  "demo_dependencies = \<lparr>cd_workspace_root = [], cd_foundation_options = \<lparr>fo_server_yaml = [], fo_lookup_env = None,
       fo_log_writer = None, fo_version = ''v1'', fo_listener_factory = None, fo_signal_context = None\<rparr>,
     cd_output = Some demo_out\<rparr>"

definition demo_surroundings :: "(unit, nat) surroundings" where
  "demo_surroundings s = (demo_lifecycle, [RootDone])"

definition demo_cli :: "nat cli" where
  "demo_cli = \<lparr>cl_files = \<lparr>w_ext = demo_posix, w_trace = []\<rparr>, cl_app = \<lparr>w_ext = 0, w_trace = []\<rparr>\<rparr>"

theorem init_then_status_witness:
  "\<exists>err w1. run_at [''init''] (NewRootCommand demo_process demo_surroundings lstat_now demo_out demo_dependencies) demo_cli = Some (err, w1) \<and>
     px_look (w_ext (cl_files w1)) ''.'' = px_look demo_posix ''.''"
proof -
  have "cd_output demo_dependencies = Some demo_out" by (simp add: demo_dependencies_def)
  moreover have "px_look (snd (demo_out l x)) = px_look x" for l x by (simp add: demo_out_def)
  moreover have "px_look demo_posix ''.'' = Some (\<lparr>fi_symlink = False, fi_dir = True, fi_regular = False, fi_perm = directory_mode\<rparr>, [])"
    by (simp add: demo_posix_def px_look_def)
  moreover have "w_ext (cl_files demo_cli) = demo_posix" by (simp add: demo_cli_def)
  ultimately show ?thesis
    using init_then_status [of demo_dependencies demo_out, OF _ _ refl, of demo_process demo_surroundings demo_out demo_cli] by metis
qed

lemma demo_serve:
  "\<exists>w'. run_at [''serve''] (NewRootCommand demo_process demo_surroundings lstat_now demo_out demo_dependencies) demo_cli = Some (None, w') \<and>
     w_trace (cl_app w') = [AppStart 0, AppReady True, AppStop, AppReady False, AppClose 0]"
  by (simp add: run_at_serve NewFoundation_def demo_process_def demo_dependencies_def demo_config demo_surroundings_def demo_cli_def Let_def
      Run_app_def newApplication_def demo_lifecycle_def demo_component_def outside_def recordStarted_def emit_if_def
      emit_def shutdown_def silent_def Join_errors_def enumerate_eq_zip)

theorem serve_runs_once_witness:
  "\<exists>w' server logger application tail.
     run_at [''serve''] (NewRootCommand demo_process demo_surroundings lstat_now demo_out demo_dependencies) demo_cli = Some (None, w') \<and>
     NewFoundation demo_process ((cd_foundation_options demo_dependencies)\<lparr>fo_server_yaml := []\<rparr>) = Inr (server, logger, application) \<and>
     usable_address (hs_addr (sv_http server)) \<and>
     w_trace (cl_app w') = [AppStart 0, AppReady True, AppStop, AppReady False, AppClose 0] @ tail"
proof -
  obtain w' where run: "run_at [''serve''] (NewRootCommand demo_process demo_surroundings lstat_now demo_out demo_dependencies) demo_cli = Some (None, w')"
      "w_trace (cl_app w') = [AppStart 0, AppReady True, AppStop, AppReady False, AppClose 0]" using demo_serve by blast
  have "emitted (cl_app demo_cli) [AppStart 0, AppReady True, AppStop, AppReady False, AppClose 0] (cl_app w')"
    using run(2) by (simp add: emitted_def demo_cli_def)
  from serve_runs_once [OF run(1) this] run show ?thesis by auto
qed

end
