(* ===== verification/Sqlite.thy ===== *)
theory Sqlite
  imports Store
begin

text \<open>
  internal/store/sqlite.go: opening the database and applying the migrations, and what is closed when that
  fails.  The database library, \<open>filepath.Abs\<close>, the printing of the URL and the texts of the two
  migrations are parameters.
\<close>

datatype db_event = DbOpen string bool | DbExec goctx string bool | DbHandle bool | DbClose

record ('d, 'q, 'x) sqlite_library =
  sl_abs :: "string \<Rightarrow> gerror + string"
  sl_url :: "string \<Rightarrow> string \<Rightarrow> string \<Rightarrow> string"
  sl_open :: "string \<Rightarrow> 'x \<Rightarrow> (gerror + 'd) \<times> 'x"
  sl_exec :: "'d \<Rightarrow> goctx \<Rightarrow> string \<Rightarrow> 'x \<Rightarrow> gerror option \<times> 'x"
  sl_handle :: "'d \<Rightarrow> 'x \<Rightarrow> (gerror + 'q) \<times> 'x"
  sl_close :: "'q \<Rightarrow> 'x \<Rightarrow> gerror option \<times> 'x"

type_synonym 'x db_world = "('x, db_event) world"

fun succeeded_sum :: "gerror + 'a \<Rightarrow> bool" where
  "succeeded_sum (Inl e) = False"
| "succeeded_sum (Inr a) = True"

text \<open>The handle below is closed when it can be had; its error is dropped.\<close>

definition close_database :: "('d, 'q, 'x) sqlite_library \<Rightarrow> 'd \<Rightarrow> 'x db_world \<Rightarrow> 'x db_world" where
  "close_database L database w =
     (let (handle, w1) = outside (sl_handle L database) (\<lambda>r. DbHandle (succeeded_sum r)) w in
      case handle of Inl e \<Rightarrow> w1 | Inr q \<Rightarrow> snd (outside (sl_close L q) (\<lambda>_. DbClose) w1))"

definition apply_migration :: "('d, 'q, 'x) sqlite_library \<Rightarrow> goctx \<Rightarrow> 'd \<Rightarrow> string \<Rightarrow> 'x db_world \<Rightarrow> gerror option \<times> 'x db_world" where
  "apply_migration L cx database migration w =
     (let (err, w1) = outside (sl_exec L database cx migration) (\<lambda>e. DbExec cx migration (e = None)) w in
      case err of
        Some e \<Rightarrow> (Some (Wrapf ''apply sqlite migrations: '' e), close_database L database w1)
      | None \<Rightarrow> (None, w1))"

definition OpenSQLite ::
  "('d, 'q, 'x) sqlite_library \<Rightarrow> string \<Rightarrow> string \<Rightarrow> goctx option \<Rightarrow> string \<Rightarrow> 'x db_world \<Rightarrow> (gerror + 'd) \<times> 'x db_world" where
  "OpenSQLite L llmCallsMigration toolInvocationsMigration ctx path w = (case ctx of
     None \<Rightarrow> (Inl (Errorf ''open sqlite: context is nil''), w)
   | Some cx \<Rightarrow>
       if path = [] then (Inl (Errorf ''open sqlite: path is empty''), w)
       else (case sl_abs L path of
         Inl e \<Rightarrow> (Inl (Wrapf ''resolve sqlite path: '' e), w)
       | Inr absolutePath \<Rightarrow>
           (let dsn = sl_url L ''file'' absolutePath ''_pragma=busy_timeout(5000)&_pragma=journal_mode(WAL)'';
                (opened, w1) = outside (sl_open L dsn) (\<lambda>r. DbOpen dsn (succeeded_sum r)) w in
            case opened of
              Inl e \<Rightarrow> (Inl (Wrapf ''open sqlite: '' e), w1)
            | Inr database \<Rightarrow>
                (let (err, w2) = apply_migration L cx database llmCallsMigration w1 in
                 case err of
                   Some e \<Rightarrow> (Inl e, w2)
                 | None \<Rightarrow>
                     (let (err, w3) = apply_migration L cx database toolInvocationsMigration w2 in
                      case err of Some e \<Rightarrow> (Inl e, w3) | None \<Rightarrow> (Inr database, w3))))))"

section \<open>Migrated or closed\<close>

lemma close_database_trace:
  "\<exists>es. emitted w es (close_database L database w) \<and> (es = [DbHandle True, DbClose] \<or> es = [DbHandle False])"
proof -
  obtain handle w1 where h: "outside (sl_handle L database) (\<lambda>r. DbHandle (succeeded_sum r)) w = (handle, w1)" by fastforce
  show ?thesis
  proof (cases handle)
    case (Inl e)
    then show ?thesis using emitted_outside [OF h] by (auto simp: close_database_def h)
  next
    case (Inr q)
    obtain r w2 where c: "outside (sl_close L q) (\<lambda>_. DbClose) w1 = (r, w2)" by fastforce
    have "emitted w [DbHandle True, DbClose] w2"
      using emitted_trans [OF emitted_outside [OF h] emitted_outside [OF c]] Inr by simp
    then show ?thesis by (auto simp: close_database_def h Inr c)
  qed
qed

text \<open>The events of a migration that failed or not.\<close>

definition migration_events :: "goctx \<Rightarrow> string \<Rightarrow> bool \<Rightarrow> db_event list \<Rightarrow> bool" where
  "migration_events cx m ok es \<longleftrightarrow>
     (if ok then es = [DbExec cx m True] else es = [DbExec cx m False, DbHandle True, DbClose] \<or> es = [DbExec cx m False, DbHandle False])"

lemma apply_migration_trace:
  assumes "apply_migration L cx database m w = (err, w')"
  shows "\<exists>es. emitted w es w' \<and> migration_events cx m (err = None) es"
proof -
  obtain e w1 where x: "outside (sl_exec L database cx m) (\<lambda>e. DbExec cx m (e = None)) w = (e, w1)" by fastforce
  show ?thesis
  proof (cases e)
    case None
    then show ?thesis using assms emitted_outside [OF x] by (auto simp: apply_migration_def x migration_events_def)
  next
    case (Some e')
    obtain es where es: "emitted w1 es (close_database L database w1)" "es = [DbHandle True, DbClose] \<or> es = [DbHandle False]"
      using close_database_trace [of w1 L database] by auto
    have all: "emitted w (DbExec cx m False # es) (close_database L database w1)"
      using emitted_trans [OF emitted_outside [OF x] es(1)] Some by simp
    have events: "migration_events cx m False (DbExec cx m False # es)" using es(2) by (simp add: migration_events_def)
    have out: "(err = None) = False" "w' = close_database L database w1" using assms by (auto simp: apply_migration_def x Some)
    show ?thesis unfolding out by (rule exI conjI all events)+
  qed
qed

text \<open>
  A database is returned only after both migrations were applied in order on it; once one was opened and
  a migration failed, no further one is tried, and the database is closed unless its handle cannot be had.
\<close>

theorem OpenSQLite_migrated_or_closed:
  assumes "OpenSQLite L first second (Some cx) path w = (result, w')"
  shows "\<exists>es. emitted w es w' \<and>
    ((es = [] \<or> (\<exists>dsn. es = [DbOpen dsn False])) \<and> \<not> succeeded_sum result \<or>
     (\<exists>dsn. es = [DbOpen dsn True, DbExec cx first True, DbExec cx second True]) \<and> succeeded_sum result \<or>
     (\<exists>dsn failed. es = DbOpen dsn True # failed \<and> migration_events cx first False failed) \<and> \<not> succeeded_sum result \<or>
     (\<exists>dsn failed. es = DbOpen dsn True # DbExec cx first True # failed \<and> migration_events cx second False failed) \<and> \<not> succeeded_sum result)"
proof (cases "path = [] \<or> (\<exists>e. sl_abs L path = Inl e)")
  case True
  then have "w' = w" "\<not> succeeded_sum result" using assms by (auto simp: OpenSQLite_def split: if_splits)
  then show ?thesis by (intro exI [of _ "[]"]) simp
next
  case False
  then obtain file_path where abs: "sl_abs L path = Inr file_path" "path \<noteq> []" by (metis sum.exhaust)
  let ?dsn = "sl_url L ''file'' file_path ''_pragma=busy_timeout(5000)&_pragma=journal_mode(WAL)''"
  obtain opened w1 where x: "outside (sl_open L ?dsn) (\<lambda>r. DbOpen ?dsn (succeeded_sum r)) w = (opened, w1)" by fastforce
  note run = assms [unfolded OpenSQLite_def, simplified abs option.case sum.case, simplified Let_def x, simplified abs]
  show ?thesis
  proof (cases opened)
    case (Inl e)
    then show ?thesis using run emitted_outside [OF x] by auto
  next
    case (Inr database)
    obtain e1 w2 where m1: "apply_migration L cx database first w1 = (e1, w2)" by fastforce
    obtain e2 w3 where m2: "apply_migration L cx database second w2 = (e2, w3)" by fastforce
    obtain es1 where es1: "emitted w (DbOpen ?dsn True # es1) w2" "migration_events cx first (e1 = None) es1"
      using apply_migration_trace [OF m1] emitted_trans [OF emitted_outside [OF x]] by (auto simp: Inr)
    obtain es2 where es2: "emitted w (DbOpen ?dsn True # es1 @ es2) w3" "migration_events cx second (e2 = None) es2"
      using apply_migration_trace [OF m2] emitted_trans [OF es1(1)] by auto
    show ?thesis
    proof (cases e1)
      case (Some e)
      then show ?thesis using run es1 by (auto simp: Inr m1)
    next
      case None
      then have "es1 = [DbExec cx first True]" using es1(2) by (simp add: migration_events_def)
      then show ?thesis using run es2 None
        by (cases e2) (auto simp: Inr m1 m2 migration_events_def [of _ _ True])
    qed
  qed
qed

end
