(* ===== verification/Spec2Isabelle.thy ===== *)
theory Spec2Isabelle
  imports Agent_Service Command_Line Sqlite
begin

text \<open>
  A verification library of OryxOS, an agent runtime written in Go (module
  \<open>github.com/Karlsk/oryxos-go\<close>, under src/).  The theories model its Go code function by function; a
  definition has the name of the function it models, with a prefix or suffix where two packages share a name
  or HOL has it.


  How the program is put together

  The command line (cmd/oryxos) initialises a workspace, reports its status, or serves.  Serving
  assembles configuration, logger, observer, server and application (internal/app/foundation.go) and runs the
  application (internal/app/application.go), whose one component is the HTTP server (internal/web).
  The agent runtime (internal/runtime) is a library beside it: \<open>Invoke\<close> resolves a Profile
  (internal/profile) and a session (internal/session), and runs the loop, which builds a prompt, calls the
  model through the Provider service (internal/provider) and runs Tools through the executor
  (internal/tool).  Every model call and every Tool call leaves an audit row (internal/store), and every
  error text and log record passes the redaction of internal/config and internal/observability.


  How the code is modelled

  A function is a HOL function.  A Go error is a value of \<open>gerror\<close>, no error is \<open>None\<close>; a
  nil pointer, context or interface that the code tests for is \<open>None\<close> as well, and a failed type
  assertion or a panic that the code could reach is an outcome of its own.  A string is its bytes; a rune is a
  number; a map is an association list where the code copies or prints it.  Counters and the registers of
  numbers that overflow are 64-bit words.

  Whatever lies outside the repository is a parameter: a function that takes the world and returns a result
  with the next world.  The world has a state of any type, which only these functions read and write, and
  the trace of the calls the program made.  The theorems hold for every such function, except where they
  name a law that it keeps.  What happens under a mutex is one step; the components that several
  goroutines use at once (\<open>Web_Server\<close>, the Provider registry, the audited stream) are modelled as
  sequences of such steps in any order.


  Theories and code

  Shared ground.  \<open>Go_Prelude\<close>: errors, contexts, times, worlds, traces and their lemmas.
  \<open>Go_Strings\<close>, \<open>Go_Json\<close>, \<open>Paths\<close>: what the code uses of strings, unicode/utf8, strconv,
  encoding/json and path/filepath.  \<open>Domain\<close>: the records of internal/llm/model.go, the audit rows, the Profile and the
  events.  \<open>Demo\<close>: a concrete world for the examples.

  Redaction and logging.  \<open>Redact\<close>: internal/config/redact.go, with the regular expressions as data.
  \<open>Observability\<close>: correlation.go.  \<open>Log_Handlers\<close>: redacting\_handler.go, console\_handler.go, logger.go.
  \<open>Http_Observer\<close>: observer.go.

  Runtime.  \<open>Session\<close>: session.go.  \<open>Profiles\<close>: internal/profile.  \<open>Snapshots\<close>: the loaders of
  internal/bootstrap and internal/skill.  \<open>Prompt_Builder\<close>, \<open>React_Loop\<close>, \<open>Agent_Service\<close>: internal/runtime.
  \<open>Tool_Schema\<close>, \<open>Tool_Executor\<close>: internal/tool.  \<open>Store\<close>, \<open>Sqlite\<close>: internal/store.

  Providers.  \<open>Provider_Registry\<close>: registry.go.  \<open>Provider_Service\<close>: service.go and
  tool\_schema\_resolver.go.  \<open>Provider_Stream\<close>: stream.go.  \<open>Eino_Adapter\<close>: eino\_adapter.go.
  \<open>Model_Factories\<close>: factory.go and the default registry.

  Process.  \<open>Server_Config\<close>: config.go, expand.go, load.go.  \<open>Pagination\<close>, \<open>Web_Api\<close>: internal/web/api,
  internal/web/middleware and handlers.go.  \<open>Web_Server\<close>: component.go.  \<open>App_Lifecycle\<close>: application.go.
  \<open>Foundation\<close>: internal/web/server.go and foundation.go.  \<open>Workspace\<close>, \<open>Workspace_Fs\<close>: workspace.go.
  \<open>Command_Line\<close>: commands.go, root.go, main.go.


  What the lemmas show

  Runtime: an invocation makes at most as many model calls as the Profile has iterations, runs only allowed
  Tools, and only after a model call whose success row was stored; the session is saved once, last; the
  conversation grows by whole rounds; a prompt fits its budget and loses as few turns as possible.  Tools and
  Providers: each call leaves exactly one valid, redacted row; a Tool is only invoked when everything about it
  was checked; retries are bounded; a stream is audited once however it is used; the models are rebuilt
  all or nothing, and between two rebuilds no binding is replaced.  Loaders: nothing outside the roots is read; every
  Profile file is accounted for.  Web: every request that gin hands to a handler is answered with the contract's envelope
  and an identifier and counted once, panics included (gin redirects a trailing slash by itself); the server serves
  at most once and a closed server leaves nothing behind.  Process: a loaded configuration is usable; placeholders are
  expanded once; components are closed in the reverse order of their start; a workspace is completed without
  touching what was there, and files appear only when complete; a log line has a redacted field for every
  leaf of its attributes and is one line.

  The interfaces between components are locales, each interpreted on the model of the component that
  provides it: \<open>audit_recorder\<close> (Store), \<open>schema_resolver\<close>, \<open>call_audit\<close> (Provider service), \<open>model_port\<close>,
  \<open>upstream_port\<close> (Eino adapter), \<open>executor_clock\<close>, \<open>tool_audit\<close> (executor), \<open>prompt_port\<close>, \<open>chat_port\<close>,
  \<open>tool_port\<close>, \<open>react_ports\<close> (loop), \<open>loop_contract\<close> (agent service), \<open>route_handler\<close> (handlers),
  \<open>workspace_port\<close> (the file system of workspace.go).


  Bounds

  The loops of the code recurse on their data, on a bound of the code (iterations, retries, digits), or with a
  measure; the few that need not end (waiting for a file system that changes, for signals, for a server)
  return \<open>None\<close> while they still run.  \<open>slog\<close> unwraps a value at most 100 times, a temporary file is tried 10000 times, as
  in the library.  Which runes above ASCII are printable or change case is fixed as \<open>Go_Strings\<close> says.


  Not modelled

  The bodies of what is only called: the database library and the SQL of the migrations, the Eino
  connectors, the YAML decoder and \<open>time.ParseDuration\<close>, the routing of gin (only what it documents is used), the HTTP server and its
  network, \<open>url.Parse\<close>, the JSON handler of \<open>slog\<close>, the argument parser of the command line, signals.
  The packages internal/memory, internal/sandbox, internal/scheduler, internal/channel, internal/tool/builtin and internal/tool/mcp
  hold no code yet.  A data race that a mutex excludes is not represented.
\<close>

end
